(* ===== verification/Prelude.thy ===== *)
theory Prelude
  imports Main "HOL-Library.Sublist"
begin

text \<open>
  Shared material of the development: the collections of facts the component
  theories add to, the "first element or nothing" reading of a JavaScript list
  (\<^verbatim>\<open>xs[0]\<close>, and the first match that \<^verbatim>\<open>querySelector\<close> returns),
  substring containment as the library's \<open>sublist\<close>, and the splitting of an
  attribute value into its whitespace-separated tokens (how the DOM reads a
  \<^verbatim>\<open>class\<close> attribute).
\<close>

section \<open>Fact collections\<close>

named_theorems dom_defs \<open>unfolding of the document model's derived notions\<close>
named_theorems sel_defs \<open>the selectors of the script, unfolded\<close>
named_theorems frame \<open>fields of the page state an operation leaves unchanged\<close>
named_theorems login_defs \<open>the entry points of the script, unfolded\<close>

section \<open>The first element of a list, if any\<close>

definition first :: "'a list \<Rightarrow> 'a option" where
  "first xs = (case xs of [] \<Rightarrow> None | x # _ \<Rightarrow> Some x)"

lemma first_Nil [simp]: "first [] = None"
  by (simp add: first_def)

lemma first_Cons [simp]: "first (x # xs) = Some x"
  by (simp add: first_def)

lemma first_None_iff [simp]: "first xs = None \<longleftrightarrow> xs = []"
  by (cases xs) simp_all

lemma first_Some_iff: "first xs = Some x \<longleftrightarrow> (\<exists>ys. xs = x # ys)"
  by (cases xs) auto

lemma first_Some_hd: "first xs = Some x \<Longrightarrow> xs \<noteq> [] \<and> x = hd xs"
  by (cases xs) auto

lemma first_in_set: "first xs = Some x \<Longrightarrow> x \<in> set xs"
  by (cases xs) auto

lemma first_append: "first (xs @ ys) = (case first xs of None \<Rightarrow> first ys | Some x \<Rightarrow> Some x)"
  by (cases xs) simp_all

lemma first_map: "first (map f xs) = map_option f (first xs)"
  by (cases xs) simp_all

lemma first_filter_find: "first (filter P xs) = List.find P xs"
  by (induction xs) simp_all

text \<open>
  The first match is a match, and nothing before it in the list matches: the
  shape of every "first in document order" argument below.
\<close>

lemma first_filter_Some_iff:
  "first (filter P xs) = Some x \<longleftrightarrow>
     (\<exists>ys zs. xs = ys @ x # zs \<and> P x \<and> (\<forall>y \<in> set ys. \<not> P y))"
proof -
  have "List.find P xs = Some x \<longleftrightarrow>
      (\<exists>i<length xs. P (xs ! i) \<and> x = xs ! i \<and> (\<forall>j<i. \<not> P (xs ! j)))"
    by (rule find_Some_iff)
  also have "\<dots> \<longleftrightarrow> (\<exists>ys zs. xs = ys @ x # zs \<and> P x \<and> (\<forall>y \<in> set ys. \<not> P y))"
  proof
    assume "\<exists>i<length xs. P (xs ! i) \<and> x = xs ! i \<and> (\<forall>j<i. \<not> P (xs ! j))"
    then obtain i where i: "i < length xs" "P (xs ! i)" "x = xs ! i" "\<forall>j<i. \<not> P (xs ! j)"
      by blast
    from i(1,3) have "xs = take i xs @ x # drop (Suc i) xs"
      by (simp add: id_take_nth_drop)
    moreover from i(1,4) have "\<forall>y \<in> set (take i xs). \<not> P y"
      by (auto simp: in_set_conv_nth)
    ultimately show "\<exists>ys zs. xs = ys @ x # zs \<and> P x \<and> (\<forall>y \<in> set ys. \<not> P y)"
      using i(2,3) by blast
  next
    assume "\<exists>ys zs. xs = ys @ x # zs \<and> P x \<and> (\<forall>y \<in> set ys. \<not> P y)"
    then obtain ys zs where s: "xs = ys @ x # zs" "P x" "\<forall>y \<in> set ys. \<not> P y"
      by blast
    then have "length ys < length xs \<and> P (xs ! length ys) \<and> x = xs ! length ys
        \<and> (\<forall>j<length ys. \<not> P (xs ! j))"
      by (auto simp: nth_append)
    then show "\<exists>i<length xs. P (xs ! i) \<and> x = xs ! i \<and> (\<forall>j<i. \<not> P (xs ! j))"
      by blast
  qed
  finally show ?thesis
    by (simp add: first_filter_find)
qed

lemma first_filter_None_iff: "first (filter P xs) = None \<longleftrightarrow> (\<forall>x \<in> set xs. \<not> P x)"
  by (simp add: filter_empty_conv)

lemma first_filter_SomeD: "first (filter P xs) = Some x \<Longrightarrow> P x \<and> x \<in> set xs"
  by (auto simp: first_filter_Some_iff)

section \<open>Substrings\<close>

text \<open>
  \<open>sublist u v\<close> of the library says that \<open>u\<close> occurs in \<open>v\<close> as a contiguous
  block, which is what a substring is. Its code equations decide it; the two
  facts below let the simplifier run them on string literals.
\<close>

lemma sublist_Cons_Cons [simp]:
  "sublist (x # xs) (y # ys) \<longleftrightarrow> prefix (x # xs) (y # ys) \<or> sublist (x # xs) ys"
  by (rule sublist_code)

lemma sublist_Cons_Nil_iff [simp]: "sublist (x # xs) [] \<longleftrightarrow> False"
  by simp

lemma sublist_appendI2: "sublist u w \<Longrightarrow> sublist u (v @ w)"
  by (metis append.assoc sublist_def)

lemma sublist_appendI1: "sublist u v \<Longrightarrow> sublist u (v @ w)"
  by (metis append.assoc sublist_def)

section \<open>Whitespace-separated tokens\<close>

text \<open>
  ASCII whitespace as the DOM standard lists it: tab, line feed, form feed,
  carriage return and space. \<open>split_ws_aux cur s\<close> reads \<open>s\<close> with the token
  \<open>cur\<close> under construction.
\<close>

definition ascii_ws :: "char \<Rightarrow> bool" where
  "ascii_ws c \<longleftrightarrow> c = CHR 0x09 \<or> c = CHR 0x0A \<or> c = CHR 0x0C \<or> c = CHR 0x0D \<or> c = CHR 0x20"

fun split_ws_aux :: "string \<Rightarrow> string \<Rightarrow> string list" where
  "split_ws_aux cur [] = (if cur = [] then [] else [cur])"
| "split_ws_aux cur (c # cs) =
     (if ascii_ws c then (if cur = [] then split_ws_aux [] cs else cur # split_ws_aux [] cs)
      else split_ws_aux (cur @ [c]) cs)"

definition split_ws :: "string \<Rightarrow> string list" where
  "split_ws s = split_ws_aux [] s"

definition ws_free :: "string \<Rightarrow> bool" where
  "ws_free s \<longleftrightarrow> list_all (\<lambda>c. \<not> ascii_ws c) s"

lemma ascii_ws_space [simp]: "ascii_ws (CHR '' '')"
  by (simp add: ascii_ws_def)

lemma ws_free_simps [simp]:
  "ws_free []" "ws_free (c # s) \<longleftrightarrow> \<not> ascii_ws c \<and> ws_free s"
  "ws_free (s @ r) \<longleftrightarrow> ws_free s \<and> ws_free r"
  by (simp_all add: ws_free_def)

text \<open>Every token is non-empty and free of whitespace.\<close>

lemma split_ws_aux_tokens:
  "ws_free cur \<Longrightarrow> t \<in> set (split_ws_aux cur s) \<Longrightarrow> t \<noteq> [] \<and> ws_free t"
  by (induction cur s rule: split_ws_aux.induct) (auto split: if_splits)

lemma split_ws_tokens: "t \<in> set (split_ws s) \<Longrightarrow> t \<noteq> [] \<and> ws_free t"
  using split_ws_aux_tokens [of "[]" t s] by (simp add: split_ws_def)

text \<open>A value without whitespace is one token; whitespace separates token lists.\<close>

lemma split_ws_aux_no_ws:
  "ws_free s \<Longrightarrow> split_ws_aux cur s = (if cur @ s = [] then [] else [cur @ s])"
  by (induction cur s rule: split_ws_aux.induct) auto

lemma split_ws_single: "s \<noteq> [] \<Longrightarrow> ws_free s \<Longrightarrow> split_ws s = [s]"
  by (simp add: split_ws_def split_ws_aux_no_ws)

lemma split_ws_aux_append:
  "ascii_ws c \<Longrightarrow> split_ws_aux cur (s @ c # r) = split_ws_aux cur s @ split_ws_aux [] r"
  by (induction cur s rule: split_ws_aux.induct) auto

lemma split_ws_append: "ascii_ws c \<Longrightarrow> split_ws (s @ c # r) = split_ws s @ split_ws r"
  by (simp add: split_ws_def split_ws_aux_append)

end
