(* ===== verification/Dom.thy ===== *)
theory Dom
  imports Prelude
begin

text \<open>
  The document the script reads. A document is the list of children of the
  document node; a node is an element (with its own data and its children) or
  some other node (text, comment, doctype), which no query returns. An element
  carries an identity \<open>nid\<close> (the object identity of the DOM node), its local
  name in lower case, its attributes in source order, and two properties the
  browser computes from style and layout and the script cannot derive from the
  tree: \<open>offsetHeight\<close> (read by the script) and whether the element is a
  focusable area (decides what \<^verbatim>\<open>focus()\<close> does).

  Document order is the preorder traversal \<open>doc_elements\<close>. A document is well
  formed when no two of its elements share an identity.
\<close>

section \<open>Elements, nodes, documents\<close>

record elem =
  nid :: nat
  tag :: string
  attrs :: "(string \<times> string) list"
  offsetHeight :: nat
  focusable :: bool

datatype node = Element elem "node list" | Text string

type_synonym document = "node list"

fun elements :: "node \<Rightarrow> elem list" where
  "elements (Element e cs) = e # concat (map elements cs)"
| "elements (Text t) = []"

definition doc_elements :: "document \<Rightarrow> elem list" where
  "doc_elements d = concat (map elements d)"

definition wf_document :: "document \<Rightarrow> bool" where
  "wf_document d \<longleftrightarrow> distinct (map nid (doc_elements d))"

definition lookup :: "document \<Rightarrow> nat \<Rightarrow> elem option" where
  "lookup d i = first (filter (\<lambda>e. nid e = i) (doc_elements d))"

text \<open>
  The identities in the subtree of an element, the element itself included
  (its inclusive descendants): a mutation observer registered on an element
  with the \<^verbatim>\<open>subtree\<close> option is told about changes to exactly these.
\<close>

fun subtrees :: "node \<Rightarrow> node list" where
  "subtrees (Element e cs) = Element e cs # concat (map subtrees cs)"
| "subtrees (Text t) = []"

definition has_id :: "nat \<Rightarrow> node \<Rightarrow> bool" where
  "has_id i n \<longleftrightarrow> (case n of Element e cs \<Rightarrow> nid e = i | Text t \<Rightarrow> False)"

definition subtree_ids :: "document \<Rightarrow> nat \<Rightarrow> nat list" where
  "subtree_ids d i =
     (case first (filter (has_id i) (concat (map subtrees d))) of
        None \<Rightarrow> []
      | Some n \<Rightarrow> map nid (elements n))"

section \<open>Attributes and class tokens\<close>

definition getAttribute :: "elem \<Rightarrow> string \<Rightarrow> string option" where
  "getAttribute e n = map_of (attrs e) n"

definition classList :: "elem \<Rightarrow> string list" where
  "classList e = (case getAttribute e ''class'' of None \<Rightarrow> [] | Some v \<Rightarrow> split_ws v)"

section \<open>The body element\<close>

text \<open>
  \<^verbatim>\<open>document.body\<close>: the first child of the \<^verbatim>\<open>html\<close> document element that is a
  \<^verbatim>\<open>body\<close> or a \<^verbatim>\<open>frameset\<close> element, and null when there is none.
\<close>

fun root_of :: "node \<Rightarrow> elem option" where
  "root_of (Element e cs) = Some e"
| "root_of (Text t) = None"

fun children_of :: "node \<Rightarrow> node list" where
  "children_of (Element e cs) = cs"
| "children_of (Text t) = []"

definition child_elems :: "node list \<Rightarrow> elem list" where
  "child_elems ns = List.map_filter root_of ns"

definition documentElement :: "document \<Rightarrow> node option" where
  "documentElement d = first (filter (\<lambda>n. root_of n \<noteq> None) d)"

definition is_body :: "elem \<Rightarrow> bool" where
  "is_body e \<longleftrightarrow> tag e = ''body'' \<or> tag e = ''frameset''"

definition body :: "document \<Rightarrow> elem option" where
  "body d =
     (case documentElement d of
        None \<Rightarrow> None
      | Some n \<Rightarrow>
          (case root_of n of
             None \<Rightarrow> None
           | Some h \<Rightarrow>
               if tag h = ''html'' then first (filter is_body (child_elems (children_of n)))
               else None))"

lemmas [dom_defs] = doc_elements_def wf_document_def lookup_def getAttribute_def classList_def
  child_elems_def documentElement_def is_body_def body_def has_id_def subtree_ids_def

section \<open>Document order\<close>

lemma doc_elements_Nil [simp]: "doc_elements [] = []"
  by (simp add: doc_elements_def)

lemma doc_elements_Cons [simp]: "doc_elements (n # d) = elements n @ doc_elements d"
  by (simp add: doc_elements_def)

lemma doc_elements_append [simp]: "doc_elements (d @ d') = doc_elements d @ doc_elements d'"
  by (simp add: doc_elements_def)

lemma elements_children: "elements (Element e cs) = e # doc_elements cs"
  by (simp add: doc_elements_def)

lemma child_elems_simps [simp]:
  "child_elems [] = []"
  "child_elems (Element e cs # ns) = e # child_elems ns"
  "child_elems (Text t # ns) = child_elems ns"
  by (simp_all add: child_elems_def List.map_filter_simps)

lemma child_elems_subset: "set (child_elems ns) \<subseteq> set (doc_elements ns)"
proof (induction ns)
  case Nil
  show ?case by simp
next
  case (Cons n ns)
  then show ?case by (cases n) auto
qed

lemma in_doc_elementsI: "n \<in> set d \<Longrightarrow> e \<in> set (elements n) \<Longrightarrow> e \<in> set (doc_elements d)"
  by (auto simp: doc_elements_def)

section \<open>Lookup by identity\<close>

lemma lookup_SomeD: "lookup d i = Some e \<Longrightarrow> e \<in> set (doc_elements d) \<and> nid e = i"
  by (auto simp: lookup_def dest: first_filter_SomeD)

lemma lookup_None_iff: "lookup d i = None \<longleftrightarrow> i \<notin> nid ` set (doc_elements d)"
  by (auto simp: lookup_def filter_empty_conv)

lemma distinct_map_filter_eq:
  "distinct (map f xs) \<Longrightarrow> x \<in> set xs \<Longrightarrow> filter (\<lambda>y. f y = f x) xs = [x]"
proof (induction xs)
  case Nil
  then show ?case by simp
next
  case (Cons a xs)
  show ?case
  proof (cases "a = x")
    case True
    with Cons.prems have "f x \<notin> f ` set xs" by simp
    then have "filter (\<lambda>y. f y = f x) xs = []"
      by (auto simp: filter_empty_conv image_iff)
    with True show ?thesis by simp
  next
    case False
    with Cons.prems have "x \<in> set xs" "f a \<noteq> f x" by auto
    with Cons show ?thesis by simp
  qed
qed

text \<open>In a well-formed document an identity names one element.\<close>

lemma lookup_wf: "wf_document d \<Longrightarrow> e \<in> set (doc_elements d) \<Longrightarrow> lookup d (nid e) = Some e"
  by (simp add: wf_document_def lookup_def distinct_map_filter_eq)

lemma wf_nid_inj:
  assumes "wf_document d" and "e \<in> set (doc_elements d)" and "e' \<in> set (doc_elements d)"
    and "nid e = nid e'"
  shows "e = e'"
proof -
  from assms(1,2) have "lookup d (nid e) = Some e" by (rule lookup_wf)
  moreover from assms(1,3) have "lookup d (nid e') = Some e'" by (rule lookup_wf)
  ultimately show ?thesis using assms(4) by (metis option.inject)
qed

section \<open>The body is an element of the document\<close>

lemma documentElement_SomeD: "documentElement d = Some n \<Longrightarrow> n \<in> set d \<and> root_of n \<noteq> None"
  by (auto simp: documentElement_def dest: first_filter_SomeD)

lemma body_SomeD:
  assumes "body d = Some b"
  shows "b \<in> set (doc_elements d) \<and> is_body b"
proof -
  from assms obtain n h where n: "documentElement d = Some n" and h: "root_of n = Some h"
    and b: "first (filter is_body (child_elems (children_of n))) = Some b"
    by (auto simp: body_def split: option.splits if_splits)
  from h obtain cs where ncs: "n = Element h cs" by (cases n) auto
  from b have "is_body b" and "b \<in> set (child_elems (children_of n))"
    by (auto dest: first_filter_SomeD)
  with ncs child_elems_subset [of cs] have "b \<in> set (doc_elements cs)"
    by auto
  with ncs have "b \<in> set (elements n)"
    by (simp only: elements_children list.set insert_iff) simp
  with n documentElement_SomeD [of d n] \<open>is_body b\<close> show ?thesis
    by (auto intro: in_doc_elementsI)
qed

section \<open>Subtrees\<close>

lemma elements_subtrees: "m \<in> set (subtrees n) \<Longrightarrow> set (elements m) \<subseteq> set (elements n)"
proof (induction n)
  case (Element e cs)
  show ?case
  proof (cases "m = Element e cs")
    case True
    then show ?thesis by simp
  next
    case False
    with Element.prems obtain c where "c \<in> set cs" and "m \<in> set (subtrees c)" by auto
    with Element.IH [of c] show ?thesis by auto
  qed
next
  case (Text t)
  then show ?case by simp
qed

lemma subtree_ids_in_document:
  assumes "i \<in> set (subtree_ids d b)"
  shows "i \<in> nid ` set (doc_elements d)"
proof -
  from assms obtain n where "first (filter (has_id b) (concat (map subtrees d))) = Some n"
    and i: "i \<in> nid ` set (elements n)"
    by (cases "first (filter (has_id b) (concat (map subtrees d)))")
      (auto simp: subtree_ids_def)
  then have "n \<in> set (concat (map subtrees d))" by (auto dest: first_filter_SomeD)
  then obtain m where "m \<in> set d" and "n \<in> set (subtrees m)" by auto
  with elements_subtrees [of n m] have "set (elements n) \<subseteq> set (doc_elements d)"
    by (auto simp: doc_elements_def)
  with i show ?thesis by auto
qed

lemma subtree_ids_lookup: "i \<in> set (subtree_ids d b) \<Longrightarrow> lookup d i \<noteq> None"
  by (simp add: lookup_None_iff subtree_ids_in_document)

text \<open>An element of the document is in its own subtree.\<close>

lemma subtrees_root: "e \<in> set (elements n) \<Longrightarrow> \<exists>cs. Element e cs \<in> set (subtrees n)"
proof (induction n)
  case (Element e' cs)
  show ?case
  proof (cases "e = e'")
    case True
    then show ?thesis by auto
  next
    case False
    with Element.prems obtain c where "c \<in> set cs" and "e \<in> set (elements c)" by auto
    with Element.IH [of c] show ?thesis by auto
  qed
next
  case (Text t)
  then show ?case by simp
qed

lemma subtree_ids_self:
  assumes "lookup d b \<noteq> None"
  shows "b \<in> set (subtree_ids d b)"
proof -
  from assms obtain e where "e \<in> set (doc_elements d)" and "nid e = b"
    by (auto simp: lookup_None_iff)
  then obtain n where "n \<in> set d" and "e \<in> set (elements n)"
    by (auto simp: doc_elements_def)
  with subtrees_root [of e n] obtain cs where "Element e cs \<in> set (concat (map subtrees d))"
    by auto
  moreover from \<open>nid e = b\<close> have "has_id b (Element e cs)" by (simp add: has_id_def)
  ultimately have "filter (has_id b) (concat (map subtrees d)) \<noteq> []"
    unfolding filter_empty_conv by blast
  then obtain n' where n: "first (filter (has_id b) (concat (map subtrees d))) = Some n'"
    by (cases "filter (has_id b) (concat (map subtrees d))") auto
  then have "has_id b n'" by (auto dest: first_filter_SomeD)
  then obtain e' cs' where "n' = Element e' cs'" and "nid e' = b"
    by (cases n') (auto simp: has_id_def)
  with n show ?thesis by (simp add: subtree_ids_def)
qed

end
