(* ===== verification/Selector.thy ===== *)
theory Selector
  imports Dom
begin

text \<open>
  The fragment of CSS selectors the script uses, and the two query functions of
  the DOM. A selector here is one compound selector: a list of simple selectors
  (a type selector, a class selector, an attribute selector with \<^verbatim>\<open>=\<close> or \<^verbatim>\<open>*=\<close>)
  that an element matches when it matches each of them. There are no
  combinators and no selector lists, since the script's three selectors have none.

  Matching is case-sensitive: the model keeps element and attribute names in
  lower case, as the HTML parser delivers them, and none of the attributes the
  script tests (\<^verbatim>\<open>href\<close>, \<^verbatim>\<open>role\<close>, \<^verbatim>\<open>name\<close>) is among those HTML compares without
  case; class names are compared as in a document that is not in quirks mode.

  \<open>querySelectorAll\<close> returns the matching elements in document order;
  \<open>querySelector\<close> searches the same order and stops at the first match.
\<close>

section \<open>Selectors and matching\<close>

datatype simple_selector =
    Tag string
  | HasClass string
  | AttrEquals string string
  | AttrContains string string

type_synonym selector = "simple_selector list"

fun matches_simple :: "elem \<Rightarrow> simple_selector \<Rightarrow> bool" where
  "matches_simple e (Tag t) \<longleftrightarrow> tag e = t"
| "matches_simple e (HasClass c) \<longleftrightarrow> c \<in> set (classList e)"
| "matches_simple e (AttrEquals n v) \<longleftrightarrow> getAttribute e n = Some v"
| "matches_simple e (AttrContains n v) \<longleftrightarrow>
     (case getAttribute e n of None \<Rightarrow> False | Some w \<Rightarrow> v \<noteq> [] \<and> sublist v w)"

definition matches :: "selector \<Rightarrow> elem \<Rightarrow> bool" where
  "matches sel e \<longleftrightarrow> list_all (matches_simple e) sel"

section \<open>The query functions\<close>

definition querySelectorAll :: "selector \<Rightarrow> document \<Rightarrow> elem list" where
  "querySelectorAll sel d = filter (matches sel) (doc_elements d)"

definition querySelector :: "selector \<Rightarrow> document \<Rightarrow> elem option" where
  "querySelector sel d = List.find (matches sel) (doc_elements d)"

section \<open>Matching\<close>

lemma matches_Nil [simp]: "matches [] e"
  by (simp add: matches_def)

lemma matches_Cons [simp]: "matches (s # sel) e \<longleftrightarrow> matches_simple e s \<and> matches sel e"
  by (simp add: matches_def)

lemma matches_append: "matches (sel @ sel') e \<longleftrightarrow> matches sel e \<and> matches sel' e"
  by (simp add: matches_def)

text \<open>
  An attribute selector never matches an element that lacks the attribute, and
  \<^verbatim>\<open>*=\<close> with an empty string matches nothing.
\<close>

lemma AttrContains_needs_attribute:
  "getAttribute e n = None \<Longrightarrow> \<not> matches_simple e (AttrContains n v)"
  by simp

lemma AttrContains_empty: "\<not> matches_simple e (AttrContains n [])"
  by (simp split: option.split)

lemma AttrContains_iff:
  "matches_simple e (AttrContains n v) \<longleftrightarrow>
     v \<noteq> [] \<and> (\<exists>pre post. getAttribute e n = Some (pre @ v @ post))"
  by (auto simp: sublist_def split: option.splits)

lemma HasClass_iff:
  "matches_simple e (HasClass c) \<longleftrightarrow> (\<exists>v. getAttribute e ''class'' = Some v \<and> c \<in> set (split_ws v))"
  by (cases "getAttribute e ''class''") (simp_all add: classList_def)

text \<open>A class selector can only name a token: non-empty and free of whitespace.\<close>

lemma HasClass_token:
  assumes "matches_simple e (HasClass c)"
  shows "c \<noteq> [] \<and> ws_free c"
proof -
  from assms obtain v where "c \<in> set (split_ws v)"
    unfolding HasClass_iff by blast
  then show ?thesis by (rule split_ws_tokens)
qed

section \<open>Query results\<close>

lemma querySelector_first: "querySelector sel d = first (querySelectorAll sel d)"
  by (simp add: querySelector_def querySelectorAll_def first_filter_find)

lemma set_querySelectorAll:
  "set (querySelectorAll sel d) = {e \<in> set (doc_elements d). matches sel e}"
  by (simp add: querySelectorAll_def)

lemma querySelectorAll_Nil_iff:
  "querySelectorAll sel d = [] \<longleftrightarrow> (\<forall>e \<in> set (doc_elements d). \<not> matches sel e)"
  by (simp add: querySelectorAll_def filter_empty_conv)

lemma querySelectorAll_subseq: "subseq (querySelectorAll sel d) (doc_elements d)"
  by (simp add: querySelectorAll_def)

lemma querySelectorAll_append:
  "querySelectorAll sel (d @ d') = querySelectorAll sel d @ querySelectorAll sel d'"
  by (simp add: querySelectorAll_def)

lemma querySelectorAll_distinct_ids:
  "wf_document d \<Longrightarrow> distinct (map nid (querySelectorAll sel d))"
  by (simp add: wf_document_def querySelectorAll_def distinct_map_filter)

lemma querySelector_None_iff:
  "querySelector sel d = None \<longleftrightarrow> (\<forall>e \<in> set (doc_elements d). \<not> matches sel e)"
  by (auto simp: querySelector_def find_None_iff)

lemma querySelector_SomeD:
  "querySelector sel d = Some e \<Longrightarrow> e \<in> set (doc_elements d) \<and> matches sel e"
  by (auto simp: querySelector_first querySelectorAll_def dest: first_filter_SomeD)

text \<open>
  The element \<open>querySelector\<close> returns is the first match in document order:
  every element before it fails the selector.
\<close>

lemma querySelector_Some_iff:
  "querySelector sel d = Some e \<longleftrightarrow>
     (\<exists>pre post. doc_elements d = pre @ e # post \<and> matches sel e
        \<and> (\<forall>x \<in> set pre. \<not> matches sel x))"
  by (simp add: querySelector_first querySelectorAll_def first_filter_Some_iff)

lemma querySelector_lookup:
  "wf_document d \<Longrightarrow> querySelector sel d = Some e \<Longrightarrow> lookup d (nid e) = Some e"
  by (auto dest: querySelector_SomeD intro: lookup_wf)

section \<open>The two queries against each other\<close>

text \<open>
  \<open>querySelector\<close>, which stops at the first match, returns the head of
  what \<open>querySelectorAll\<close> collects, and null exactly when that list is empty.
\<close>

theorem querySelector_head_of_all:
  "querySelector sel d = (case querySelectorAll sel d of [] \<Rightarrow> None | e # rest \<Rightarrow> Some e)"
  by (simp add: querySelector_first first_def)

text \<open>
  In a well-formed document, the elements \<open>querySelectorAll\<close> returns are
  exactly the matching elements, in document order, each once.
\<close>

theorem querySelectorAll_in_document_order:
  assumes "wf_document d"
  shows "subseq (querySelectorAll sel d) (doc_elements d)
     \<and> set (querySelectorAll sel d) = {e \<in> set (doc_elements d). matches sel e}
     \<and> distinct (map nid (querySelectorAll sel d))"
  using assms by (simp add: querySelectorAll_subseq set_querySelectorAll querySelectorAll_distinct_ids)

end
