(* ===== verification/Mutation.thy ===== *)
theory Mutation
  imports Dom "HOL-Library.Multiset"
begin

text \<open>
  What the page does to its own document, as far as the script can notice it:
  a child is inserted under an element or removed from it (the two changes a
  \<^verbatim>\<open>childList\<close> mutation record reports), an attribute is set, the text of a
  text node is replaced, or layout gives an element a new height and
  focusability. Each change addresses its element by identity; a change that
  addresses no element of the document does nothing. Text nodes have no
  identity of their own: a change of text addresses the parent element and the
  position of the text node among its children.

  \<open>record_of\<close> is the mutation record the DOM creates for a change, if any:
  layout creates none, which is why a field that becomes visible through style
  alone is not reported to a mutation observer. A removal at a position where
  there is no child, and a new text at a position where there is no text node,
  are not \<open>effective\<close>: they change nothing and create no record.

  The last sections show that a change keeps a well-formed document well
  formed when the nodes it inserts are fresh (\<open>apply_mutation_wf\<close>).
\<close>

section \<open>Changes and the records they create\<close>

datatype mutation =
    InsertChild nat nat node
  | RemoveChild nat nat
  | SetAttribute nat string string
  | SetText nat nat string
  | Relayout nat nat bool

datatype mutation_type = ChildList | Attributes | CharacterData

record mutation_record =
  mtype :: mutation_type
  target :: nat

section \<open>Changing the element with a given identity\<close>

fun update_at :: "nat \<Rightarrow> (elem \<Rightarrow> node list \<Rightarrow> node) \<Rightarrow> node \<Rightarrow> node" where
  "update_at i f (Element e cs) =
     (if nid e = i then f e (map (update_at i f) cs) else Element e (map (update_at i f) cs))"
| "update_at i f (Text t) = Text t"

definition insert_at :: "nat \<Rightarrow> 'a \<Rightarrow> 'a list \<Rightarrow> 'a list" where
  "insert_at k x xs = take k xs @ x # drop k xs"

definition remove_at :: "nat \<Rightarrow> 'a list \<Rightarrow> 'a list" where
  "remove_at k xs = take k xs @ drop (Suc k) xs"

definition set_attr :: "string \<Rightarrow> string \<Rightarrow> (string \<times> string) list \<Rightarrow> (string \<times> string) list" where
  "set_attr n v al = (if n \<in> fst ` set al then map (\<lambda>(k, w). if k = n then (k, v) else (k, w)) al
                      else al @ [(n, v)])"

definition set_text :: "nat \<Rightarrow> string \<Rightarrow> node list \<Rightarrow> node list" where
  "set_text k t cs =
     (if k < length cs then (case cs ! k of Text u \<Rightarrow> cs[k := Text t] | Element e es \<Rightarrow> cs)
      else cs)"

fun change :: "mutation \<Rightarrow> elem \<Rightarrow> node list \<Rightarrow> node" where
  "change (InsertChild p k n) e cs = Element e (insert_at k n cs)"
| "change (RemoveChild p k) e cs = Element e (remove_at k cs)"
| "change (SetAttribute i n v) e cs = Element (e\<lparr>attrs := set_attr n v (attrs e)\<rparr>) cs"
| "change (SetText p k t) e cs = Element e (set_text k t cs)"
| "change (Relayout i h b) e cs = Element (e\<lparr>offsetHeight := h, focusable := b\<rparr>) cs"

fun subject :: "mutation \<Rightarrow> nat" where
  "subject (InsertChild p k n) = p"
| "subject (RemoveChild p k) = p"
| "subject (SetAttribute i n v) = i"
| "subject (SetText p k t) = p"
| "subject (Relayout i h b) = i"

definition apply_mutation :: "mutation \<Rightarrow> document \<Rightarrow> document" where
  "apply_mutation m d = map (update_at (subject m) (change m)) d"

fun record_type :: "mutation \<Rightarrow> mutation_type option" where
  "record_type (InsertChild p k n) = Some ChildList"
| "record_type (RemoveChild p k) = Some ChildList"
| "record_type (SetAttribute i n v) = Some Attributes"
| "record_type (SetText p k t) = Some CharacterData"
| "record_type (Relayout i h b) = None"

definition child_nodes :: "document \<Rightarrow> nat \<Rightarrow> node list" where
  "child_nodes d p =
     (case first (filter (has_id p) (concat (map subtrees d))) of
        None \<Rightarrow> []
      | Some n \<Rightarrow> children_of n)"

fun effective :: "mutation \<Rightarrow> document \<Rightarrow> bool" where
  "effective (RemoveChild p k) d \<longleftrightarrow> k < length (child_nodes d p)"
| "effective (SetText p k t) d \<longleftrightarrow>
     k < length (child_nodes d p) \<and> (case child_nodes d p ! k of Text u \<Rightarrow> True | Element e es \<Rightarrow> False)"
| "effective m d \<longleftrightarrow> True"

definition record_of :: "mutation \<Rightarrow> document \<Rightarrow> mutation_record option" where
  "record_of m d =
     (case (record_type m, lookup d (subject m)) of
        (Some ty, Some e) \<Rightarrow> if effective m d then Some \<lparr>mtype = ty, target = subject m\<rparr> else None
      | _ \<Rightarrow> None)"

text \<open>
  The identities a change brings into the document, and when it keeps a
  well-formed document well formed: what it inserts is itself well formed and
  shares no identity with the document.
\<close>

fun inserted :: "mutation \<Rightarrow> elem list" where
  "inserted (InsertChild p k n) = elements n"
| "inserted m = []"

definition fresh_for :: "mutation \<Rightarrow> document \<Rightarrow> bool" where
  "fresh_for m d \<longleftrightarrow>
     distinct (map nid (inserted m)) \<and> nid ` set (inserted m) \<inter> nid ` set (doc_elements d) = {}"

section \<open>A change that addresses no element\<close>

lemma update_at_absent: "i \<notin> nid ` set (elements n) \<Longrightarrow> update_at i f n = n"
  by (induction n) (auto intro: map_idI)

lemma apply_mutation_absent:
  "subject m \<notin> nid ` set (doc_elements d) \<Longrightarrow> apply_mutation m d = d"
  by (auto simp: apply_mutation_def doc_elements_def intro!: map_idI update_at_absent)

lemma record_of_absent: "subject m \<notin> nid ` set (doc_elements d) \<Longrightarrow> record_of m d = None"
  by (simp add: record_of_def lookup_None_iff [THEN iffD2] split: option.split)

lemma record_of_SomeD:
  assumes "record_of m d = Some r"
  shows "target r = subject m \<and> record_type m = Some (mtype r)
    \<and> target r \<in> nid ` set (doc_elements d)"
proof -
  from assms obtain ty e where ty: "record_type m = Some ty"
    and e: "lookup d (subject m) = Some e" and r: "r = \<lparr>mtype = ty, target = subject m\<rparr>"
    by (auto simp: record_of_def split: option.splits if_splits)
  from e have "e \<in> set (doc_elements d)" and "nid e = subject m"
    by (auto dest: lookup_SomeD)
  then have "subject m \<in> nid ` set (doc_elements d)" by force
  with ty r show ?thesis by simp
qed

lemma record_of_Relayout [simp]: "record_of (Relayout i h b) d = None"
  by (simp add: record_of_def)

lemma record_of_childList:
  "lookup d p \<noteq> None \<Longrightarrow> record_type m = Some ChildList \<Longrightarrow> subject m = p \<Longrightarrow>
     effective m d \<Longrightarrow> record_of m d = Some \<lparr>mtype = ChildList, target = p\<rparr>"
  by (auto simp: record_of_def)

lemma record_of_InsertChild:
  "lookup d p \<noteq> None \<Longrightarrow> record_of (InsertChild p k n) d = Some \<lparr>mtype = ChildList, target = p\<rparr>"
  by (simp add: record_of_childList)

lemma record_of_silent: "record_type m = None \<Longrightarrow> record_of m d = None"
  by (simp add: record_of_def)

section \<open>A change that is not effective\<close>

text \<open>
  In a well-formed document an identity names one element, and \<open>child_nodes\<close>
  are its children. A change that is not effective leaves such a document as
  it is: the changes that create no record for that reason are the ones that
  change nothing.
\<close>

lemma root_of_subtrees: "map root_of (subtrees n) = map Some (elements n)"
  by (induction n) (simp_all add: map_concat comp_def cong: map_cong)

lemma root_of_doc_subtrees: "map root_of (concat (map subtrees d)) = map Some (doc_elements d)"
  by (simp add: doc_elements_def map_concat comp_def root_of_subtrees)

lemma has_id_root: "has_id p n \<longleftrightarrow> map_option nid (root_of n) = Some p"
  by (cases n) (simp_all add: has_id_def)

lemma child_nodes_wf:
  assumes "wf_document d" and "Element e cs \<in> set (concat (map subtrees d))"
  shows "child_nodes d (nid e) = cs"
proof -
  let ?f = "map_option nid \<circ> root_of"
  have "map ?f (concat (map subtrees d)) = map (map_option nid) (map Some (doc_elements d))"
    by (simp only: root_of_doc_subtrees [symmetric] map_map)
  also have "\<dots> = map Some (map nid (doc_elements d))" by simp
  finally have "map ?f (concat (map subtrees d)) = map Some (map nid (doc_elements d))" .
  moreover from assms(1) have "distinct (map Some (map nid (doc_elements d)))"
    unfolding wf_document_def by (subst distinct_map) simp
  ultimately have "distinct (map ?f (concat (map subtrees d)))" by (simp only:)
  from distinct_map_filter_eq [OF this assms(2)]
  have "filter (has_id (nid e)) (concat (map subtrees d)) = [Element e cs]"
    by (simp add: has_id_root [abs_def])
  then show ?thesis by (simp add: child_nodes_def)
qed

lemma update_at_same:
  assumes "\<And>e cs. Element e cs \<in> set (subtrees n) \<Longrightarrow> nid e = i \<Longrightarrow> f e cs = Element e cs"
  shows "update_at i f n = n"
  using assms
proof (induction n)
  case (Element e cs)
  have "update_at i f c = c" if "c \<in> set cs" for c
    using that by (intro Element.IH Element.prems) auto
  then have "map (update_at i f) cs = cs" by (simp add: map_idI)
  with Element.prems [of e cs] show ?case by simp
next
  case (Text t)
  show ?case by simp
qed

lemma ineffective_unchanged:
  assumes "wf_document d" and "\<not> effective m d"
  shows "apply_mutation m d = d"
  unfolding apply_mutation_def
proof (intro map_idI update_at_same)
  fix n e cs
  assume "n \<in> set d" and "Element e cs \<in> set (subtrees n)" and "nid e = subject m"
  with assms(1) have "child_nodes d (subject m) = cs"
    using child_nodes_wf [of d e cs] by auto
  with assms(2) show "change m e cs = Element e cs"
    by (cases m) (auto simp: remove_at_def set_text_def split: node.splits)
qed

section \<open>The identities of the changed document\<close>

lemma doc_elements_insert_at:
  "mset (doc_elements (insert_at k n cs)) = mset (elements n) + mset (doc_elements cs)"
proof -
  have "mset (doc_elements (take k cs @ drop k cs)) = mset (doc_elements cs)"
    by simp
  then show ?thesis
    unfolding insert_at_def doc_elements_append doc_elements_Cons by simp
qed

lemma doc_elements_remove_at: "mset (doc_elements (remove_at k cs)) \<subseteq># mset (doc_elements cs)"
proof -
  have "mset (doc_elements (take k cs @ drop (Suc k) cs)) \<subseteq># mset (doc_elements (take k cs @ drop k cs))"
    by (cases "k < length cs") (simp_all add: Cons_nth_drop_Suc [symmetric])
  then show ?thesis
    by (simp add: remove_at_def)
qed

section \<open>Well-formedness is kept\<close>

text \<open>
  In a well-formed document a change finds at most one element, so the
  identities after the change are among those before it and those it brings.
\<close>

abbreviation ids :: "elem list \<Rightarrow> nat multiset" where
  "ids es \<equiv> image_mset nid (mset es)"

lemma ids_remove_at: "ids (doc_elements (remove_at k cs)) \<subseteq># ids (doc_elements cs)"
  using image_mset_subseteq_mono [OF doc_elements_remove_at, of nid k cs] by simp

lemma ids_insert_at: "ids (doc_elements (insert_at k n cs)) = ids (elements n) + ids (doc_elements cs)"
  using arg_cong [OF doc_elements_insert_at, of "image_mset nid" k n cs] by simp

lemma doc_elements_set_text [simp]: "doc_elements (set_text k t cs) = doc_elements cs"
proof (cases "k < length cs \<and> (\<exists>u. cs ! k = Text u)")
  case True
  then obtain u where k: "k < length cs" and u: "cs ! k = Text u" by auto
  from k have "doc_elements cs = doc_elements (take k cs @ cs ! k # drop (Suc k) cs)"
    by (simp only: id_take_nth_drop [symmetric])
  also have "\<dots> = doc_elements (take k cs @ Text t # drop (Suc k) cs)"
    by (simp add: u doc_elements_append doc_elements_Cons)
  also from k u have "take k cs @ Text t # drop (Suc k) cs = set_text k t cs"
    by (simp add: set_text_def upd_conv_take_nth_drop)
  finally show ?thesis by simp
next
  case False
  then show ?thesis by (auto simp: set_text_def split: node.split)
qed

lemma change_ids:
  "ids (elements (change m e cs)) \<subseteq># ids (elements (Element e cs)) + ids (inserted m)"
  by (cases m)
    (simp_all add: ids_insert_at [unfolded doc_elements_def] ids_remove_at [unfolded doc_elements_def]
      doc_elements_set_text [unfolded doc_elements_def])

lemma update_children_ids:
  assumes "\<And>c. c \<in> set cs \<Longrightarrow> distinct (map nid (elements c)) \<Longrightarrow>
      ids (elements (update_at i f c)) \<subseteq># ids (elements c) + X"
    and "distinct (map nid (doc_elements cs))"
  shows "ids (doc_elements (map (update_at i f) cs)) \<subseteq># ids (doc_elements cs) + X"
  using assms
proof (induction cs)
  case Nil
  show ?case by simp
next
  case (Cons c cs)
  from Cons.prems(2) have dc: "distinct (map nid (elements c))"
    and dcs: "distinct (map nid (doc_elements cs))"
    and disj: "nid ` set (elements c) \<inter> nid ` set (doc_elements cs) = {}"
    by auto
  show ?case
  proof (cases "i \<in> nid ` set (elements c)")
    case True
    with disj have "i \<notin> nid ` set (doc_elements cs)" by auto
    then have "map (update_at i f) cs = cs"
      by (auto simp: doc_elements_def intro!: map_idI update_at_absent)
    moreover from Cons.prems(1) [of c] dc
    have "ids (elements (update_at i f c)) \<subseteq># ids (elements c) + X" by simp
    ultimately show ?thesis by (simp add: subset_mset.add_mono ac_simps)
  next
    case False
    then have "update_at i f c = c" by (rule update_at_absent)
    moreover from Cons.IH Cons.prems(1) dcs
    have "ids (doc_elements (map (update_at i f) cs)) \<subseteq># ids (doc_elements cs) + X" by simp
    ultimately show ?thesis by (simp add: ac_simps)
  qed
qed

lemma update_at_ids:
  "distinct (map nid (elements n)) \<Longrightarrow>
     ids (elements (update_at (subject m) (change m) n)) \<subseteq># ids (elements n) + ids (inserted m)"
proof (induction n)
  case (Element e cs)
  from Element.prems have dcs: "distinct (map nid (doc_elements cs))"
    and e: "nid e \<notin> nid ` set (doc_elements cs)"
    by (auto simp: doc_elements_def)
  show ?case
  proof (cases "nid e = subject m")
    case True
    with e have "map (update_at (subject m) (change m)) cs = cs"
      by (auto simp: doc_elements_def intro!: map_idI update_at_absent)
    with True change_ids [of m e cs] show ?thesis by simp
  next
    case False
    from update_children_ids [of cs "subject m" "change m" "ids (inserted m)", OF Element.IH dcs]
    have "ids (doc_elements (map (update_at (subject m) (change m)) cs))
        \<subseteq># ids (doc_elements cs) + ids (inserted m)"
      by simp
    with False show ?thesis by (simp add: doc_elements_def)
  qed
next
  case (Text t)
  show ?case by simp
qed

lemma apply_mutation_ids:
  assumes "wf_document d"
  shows "ids (doc_elements (apply_mutation m d)) \<subseteq># ids (doc_elements d) + ids (inserted m)"
  unfolding apply_mutation_def
  using assms by (intro update_children_ids update_at_ids) (simp_all add: wf_document_def)

lemma distinct_count_le_1: "distinct xs \<longleftrightarrow> (\<forall>a. count (mset xs) a \<le> 1)"
proof
  assume "distinct xs"
  then show "\<forall>a. count (mset xs) a \<le> 1" by (simp add: distinct_count_atmost_1)
next
  assume le: "\<forall>a. count (mset xs) a \<le> 1"
  show "distinct xs"
    unfolding distinct_count_atmost_1
  proof (intro allI)
    fix a
    from le have "count (mset xs) a \<le> 1" ..
    moreover have "count (mset xs) a = 0 \<longleftrightarrow> a \<notin> set xs" by simp
    ultimately show "count (mset xs) a = (if a \<in> set xs then 1 else 0)"
      by (cases "a \<in> set xs") (simp_all add: le_Suc_eq)
  qed
qed

lemma distinct_subseteq_mset:
  assumes "mset ys \<subseteq># mset xs" and "distinct xs"
  shows "distinct ys"
  unfolding distinct_count_le_1
proof
  fix a
  from assms(1) have "count (mset ys) a \<le> count (mset xs) a" by (rule mset_subset_eq_count)
  also from assms(2) have "\<dots> \<le> 1" by (simp add: distinct_count_le_1)
  finally show "count (mset ys) a \<le> 1" .
qed

lemma apply_mutation_wf:
  assumes "wf_document d" and "fresh_for m d"
  shows "wf_document (apply_mutation m d)"
proof -
  from assms have "distinct (map nid (doc_elements d) @ map nid (inserted m))"
    by (auto simp: wf_document_def fresh_for_def)
  moreover from apply_mutation_ids [OF assms(1), of m]
  have "mset (map nid (doc_elements (apply_mutation m d)))
      \<subseteq># mset (map nid (doc_elements d) @ map nid (inserted m))"
    by simp
  ultimately show ?thesis
    unfolding wf_document_def by (rule distinct_subseteq_mset [rotated])
qed

text \<open>A batch of changes, each fresh for the document it meets.\<close>

fun fresh_changes :: "mutation list \<Rightarrow> document \<Rightarrow> bool" where
  "fresh_changes [] d = True"
| "fresh_changes (m # ms) d = (fresh_for m d \<and> fresh_changes ms (apply_mutation m d))"

lemma fold_apply_mutation_wf:
  "wf_document d \<Longrightarrow> fresh_changes ms d \<Longrightarrow> wf_document (fold apply_mutation ms d)"
  by (induction ms arbitrary: d) (simp_all add: apply_mutation_wf)

lemma fresh_for_no_insert [simp]:
  "fresh_for (RemoveChild p k) d" "fresh_for (SetAttribute i n v) d"
  "fresh_for (SetText p k t) d" "fresh_for (Relayout i h b) d"
  by (simp_all add: fresh_for_def)

end
