(* ===== verification/Observer.thy ===== *)
theory Observer
  imports Mutation
begin

text \<open>
  Mutation observers as the DOM standard describes them, reduced to what the
  script uses. An observer holds the nodes it is registered on, each with its
  options, and a queue of records not yet delivered; it is connected while it
  is registered on some node. The observers of a page are a list, and an
  observer's identity is its position: observers are created at the end and
  never removed, only disconnected.

  \<open>interested\<close> is the standard's test for queueing a record: the observer is
  registered, with options that ask for this type of record, on the record's
  target or, with \<^verbatim>\<open>subtree\<close>, on one of the target's ancestors. The target of
  a character-data record is a text node, which the record names by its parent
  element: only a registration with \<^verbatim>\<open>subtree\<close>, on the parent or above, reaches
  it.
\<close>

section \<open>Observers\<close>

record observe_options =
  childList :: bool
  attributes :: bool
  characterData :: bool
  subtree :: bool

record observer =
  registered :: "(nat \<times> observe_options) list"
  queue :: "mutation_record list"

definition idle :: observer where
  "idle = \<lparr>registered = [], queue = []\<rparr>"

definition connected :: "observer \<Rightarrow> bool" where
  "connected ob \<longleftrightarrow> registered ob \<noteq> []"

fun wants :: "observe_options \<Rightarrow> mutation_type \<Rightarrow> bool" where
  "wants opts ChildList = childList opts"
| "wants opts Attributes = attributes opts"
| "wants opts CharacterData = characterData opts"

definition valid_options :: "observe_options \<Rightarrow> bool" where
  "valid_options opts \<longleftrightarrow> childList opts \<or> attributes opts \<or> characterData opts"

section \<open>Registration\<close>

text \<open>
  Observing a node the observer already observes replaces the options;
  observing a new node adds a registration.
\<close>

definition register :: "nat \<Rightarrow> observe_options \<Rightarrow> observer \<Rightarrow> observer" where
  "register t opts ob =
     ob\<lparr>registered :=
          (if t \<in> fst ` set (registered ob)
           then map (\<lambda>(u, o'). if u = t then (u, opts) else (u, o')) (registered ob)
           else registered ob @ [(t, opts)])\<rparr>"

definition modify_nth :: "nat \<Rightarrow> ('a \<Rightarrow> 'a) \<Rightarrow> 'a list \<Rightarrow> 'a list" where
  "modify_nth i f xs = (if i < length xs then xs[i := f (xs ! i)] else xs)"

section \<open>Queueing a record\<close>

definition interested :: "document \<Rightarrow> mutation_record \<Rightarrow> observer \<Rightarrow> bool" where
  "interested d r ob \<longleftrightarrow>
     list_ex (\<lambda>(t, opts). wants opts (mtype r)
                \<and> (mtype r \<noteq> CharacterData \<and> t = target r
                    \<or> subtree opts \<and> target r \<in> set (subtree_ids d t)))
       (registered ob)"

definition enqueue :: "document \<Rightarrow> mutation_record \<Rightarrow> observer list \<Rightarrow> observer list" where
  "enqueue d r obs = map (\<lambda>ob. if interested d r ob then ob\<lparr>queue := queue ob @ [r]\<rparr> else ob) obs"

section \<open>Facts\<close>

lemma connected_idle [simp]: "\<not> connected idle"
  by (simp add: connected_def idle_def)

lemma queue_idle [simp]: "queue idle = []"
  by (simp add: idle_def)

lemma registered_idle [simp]: "registered idle = []"
  by (simp add: idle_def)

lemma connected_register [simp]: "connected (register t opts ob)"
  by (auto simp: connected_def register_def)

lemma queue_register [simp]: "queue (register t opts ob) = queue ob"
  by (simp add: register_def)

lemma register_idle [simp]: "registered (register t opts idle) = [(t, opts)]"
  by (simp add: register_def idle_def)

lemma length_modify_nth [simp]: "length (modify_nth i f xs) = length xs"
  by (simp add: modify_nth_def)

lemma nth_modify_nth:
  "j < length xs \<Longrightarrow> modify_nth i f xs ! j = (if j = i then f (xs ! j) else xs ! j)"
  by (simp add: modify_nth_def nth_list_update)

lemma modify_nth_beyond [simp]: "length xs \<le> i \<Longrightarrow> modify_nth i f xs = xs"
  by (simp add: modify_nth_def)

lemma modify_nth_append_last [simp]:
  "i = length xs \<Longrightarrow> modify_nth i f (xs @ [x]) = xs @ [f x]"
  by (simp add: modify_nth_def)

text \<open>A disconnected observer is interested in nothing, so nothing is queued for it.\<close>

lemma not_interested_disconnected: "\<not> connected ob \<Longrightarrow> \<not> interested d r ob"
  by (simp add: connected_def interested_def)

lemma length_enqueue [simp]: "length (enqueue d r obs) = length obs"
  by (simp add: enqueue_def)

lemma registered_enqueue [simp]:
  "i < length obs \<Longrightarrow> registered (enqueue d r obs ! i) = registered (obs ! i)"
  by (simp add: enqueue_def)

lemma connected_enqueue [simp]:
  "i < length obs \<Longrightarrow> connected (enqueue d r obs ! i) = connected (obs ! i)"
  by (simp add: connected_def)

lemma queue_enqueue:
  "i < length obs \<Longrightarrow>
     queue (enqueue d r obs ! i) = (if interested d r (obs ! i) then queue (obs ! i) @ [r] else queue (obs ! i))"
  by (simp add: enqueue_def)

lemma enqueue_simps [simp]:
  "enqueue d r [] = []"
  "enqueue d r (ob # obs)
     = (if interested d r ob then ob\<lparr>queue := queue ob @ [r]\<rparr> else ob) # enqueue d r obs"
  by (simp_all add: enqueue_def)

lemma enqueue_append [simp]: "enqueue d r (obs @ obs') = enqueue d r obs @ enqueue d r obs'"
  by (simp add: enqueue_def)

text \<open>A change of text reaches only registrations that ask for it with \<^verbatim>\<open>subtree\<close>.\<close>

lemma characterData_needs_subtree:
  "mtype r = CharacterData \<Longrightarrow> interested d r ob \<Longrightarrow>
     list_ex (\<lambda>(t, opts). characterData opts \<and> subtree opts) (registered ob)"
  by (auto simp: interested_def list_ex_iff)

text \<open>
  An observer whose registrations all ask for child-list records only is
  never queued a record of another type.
\<close>

definition childList_only :: "observer \<Rightarrow> bool" where
  "childList_only ob \<longleftrightarrow>
     list_all (\<lambda>(t, opts). \<not> attributes opts \<and> \<not> characterData opts) (registered ob)"

lemma interested_childList_only:
  "childList_only ob \<Longrightarrow> interested d r ob \<Longrightarrow> mtype r = ChildList"
  by (cases "mtype r")
    (auto simp: childList_only_def interested_def list_ex_iff list_all_iff)

end
