(* ===== verification/Page.thy ===== *)
theory Page
  imports Selector Observer
begin

text \<open>
  The state of one page as the script sees and changes it, and the DOM calls
  the script makes, each as a function on that state.

  \<^item> \<open>doc\<close> is the document; \<open>activeElement\<close> the identity of the focused element.
  \<^item> \<open>observers\<close> are the mutation observers the script has created.
  \<^item> \<open>actions\<close> is the log of the calls \<^verbatim>\<open>click()\<close> and \<^verbatim>\<open>focus()\<close> the script has
    made, oldest first: the script's observable behaviour.
  \<^item> \<open>listeners\<close> is the page's own code: the changes its event listeners make to
    the document when an element is clicked or receives focus. They run inside
    the call, before it returns, which is why their changes come before
    whatever the script does next.

  A call that the browser rejects is a \<open>Throw\<close> with the state reached so far;
  everything else is \<open>Normal\<close>.
\<close>

section \<open>State\<close>

datatype action = Click nat | Focus nat

datatype js_error = TypeError

datatype 'a completion = Normal 'a | Throw js_error 'a

fun state_of :: "'a completion \<Rightarrow> 'a" where
  "state_of (Normal s) = s"
| "state_of (Throw e s) = s"

fun thrown :: "'a completion \<Rightarrow> js_error option" where
  "thrown (Normal s) = None"
| "thrown (Throw e s) = Some e"

record page =
  doc :: document
  activeElement :: "nat option"
  observers :: "observer list"
  actions :: "action list"
  listeners :: "action \<Rightarrow> document \<Rightarrow> mutation list"

section \<open>Changes to the document\<close>

text \<open>
  One change: the record it creates is queued for the observers interested in
  it (judged on the document before the change, where the target still has
  its ancestors), the document changes, and focus is lost if the focused
  element is no longer in the document.
\<close>

definition keep_focus :: "document \<Rightarrow> nat option \<Rightarrow> nat option" where
  "keep_focus d a = (case a of None \<Rightarrow> None
                     | Some i \<Rightarrow> if lookup d i = None then None else Some i)"

definition mutate :: "mutation \<Rightarrow> page \<Rightarrow> page" where
  "mutate m s =
     (let d' = apply_mutation m (doc s) in
      s\<lparr>doc := d',
        activeElement := keep_focus d' (activeElement s),
        observers := (case record_of m (doc s) of
                        None \<Rightarrow> observers s
                      | Some r \<Rightarrow> enqueue (doc s) r (observers s))\<rparr>)"

definition run_listeners :: "action \<Rightarrow> page \<Rightarrow> page" where
  "run_listeners a s = fold mutate (listeners s a (doc s)) s"

section \<open>The calls the script makes\<close>

text \<open>
  \<^verbatim>\<open>click()\<close> does nothing on a disabled form control; on any other element it
  fires a click event, and the page's listeners run.
\<close>

definition disabled_control :: "elem \<Rightarrow> bool" where
  "disabled_control e \<longleftrightarrow>
     tag e \<in> set [''button'', ''input'', ''select'', ''textarea''] \<and> getAttribute e ''disabled'' \<noteq> None"

definition click :: "elem \<Rightarrow> page \<Rightarrow> page" where
  "click e s =
     (let s1 = s\<lparr>actions := actions s @ [Click (nid e)]\<rparr> in
      if disabled_control e then s1 else run_listeners (Click (nid e)) s1)"

text \<open>
  \<^verbatim>\<open>focus()\<close> moves focus to a focusable element that does not have it, and
  then the page's focus listeners run; otherwise nothing changes.
\<close>

definition focus :: "elem \<Rightarrow> page \<Rightarrow> page" where
  "focus e s =
     (let s1 = s\<lparr>actions := actions s @ [Focus (nid e)]\<rparr> in
      if focusable e \<and> activeElement s \<noteq> Some (nid e)
      then run_listeners (Focus (nid e)) (s1\<lparr>activeElement := Some (nid e)\<rparr>)
      else s1)"

text \<open>
  \<^verbatim>\<open>new MutationObserver(callback)\<close> creates an observer that observes nothing;
  the result is its identity. \<^verbatim>\<open>observe\<close> throws a \<^verbatim>\<open>TypeError\<close> when the target is
  null or the options ask for no type of record. \<^verbatim>\<open>disconnect\<close> drops the
  registrations and the records not yet delivered.
\<close>

definition new_MutationObserver :: "page \<Rightarrow> nat \<times> page" where
  "new_MutationObserver s = (length (observers s), s\<lparr>observers := observers s @ [idle]\<rparr>)"

definition observe :: "nat \<Rightarrow> elem option \<Rightarrow> observe_options \<Rightarrow> page \<Rightarrow> page completion" where
  "observe oid tgt opts s =
     (case tgt of
        None \<Rightarrow> Throw TypeError s
      | Some t \<Rightarrow>
          if \<not> valid_options opts then Throw TypeError s
          else Normal (s\<lparr>observers := modify_nth oid (register (nid t) opts) (observers s)\<rparr>))"

definition disconnect :: "nat \<Rightarrow> page \<Rightarrow> page" where
  "disconnect oid s = s\<lparr>observers := modify_nth oid (\<lambda>ob. idle) (observers s)\<rparr>"

lemma mutate_eval:
  "mutate m s =
     s\<lparr>doc := apply_mutation m (doc s),
       activeElement := keep_focus (apply_mutation m (doc s)) (activeElement s),
       observers := (case record_of m (doc s) of
                       None \<Rightarrow> observers s
                     | Some r \<Rightarrow> enqueue (doc s) r (observers s))\<rparr>"
  by (simp add: mutate_def Let_def)

section \<open>What a change leaves alone\<close>

lemma mutate_frame [simp, frame]:
  "actions (mutate m s) = actions s"
  "listeners (mutate m s) = listeners s"
  "length (observers (mutate m s)) = length (observers s)"
  "doc (mutate m s) = apply_mutation m (doc s)"
  by (simp_all add: mutate_def Let_def split: option.split)

lemma mutate_registered [simp, frame]:
  "i < length (observers s) \<Longrightarrow>
     registered (observers (mutate m s) ! i) = registered (observers s ! i)"
  by (simp add: mutate_def Let_def split: option.split)

lemma fold_mutate_frame [simp, frame]:
  "actions (fold mutate ms s) = actions s"
  "listeners (fold mutate ms s) = listeners s"
  "length (observers (fold mutate ms s)) = length (observers s)"
  "doc (fold mutate ms s) = fold apply_mutation ms (doc s)"
  by (induction ms arbitrary: s) simp_all

lemma fold_mutate_registered [simp, frame]:
  "i < length (observers s) \<Longrightarrow>
     registered (observers (fold mutate ms s) ! i) = registered (observers s ! i)"
  by (induction ms arbitrary: s) simp_all

lemma run_listeners_frame [simp, frame]:
  "actions (run_listeners a s) = actions s"
  "listeners (run_listeners a s) = listeners s"
  "length (observers (run_listeners a s)) = length (observers s)"
  "doc (run_listeners a s) = fold apply_mutation (listeners s a (doc s)) (doc s)"
  by (simp_all add: run_listeners_def)

lemma run_listeners_registered [simp, frame]:
  "i < length (observers s) \<Longrightarrow>
     registered (observers (run_listeners a s) ! i) = registered (observers s ! i)"
  by (simp add: run_listeners_def)

lemma run_listeners_quiet: "listeners s a (doc s) = [] \<Longrightarrow> run_listeners a s = s"
  by (simp add: run_listeners_def)

section \<open>The calls, field by field\<close>

lemma click_actions [simp, frame]: "actions (click e s) = actions s @ [Click (nid e)]"
  by (simp add: click_def Let_def)

lemma click_frame [simp, frame]:
  "listeners (click e s) = listeners s"
  "length (observers (click e s)) = length (observers s)"
  by (simp_all add: click_def Let_def)

lemma click_registered [simp, frame]:
  "i < length (observers s) \<Longrightarrow>
     registered (observers (click e s) ! i) = registered (observers s ! i)"
  by (simp add: click_def Let_def)

lemma click_doc:
  "doc (click e s) =
     (if disabled_control e then doc s else fold apply_mutation (listeners s (Click (nid e)) (doc s)) (doc s))"
  by (simp add: click_def Let_def)

lemma focus_actions [simp, frame]: "actions (focus e s) = actions s @ [Focus (nid e)]"
  by (simp add: focus_def Let_def)

lemma focus_frame [simp, frame]:
  "listeners (focus e s) = listeners s"
  "length (observers (focus e s)) = length (observers s)"
  by (simp_all add: focus_def Let_def)

lemma focus_registered [simp, frame]:
  "i < length (observers s) \<Longrightarrow>
     registered (observers (focus e s) ! i) = registered (observers s ! i)"
  by (simp add: focus_def Let_def)

lemma disconnect_frame [simp, frame]:
  "doc (disconnect oid s) = doc s"
  "activeElement (disconnect oid s) = activeElement s"
  "actions (disconnect oid s) = actions s"
  "listeners (disconnect oid s) = listeners s"
  "length (observers (disconnect oid s)) = length (observers s)"
  by (simp_all add: disconnect_def)

lemma disconnect_nth:
  "i < length (observers s) \<Longrightarrow>
     observers (disconnect oid s) ! i = (if i = oid then idle else observers s ! i)"
  by (simp add: disconnect_def nth_modify_nth)

lemma new_MutationObserver_fresh:
  "new_MutationObserver s = (oid, s') \<Longrightarrow>
     oid = length (observers s) \<and> observers s' = observers s @ [idle] \<and> doc s' = doc s
       \<and> actions s' = actions s \<and> activeElement s' = activeElement s \<and> listeners s' = listeners s"
  by (auto simp: new_MutationObserver_def)

lemma observe_null [simp]: "observe oid None opts s = Throw TypeError s"
  by (simp add: observe_def)

lemma observe_Some:
  "valid_options opts \<Longrightarrow>
     observe oid (Some t) opts s =
       Normal (s\<lparr>observers := modify_nth oid (register (nid t) opts) (observers s)\<rparr>)"
  by (simp add: observe_def)

end
