(* ===== verification/Fixtures.thy ===== *)
theory Fixtures
  imports Page
begin

text \<open>
  Concrete pages on which the theorems of the development are instantiated:
  the three pages of the sign-on flow the script drives (the portal with its
  login link, the account picker with its tiles and a password field that is
  not shown yet, the same page once the field is shown), a page without a
  body, and a page whose password field has a height but cannot take focus.
  All of them evaluate by simplification with \<open>fixture_defs\<close>.
\<close>

named_theorems fixture_defs \<open>the example pages, unfolded\<close>

abbreviation hidden :: "nat \<Rightarrow> string \<Rightarrow> (string \<times> string) list \<Rightarrow> elem" where
  "hidden i t al \<equiv> \<lparr>nid = i, tag = t, attrs = al, offsetHeight = 0, focusable = False\<rparr>"

abbreviation shown :: "nat \<Rightarrow> string \<Rightarrow> (string \<times> string) list \<Rightarrow> nat \<Rightarrow> elem" where
  "shown i t al h \<equiv> \<lparr>nid = i, tag = t, attrs = al, offsetHeight = h, focusable = True\<rparr>"

definition quiet :: "action \<Rightarrow> document \<Rightarrow> mutation list" where
  "quiet a d = []"

definition page_of :: "document \<Rightarrow> page" where
  "page_of d = \<lparr>doc = d, activeElement = None, observers = [], actions = [], listeners = quiet\<rparr>"

text \<open>The portal: two links, the second of which is the sign-on link.\<close>

definition help_link :: elem where
  "help_link = shown 4 ''a'' [(''href'', ''/help.php'')] 18"

definition login_link :: elem where
  "login_link = shown 5 ''a'' [(''href'', ''https://lms.example.ac.jp/auth/saml2/login.php?wants=1'')] 18"

definition portal_doc :: document where
  "portal_doc =
     [Text ''<!DOCTYPE html>'',
      Element (shown 1 ''html'' [] 600)
        [Element (hidden 2 ''head'' []) [],
         Element (shown 3 ''body'' [] 600)
           [Element help_link [Text ''Help''],
            Element login_link [Text ''Log in'']]]]"

text \<open>The account picker: two tiles and a password field of height zero.\<close>

definition tile_a :: elem where
  "tile_a = shown 4 ''div'' [(''class'', ''table row''), (''role'', ''button'')] 48"

definition tile_b :: elem where
  "tile_b = shown 5 ''div'' [(''role'', ''button''), (''class'', ''table'')] 48"

definition passwd_hidden :: elem where
  "passwd_hidden = hidden 6 ''input'' [(''name'', ''passwd''), (''type'', ''password'')]"

definition passwd_shown :: elem where
  "passwd_shown = shown 6 ''input'' [(''name'', ''passwd''), (''type'', ''password'')] 36"

definition picker_body :: "elem \<Rightarrow> node" where
  "picker_body field =
     Element (shown 3 ''body'' [] 600)
       [Element tile_a [Text ''alice@example.ac.jp''],
        Element tile_b [Text ''Use another account''],
        Element field []]"

definition picker_doc :: document where
  "picker_doc = [Element (shown 1 ''html'' [] 600) [Element (hidden 2 ''head'' []) [], picker_body passwd_hidden]]"

definition password_doc :: document where
  "password_doc = [Element (shown 1 ''html'' [] 600) [Element (hidden 2 ''head'' []) [], picker_body passwd_shown]]"

text \<open>
  The picker with a password field that has a height but cannot take focus, as
  a field hidden by \<^verbatim>\<open>visibility: hidden\<close> is.
\<close>

definition passwd_veiled :: elem where
  "passwd_veiled =
     \<lparr>nid = 6, tag = ''input'', attrs = [(''name'', ''passwd''), (''type'', ''password'')],
      offsetHeight = 36, focusable = False\<rparr>"

definition veiled_doc :: document where
  "veiled_doc = [Element (shown 1 ''html'' [] 600) [Element (hidden 2 ''head'' []) [], picker_body passwd_veiled]]"

text \<open>A document whose root is not \<^verbatim>\<open>html\<close>, so that it has no body, with one tile.\<close>

definition bodiless_doc :: document where
  "bodiless_doc = [Element (shown 1 ''svg'' [] 600) [Element tile_a []]]"

lemmas [fixture_defs] = quiet_def page_of_def help_link_def login_link_def portal_doc_def
  tile_a_def tile_b_def passwd_hidden_def passwd_shown_def picker_body_def picker_doc_def
  password_doc_def bodiless_doc_def passwd_veiled_def veiled_doc_def

lemma portal_doc_elements:
  "doc_elements portal_doc =
     [shown 1 ''html'' [] 600, hidden 2 ''head'' [], shown 3 ''body'' [] 600, help_link, login_link]"
  by (simp add: portal_doc_def)

lemma picker_doc_elements:
  "doc_elements picker_doc =
     [shown 1 ''html'' [] 600, hidden 2 ''head'' [], shown 3 ''body'' [] 600, tile_a, tile_b, passwd_hidden]"
  by (simp add: picker_doc_def picker_body_def)

lemma password_doc_elements:
  "doc_elements password_doc =
     [shown 1 ''html'' [] 600, hidden 2 ''head'' [], shown 3 ''body'' [] 600, tile_a, tile_b, passwd_shown]"
  by (simp add: password_doc_def picker_body_def)

lemma veiled_doc_elements:
  "doc_elements veiled_doc =
     [shown 1 ''html'' [] 600, hidden 2 ''head'' [], shown 3 ''body'' [] 600, tile_a, tile_b, passwd_veiled]"
  by (simp add: veiled_doc_def picker_body_def)

lemma bodiless_doc_elements: "doc_elements bodiless_doc = [shown 1 ''svg'' [] 600, tile_a]"
  by (simp add: bodiless_doc_def)

lemma fixture_wf:
  "wf_document portal_doc" "wf_document picker_doc" "wf_document password_doc"
  "wf_document bodiless_doc"
  by (simp_all add: wf_document_def portal_doc_elements picker_doc_elements
      password_doc_elements bodiless_doc_elements fixture_defs)

lemma fixture_body:
  "body portal_doc = Some (shown 3 ''body'' [] 600)"
  "body picker_doc = Some (shown 3 ''body'' [] 600)"
  "body password_doc = Some (shown 3 ''body'' [] 600)"
  "body bodiless_doc = None"
  by (simp_all add: body_def documentElement_def is_body_def fixture_defs)

end
