(* ===== verification/Selector_Syntax.thy ===== *)
theory Selector_Syntax
  imports Selector
begin

text \<open>
  The selectors of the script as the source writes them, as strings, and the
  reading of such a string: an optional type name followed by class selectors
  \<^verbatim>\<open>.name\<close> and attribute selectors \<^verbatim>\<open>[name="value"]\<close> and \<^verbatim>\<open>[name*="value"]\<close>.
  \<open>parse_selector\<close> is \<open>None\<close> on everything else, where the browser throws a
  \<^verbatim>\<open>SyntaxError\<close> or the selector is outside the fragment modelled here.
\<close>

section \<open>Reading a selector\<close>

definition dquote :: char where
  "dquote = CHR 0x22"

definition ident_char :: "char \<Rightarrow> bool" where
  "ident_char c \<longleftrightarrow>
     c \<in> set ''abcdefghijklmnopqrstuvwxyzABCDEFGHIJKLMNOPQRSTUVWXYZ0123456789-_''"

definition ident :: "string \<Rightarrow> bool" where
  "ident s \<longleftrightarrow> s \<noteq> [] \<and> list_all ident_char s"

definition plain_value :: "string \<Rightarrow> bool" where
  "plain_value v \<longleftrightarrow> list_all (\<lambda>c. c \<noteq> dquote) v"

text \<open>
  An attribute selector after its name: the operator, the quoted value and
  the closing bracket; the result is the selector and the rest of the input.
\<close>

definition quoted :: "string \<Rightarrow> (string \<times> string) option" where
  "quoted s =
     (case s of
        [] \<Rightarrow> None
      | c # r \<Rightarrow>
          if c \<noteq> dquote then None
          else (case dropWhile (\<lambda>c. c \<noteq> dquote) r of
                  [] \<Rightarrow> None
                | q # r' \<Rightarrow> Some (takeWhile (\<lambda>c. c \<noteq> dquote) r, r')))"

definition attr_selector :: "string \<Rightarrow> (simple_selector \<times> string) option" where
  "attr_selector s =
     (let n = takeWhile ident_char s; r = dropWhile ident_char s in
      if n = [] then None
      else (case r of
              CHR ''='' # r1 \<Rightarrow>
                (case quoted r1 of
                   Some (v, CHR '']'' # r2) \<Rightarrow> Some (AttrEquals n v, r2)
                 | _ \<Rightarrow> None)
            | CHR ''*'' # CHR ''='' # r1 \<Rightarrow>
                (case quoted r1 of
                   Some (v, CHR '']'' # r2) \<Rightarrow> Some (AttrContains n v, r2)
                 | _ \<Rightarrow> None)
            | _ \<Rightarrow> None))"

lemma quoted_shorter: "quoted s = Some (v, r) \<Longrightarrow> length r < length s"
proof -
  assume q: "quoted s = Some (v, r)"
  then obtain c t where s: "s = c # t" by (cases s) (auto simp: quoted_def)
  with q obtain x where "dropWhile (\<lambda>c. c \<noteq> dquote) t = x # r"
    by (auto simp: quoted_def split: if_splits list.splits)
  moreover have "length (dropWhile (\<lambda>c. c \<noteq> dquote) t) \<le> length t"
    by (rule length_dropWhile_le)
  ultimately show ?thesis using s by simp
qed

lemma attr_selector_shorter: "attr_selector s = Some (x, r) \<Longrightarrow> length r < length s"
proof -
  assume a: "attr_selector s = Some (x, r)"
  have le: "length (dropWhile ident_char s) \<le> length s" by (rule length_dropWhile_le)
  from a obtain r1 v c where "quoted r1 = Some (v, c # r)" and "length r1 < length (dropWhile ident_char s)"
    by (auto simp: attr_selector_def Let_def split: if_splits list.splits char.splits bool.splits option.splits prod.splits)
  with quoted_shorter [of r1 v "c # r"] le show ?thesis by simp
qed

function parse_parts :: "string \<Rightarrow> selector option" where
  "parse_parts [] = Some []"
| "parse_parts (c # s) =
     (if c = CHR ''.'' then
        (if takeWhile ident_char s = [] then None
         else map_option ((#) (HasClass (takeWhile ident_char s))) (parse_parts (dropWhile ident_char s)))
      else if c = CHR ''['' then
        (case attr_selector s of
           None \<Rightarrow> None
         | Some (x, r) \<Rightarrow> map_option ((#) x) (parse_parts r))
      else None)"
  by pat_completeness auto
termination
  by (relation "measure length")
    (auto simp: less_Suc_eq_le length_dropWhile_le dest: attr_selector_shorter less_imp_le)

definition parse_selector :: "string \<Rightarrow> selector option" where
  "parse_selector s =
     (if s = [] then None
      else if takeWhile ident_char s = [] then parse_parts s
      else map_option ((#) (Tag (takeWhile ident_char s))) (parse_parts (dropWhile ident_char s)))"

section \<open>Writing a selector\<close>

fun print_simple :: "simple_selector \<Rightarrow> string" where
  "print_simple (Tag n) = n"
| "print_simple (HasClass c) = CHR ''.'' # c"
| "print_simple (AttrEquals n v) = CHR ''['' # n @ CHR ''='' # dquote # v @ [dquote, CHR '']'']"
| "print_simple (AttrContains n v) = CHR ''['' # n @ CHR ''*'' # CHR ''='' # dquote # v @ [dquote, CHR '']'']"

definition print_selector :: "selector \<Rightarrow> string" where
  "print_selector sel = concat (map print_simple sel)"

text \<open>
  The selectors that can be written: names are identifiers, values hold no
  quote, and a type name comes first if at all.
\<close>

fun part_ok :: "simple_selector \<Rightarrow> bool" where
  "part_ok (Tag n) = False"
| "part_ok (HasClass c) = ident c"
| "part_ok (AttrEquals n v) = (ident n \<and> plain_value v)"
| "part_ok (AttrContains n v) = (ident n \<and> plain_value v)"

fun printable :: "selector \<Rightarrow> bool" where
  "printable [] = False"
| "printable (Tag n # ps) = (ident n \<and> list_all part_ok ps)"
| "printable (p # ps) = list_all part_ok (p # ps)"

section \<open>Reading what was written\<close>

definition boundary :: "string \<Rightarrow> bool" where
  "boundary s \<longleftrightarrow> (case s of [] \<Rightarrow> True | c # r \<Rightarrow> \<not> ident_char c)"

lemma boundary_simps [simp]:
  "boundary []"
  "boundary (c # r) \<longleftrightarrow> \<not> ident_char c"
  by (simp_all add: boundary_def)

lemma takeWhile_ident: "list_all ident_char n \<Longrightarrow> boundary r \<Longrightarrow> takeWhile ident_char (n @ r) = n"
  by (cases r) (simp_all add: list_all_iff takeWhile_tail)

lemma dropWhile_ident: "list_all ident_char n \<Longrightarrow> boundary r \<Longrightarrow> dropWhile ident_char (n @ r) = r"
  by (cases r) (simp_all add: list_all_iff dropWhile_append2)

lemma not_ident_char [simp]:
  "\<not> ident_char CHR ''.''" "\<not> ident_char CHR ''[''" "\<not> ident_char CHR '']''"
  "\<not> ident_char CHR ''=''" "\<not> ident_char CHR ''*''" "\<not> ident_char dquote"
  by (simp_all add: ident_char_def dquote_def)

lemma quoted_value:
  "plain_value v \<Longrightarrow> quoted (dquote # v @ dquote # r) = Some (v, r)"
  by (simp add: quoted_def plain_value_def list_all_iff takeWhile_tail dropWhile_append2)

lemma attr_selector_equals:
  "ident n \<Longrightarrow> plain_value v \<Longrightarrow>
     attr_selector (n @ CHR ''='' # dquote # v @ dquote # CHR '']'' # r) = Some (AttrEquals n v, r)"
  by (simp add: attr_selector_def ident_def takeWhile_ident dropWhile_ident quoted_value)

lemma attr_selector_contains:
  "ident n \<Longrightarrow> plain_value v \<Longrightarrow>
     attr_selector (n @ CHR ''*'' # CHR ''='' # dquote # v @ dquote # CHR '']'' # r)
       = Some (AttrContains n v, r)"
  by (simp add: attr_selector_def ident_def takeWhile_ident dropWhile_ident quoted_value)

lemma boundary_print_simple: "part_ok p \<Longrightarrow> boundary (print_simple p @ r)"
  by (cases p) simp_all

lemma boundary_print_parts: "list_all part_ok ps \<Longrightarrow> boundary (concat (map print_simple ps))"
  by (cases ps) (simp_all add: boundary_print_simple)

lemma parse_parts_print_simple:
  "part_ok p \<Longrightarrow> boundary r \<Longrightarrow>
     parse_parts (print_simple p @ r) = map_option ((#) p) (parse_parts r)"
  by (cases p)
    (simp_all add: ident_def takeWhile_ident dropWhile_ident attr_selector_equals
      attr_selector_contains)

lemma parse_parts_print: "list_all part_ok ps \<Longrightarrow> parse_parts (concat (map print_simple ps)) = Some ps"
  by (induction ps) (simp_all add: parse_parts_print_simple boundary_print_parts)

lemma print_simple_not_Nil: "part_ok p \<Longrightarrow> print_simple p \<noteq> []"
  by (cases p) simp_all

text \<open>
  Round trip. A selector of the fragment, written as a string and read
  again, is the selector: names that are identifiers, values without a quote,
  a type name first if at all.
\<close>

theorem parse_selector_print: "printable sel \<Longrightarrow> parse_selector (print_selector sel) = Some sel"
proof (cases sel)
  case Nil
  assume "printable sel"
  with Nil show ?thesis by simp
next
  case (Cons p ps)
  assume ok: "printable sel"
  show ?thesis
  proof (cases p)
    case (Tag n)
    with ok Cons have n: "ident n" and ps: "list_all part_ok ps" by simp_all
    from ps have b: "boundary (concat (map print_simple ps))" by (rule boundary_print_parts)
    from n b ps Cons Tag show ?thesis
      by (simp add: parse_selector_def print_selector_def ident_def takeWhile_ident
          dropWhile_ident parse_parts_print)
  next
    case (HasClass c)
    with ok Cons have "list_all part_ok (p # ps)" by simp
    from parse_parts_print [OF this] HasClass Cons show ?thesis
      by (simp add: parse_selector_def print_selector_def)
  next
    case (AttrEquals n v)
    with ok Cons have "list_all part_ok (p # ps)" by simp
    from parse_parts_print [OF this] AttrEquals Cons show ?thesis
      by (simp add: parse_selector_def print_selector_def)
  next
    case (AttrContains n v)
    with ok Cons have "list_all part_ok (p # ps)" by simp
    from parse_parts_print [OF this] AttrContains Cons show ?thesis
      by (simp add: parse_selector_def print_selector_def)
  qed
qed

theorem parse_selector_print_witness:
  "parse_selector (print_selector [Tag ''div'', HasClass ''table'', AttrEquals ''role'' ''button''])
     = Some [Tag ''div'', HasClass ''table'', AttrEquals ''role'' ''button'']"
  by (rule parse_selector_print) code_simp

end
