(* ===== verification/Login.thy ===== *)
theory Login
  imports Fixtures Selector_Syntax
begin

text \<open>
  The script \<^verbatim>\<open>src/service/js/click_loginbutton.js\<close>, function by function, in
  the order of the file. Each function is a function on the page state; the
  two that can end in an exception return a completion.

  \<^item> The three selectors, as values (\<open>login_selector\<close>, \<open>tile_selector\<close>,
    \<open>passwd_selector\<close>) and as the strings of the source (\<open>login_selector_text\<close>
    and so on), which \<open>parse_selector\<close> reads as those values.
  \<^item> \<open>clickUniversityLoginButton\<close> (lines 1-5), with its selector \<open>login_selector\<close>.
  \<^item> \<open>clickUserSelectionTile\<close> (lines 7-17), with \<open>tile_selector\<close>.
  \<^item> \<open>waitForTextboxToAppear\<close> (lines 19-41): it creates the observer and
    registers it on \<^verbatim>\<open>document.body\<close> with \<open>watch_options\<close>. The callback it
    passes is \<open>observer_callback\<close> (lines 21-34), whose loop over the records is
    \<open>scan_mutations\<close> and whose visibility test is \<open>textbox_visible\<close>.
  \<^item> \<open>focusTextbox\<close> (lines 43-49).
  \<^item> \<open>api\<close> and \<open>call\<close>: the three functions the file attaches to \<^verbatim>\<open>window\<close>
    (lines 52-54), as the caller reaches them.
\<close>

section \<open>The selectors\<close>

definition login_selector :: selector where
  "login_selector = [Tag ''a'', AttrContains ''href'' ''auth/saml2/login.php'']"

definition tile_selector :: selector where
  "tile_selector = [Tag ''div'', HasClass ''table'', AttrEquals ''role'' ''button'']"

definition passwd_selector :: selector where
  "passwd_selector = [Tag ''input'', AttrEquals ''name'' ''passwd'']"

lemmas [sel_defs] = login_selector_def tile_selector_def passwd_selector_def

text \<open>The same selectors as the source writes them, as the arguments of the queries.\<close>

definition login_selector_text :: string where
  \<open>login_selector_text = ''a[href*="auth/saml2/login.php"]''\<close>

definition tile_selector_text :: string where
  \<open>tile_selector_text = ''div.table[role="button"]''\<close>

definition passwd_selector_text :: string where
  \<open>passwd_selector_text = ''input[name="passwd"]''\<close>

section \<open>The functions\<close>

definition clickUniversityLoginButton :: "page \<Rightarrow> page" where
  "clickUniversityLoginButton s =
     (case querySelector login_selector (doc s) of
        None \<Rightarrow> s
      | Some button \<Rightarrow> click button s)"

definition watch_options :: observe_options where
  "watch_options = \<lparr>childList = True, attributes = False, characterData = False, subtree = True\<rparr>"

definition textbox_visible :: "elem option \<Rightarrow> bool" where
  "textbox_visible textbox = (case textbox of None \<Rightarrow> False | Some t \<Rightarrow> offsetHeight t > 0)"

fun scan_mutations :: "mutation_record list \<Rightarrow> nat \<Rightarrow> page \<Rightarrow> page" where
  "scan_mutations [] observer s = s"
| "scan_mutations (mutation # mutationsList) observer s =
     (if mtype mutation = ChildList then
        (let textbox = querySelector passwd_selector (doc s) in
         if textbox_visible textbox then disconnect observer (focus (the textbox) s)
         else scan_mutations mutationsList observer s)
      else scan_mutations mutationsList observer s)"

definition observer_callback :: "mutation_record list \<Rightarrow> nat \<Rightarrow> page \<Rightarrow> page" where
  "observer_callback mutationsList observer s = scan_mutations mutationsList observer s"

definition waitForTextboxToAppear :: "page \<Rightarrow> page completion" where
  "waitForTextboxToAppear s =
     (let (observer, s1) = new_MutationObserver s in
      observe observer (body (doc s1)) watch_options s1)"

definition clickUserSelectionTile :: "page \<Rightarrow> page completion" where
  "clickUserSelectionTile s =
     (let buttons = querySelectorAll tile_selector (doc s) in
      if length buttons > 0 then
        (let firstButton = buttons ! 0 in
         waitForTextboxToAppear (click firstButton s))
      else Normal s)"

definition focusTextbox :: "page \<Rightarrow> page" where
  "focusTextbox s =
     (let passwordField = querySelector passwd_selector (doc s) in
      if passwordField \<noteq> None then focus (the passwordField) s else s)"

datatype api = ClickUniversityLoginButton | ClickUserSelectionTile | FocusTextbox

fun call :: "api \<Rightarrow> page \<Rightarrow> page completion" where
  "call ClickUniversityLoginButton s = Normal (clickUniversityLoginButton s)"
| "call ClickUserSelectionTile s = clickUserSelectionTile s"
| "call FocusTextbox s = Normal (focusTextbox s)"

text \<open>The three functions are all there is to call: \<open>api\<close> is a finite enumeration.\<close>

lemma UNIV_api: "UNIV = {ClickUniversityLoginButton, ClickUserSelectionTile, FocusTextbox}"
  using api.exhaust by auto

instantiation api :: enum
begin

definition enum_api :: "api list" where
  "enum_api = [ClickUniversityLoginButton, ClickUserSelectionTile, FocusTextbox]"

definition enum_all_api :: "(api \<Rightarrow> bool) \<Rightarrow> bool" where
  "enum_all_api P \<longleftrightarrow> P ClickUniversityLoginButton \<and> P ClickUserSelectionTile \<and> P FocusTextbox"

definition enum_ex_api :: "(api \<Rightarrow> bool) \<Rightarrow> bool" where
  "enum_ex_api P \<longleftrightarrow> P ClickUniversityLoginButton \<or> P ClickUserSelectionTile \<or> P FocusTextbox"

instance
proof
  show "UNIV = set (enum_class.enum :: api list)"
    by (simp add: UNIV_api enum_api_def)
  show "distinct (enum_class.enum :: api list)"
    by (simp add: enum_api_def)
  show "enum_class.enum_all P = Ball UNIV P" for P :: "api \<Rightarrow> bool"
    by (simp add: UNIV_api enum_all_api_def)
  show "enum_class.enum_ex P = Bex UNIV P" for P :: "api \<Rightarrow> bool"
    by (simp add: UNIV_api enum_ex_api_def)
qed

end

lemmas [login_defs] = clickUniversityLoginButton_def clickUserSelectionTile_def
  waitForTextboxToAppear_def focusTextbox_def observer_callback_def

section \<open>What the selectors match\<close>

lemma matches_login_selector:
  "matches login_selector e \<longleftrightarrow>
     tag e = ''a'' \<and> (\<exists>pre post. getAttribute e ''href'' = Some (pre @ ''auth/saml2/login.php'' @ post))"
  unfolding login_selector_def matches_Cons matches_Nil AttrContains_iff by simp

lemma matches_tile_selector:
  "matches tile_selector e \<longleftrightarrow>
     tag e = ''div'' \<and> ''table'' \<in> set (classList e) \<and> getAttribute e ''role'' = Some ''button''"
  by (simp add: tile_selector_def)

lemma matches_passwd_selector:
  "matches passwd_selector e \<longleftrightarrow> tag e = ''input'' \<and> getAttribute e ''name'' = Some ''passwd''"
  by (simp add: passwd_selector_def)

text \<open>
  The link and the tile are never disabled form controls, so \<^verbatim>\<open>click()\<close> on them
  always reaches the page's listeners.
\<close>

lemma login_link_clickable: "matches login_selector e \<Longrightarrow> \<not> disabled_control e"
  by (simp add: matches_login_selector disabled_control_def)

lemma tile_clickable: "matches tile_selector e \<Longrightarrow> \<not> disabled_control e"
  by (simp add: matches_tile_selector disabled_control_def)

lemma textbox_visible_simps [simp]:
  "textbox_visible None \<longleftrightarrow> False"
  "textbox_visible (Some t) \<longleftrightarrow> 0 < offsetHeight t"
  by (simp_all add: textbox_visible_def)

section \<open>The fixtures under the selectors\<close>

lemma fixture_matches [simp]:
  "\<not> matches login_selector help_link" "matches login_selector login_link"
  "matches tile_selector tile_a" "matches tile_selector tile_b"
  "matches passwd_selector passwd_hidden" "matches passwd_selector passwd_shown"
  by (simp_all add: sel_defs fixture_defs getAttribute_def classList_def split_ws_def ascii_ws_def)

lemma fixture_queries:
  "querySelector login_selector portal_doc = Some login_link"
  "querySelector login_selector picker_doc = None"
  "querySelectorAll tile_selector picker_doc = [tile_a, tile_b]"
  "querySelectorAll tile_selector portal_doc = []"
  "querySelectorAll tile_selector bodiless_doc = [tile_a]"
  "querySelector passwd_selector picker_doc = Some passwd_hidden"
  "querySelector passwd_selector password_doc = Some passwd_shown"
  "querySelector passwd_selector portal_doc = None"
  by (simp_all add: querySelector_def querySelectorAll_def portal_doc_elements
      picker_doc_elements password_doc_elements bodiless_doc_elements)
    (simp_all add: sel_defs fixture_defs getAttribute_def classList_def split_ws_def ascii_ws_def)

text \<open>The witness of the claim about \<open>querySelectorAll\<close>, on the account picker.\<close>

theorem querySelectorAll_in_document_order_witness:
  "subseq (querySelectorAll tile_selector picker_doc) (doc_elements picker_doc)
     \<and> set (querySelectorAll tile_selector picker_doc)
         = {e \<in> set (doc_elements picker_doc). matches tile_selector e}
     \<and> distinct (map nid (querySelectorAll tile_selector picker_doc))"
  by (rule querySelectorAll_in_document_order) (rule fixture_wf)

section \<open>The functions, case by case\<close>

lemma scan_mutations_closed:
  "scan_mutations ms oid s =
     (if list_ex (\<lambda>m. mtype m = ChildList) ms \<and> textbox_visible (querySelector passwd_selector (doc s))
      then disconnect oid (focus (the (querySelector passwd_selector (doc s))) s) else s)"
  by (induction ms) (simp_all add: Let_def)

lemmas observer_callback_eq = scan_mutations_closed [folded observer_callback_def]

lemma clickUniversityLoginButton_cases:
  "clickUniversityLoginButton s =
     (case first (querySelectorAll login_selector (doc s)) of None \<Rightarrow> s | Some a \<Rightarrow> click a s)"
  by (simp add: clickUniversityLoginButton_def querySelector_first)

lemma waitForTextboxToAppear_cases:
  "waitForTextboxToAppear s =
     (case body (doc s) of
        None \<Rightarrow> Throw TypeError (s\<lparr>observers := observers s @ [idle]\<rparr>)
      | Some b \<Rightarrow> Normal (s\<lparr>observers := observers s @ [register (nid b) watch_options idle]\<rparr>))"
  by (simp add: waitForTextboxToAppear_def new_MutationObserver_def observe_def
      watch_options_def valid_options_def split: option.split)

lemma clickUserSelectionTile_cases:
  "clickUserSelectionTile s =
     (case querySelectorAll tile_selector (doc s) of
        [] \<Rightarrow> Normal s
      | firstButton # rest \<Rightarrow> waitForTextboxToAppear (click firstButton s))"
  by (simp add: clickUserSelectionTile_def Let_def split: list.split)

lemma focusTextbox_cases:
  "focusTextbox s = (case querySelector passwd_selector (doc s) of None \<Rightarrow> s | Some t \<Rightarrow> focus t s)"
  by (simp add: focusTextbox_def Let_def split: option.split)

lemma watch_options_simps [simp]:
  "childList watch_options" "subtree watch_options"
  "\<not> attributes watch_options" "\<not> characterData watch_options"
  by (simp_all add: watch_options_def)

lemmas login_cases = clickUniversityLoginButton_cases clickUserSelectionTile_cases
  waitForTextboxToAppear_cases focusTextbox_cases observer_callback_eq

section \<open>The observer callback\<close>

text \<open>
  C1. The loop of the callback over the delivered records is equivalent to one
  test: the callback focuses the password field and disconnects its observer
  when the batch holds a child-list record and the field exists with a
  non-zero height, and otherwise leaves the page as it is. In particular a
  batch with several qualifying records acts once.
\<close>

theorem callback_closed_form:
  "observer_callback mutationsList oid s =
     (if list_ex (\<lambda>m. mtype m = ChildList) mutationsList
         \<and> textbox_visible (querySelector passwd_selector (doc s))
      then disconnect oid (focus (the (querySelector passwd_selector (doc s))) s)
      else s)"
  by (rule observer_callback_eq)

text \<open>
  C2. When the batch holds a child-list record and the first
  \<^verbatim>\<open>input[name="passwd"]\<close> of the document has a height above zero, the callback
  calls \<^verbatim>\<open>focus()\<close> on that element and then disconnects the observer.
\<close>

theorem callback_focuses_visible_textbox:
  assumes "m \<in> set mutationsList" and "mtype m = ChildList"
    and "querySelector passwd_selector (doc s) = Some t" and "0 < offsetHeight t"
  shows "observer_callback mutationsList oid s = disconnect oid (focus t s)"
proof -
  from assms(1,2) have "list_ex (\<lambda>m. mtype m = ChildList) mutationsList"
    by (auto simp: list_ex_iff)
  with assms(3,4) show ?thesis
    by (simp add: observer_callback_eq)
qed

theorem callback_focuses_visible_textbox_witness:
  "observer_callback [\<lparr>mtype = Attributes, target = 6\<rparr>, \<lparr>mtype = ChildList, target = 3\<rparr>] 0
       (page_of password_doc\<lparr>observers := [register 3 watch_options idle]\<rparr>)
     = disconnect 0 (focus passwd_shown (page_of password_doc\<lparr>observers := [register 3 watch_options idle]\<rparr>))"
  by (rule callback_focuses_visible_textbox [where m = "\<lparr>mtype = ChildList, target = 3\<rparr>"])
    (simp_all add: fixture_queries page_of_def, simp add: passwd_shown_def)

text \<open>
  C3. While the password field is missing or has height zero, the callback
  changes nothing, whatever records it is given: no focus call, and the
  observer stays registered.
\<close>

theorem callback_waits_while_hidden:
  assumes "\<And>t. querySelector passwd_selector (doc s) = Some t \<Longrightarrow> offsetHeight t = 0"
  shows "observer_callback mutationsList oid s = s"
  using assms
  by (cases "querySelector passwd_selector (doc s)") (simp_all add: observer_callback_eq)

theorem callback_waits_while_hidden_witness:
  "observer_callback [\<lparr>mtype = ChildList, target = 3\<rparr>] 0
       (page_of picker_doc\<lparr>observers := [register 3 watch_options idle]\<rparr>)
     = page_of picker_doc\<lparr>observers := [register 3 watch_options idle]\<rparr>"
  by (rule callback_waits_while_hidden)
    (simp add: fixture_queries page_of_def, simp add: passwd_hidden_def)

text \<open>
  C4. A batch without a child-list record changes nothing, even when the
  password field is visible: records of the other two types are skipped.
\<close>

theorem callback_ignores_other_records:
  assumes "\<not> list_ex (\<lambda>m. mtype m = ChildList) mutationsList"
  shows "observer_callback mutationsList oid s = s"
  using assms by (simp add: observer_callback_eq)

theorem callback_ignores_other_records_witness:
  "observer_callback [\<lparr>mtype = Attributes, target = 6\<rparr>, \<lparr>mtype = CharacterData, target = 6\<rparr>] 0
       (page_of password_doc) = page_of password_doc"
  by (rule callback_ignores_other_records) simp

text \<open>
  C5. One run of the callback makes at most one focus call, and only on the
  element the password selector finds.
\<close>

theorem callback_at_most_one_focus:
  "actions (observer_callback mutationsList oid s) = actions s
     \<or> (\<exists>t. querySelector passwd_selector (doc s) = Some t
          \<and> actions (observer_callback mutationsList oid s) = actions s @ [Focus (nid t)])"
  by (auto simp: observer_callback_eq textbox_visible_def split: option.splits)

text \<open>
  C6. After a run that focused the field (a child-list record in the batch,
  the field with a height), the observer the callback was called for, at its
  position in the list of the page's observers, observes nothing and holds no
  undelivered record.
\<close>

theorem callback_disconnects:
  assumes "list_ex (\<lambda>m. mtype m = ChildList) mutationsList"
    and "querySelector passwd_selector (doc s) = Some t" and "0 < offsetHeight t"
    and "oid < length (observers s)"
  shows "observers (observer_callback mutationsList oid s) ! oid = idle"
  using assms by (simp add: observer_callback_eq disconnect_nth)

theorem callback_disconnects_witness:
  "observers (observer_callback [\<lparr>mtype = ChildList, target = 3\<rparr>] 0
       (page_of password_doc\<lparr>observers := [register 3 watch_options idle]\<rparr>)) ! 0 = idle"
  by (rule callback_disconnects)
    (simp_all add: fixture_queries page_of_def, simp add: passwd_shown_def)

text \<open>
  C25. The height test can spend the watcher for nothing. If the field has a
  height but cannot take focus (hidden by \<^verbatim>\<open>visibility\<close>, or disabled), a
  child-list record makes the callback call \<^verbatim>\<open>focus()\<close> and disconnect: focus does
  not move, nothing else changes, and the observer is gone, so that the field
  is not focused when it becomes usable later.
\<close>

theorem callback_spent_on_unfocusable_field:
  assumes "list_ex (\<lambda>m. mtype m = ChildList) mutationsList"
    and "querySelector passwd_selector (doc s) = Some t"
    and "0 < offsetHeight t" and "\<not> focusable t"
  shows "observer_callback mutationsList oid s
    = disconnect oid (s\<lparr>actions := actions s @ [Focus (nid t)]\<rparr>)"
  using assms by (simp add: observer_callback_eq focus_def)

theorem callback_spent_on_unfocusable_field_witness:
  "observer_callback [\<lparr>mtype = ChildList, target = 3\<rparr>] 0
       (page_of veiled_doc\<lparr>observers := [register 3 watch_options idle]\<rparr>)
     = disconnect 0 ((page_of veiled_doc\<lparr>observers := [register 3 watch_options idle]\<rparr>)
         \<lparr>actions := actions (page_of veiled_doc\<lparr>observers := [register 3 watch_options idle]\<rparr>)
            @ [Focus (nid passwd_veiled)]\<rparr>)"
proof (rule callback_spent_on_unfocusable_field)
  show "querySelector passwd_selector
      (doc (page_of veiled_doc\<lparr>observers := [register 3 watch_options idle]\<rparr>)) = Some passwd_veiled"
    by (simp add: page_of_def querySelector_def veiled_doc_elements)
      (simp add: sel_defs fixture_defs getAttribute_def)
qed (simp_all add: passwd_veiled_def)

section \<open>clickUniversityLoginButton\<close>

text \<open>
  C26. On a document without an anchor whose \<^verbatim>\<open>href\<close> contains
  \<^verbatim>\<open>auth/saml2/login.php\<close>, \<open>clickUniversityLoginButton\<close> does nothing.
\<close>

theorem login_button_absent:
  assumes "\<forall>e \<in> set (doc_elements (doc s)). \<not> matches login_selector e"
  shows "clickUniversityLoginButton s = s"
  using assms by (simp add: clickUniversityLoginButton_def querySelector_None_iff [THEN iffD2])

theorem login_button_absent_witness:
  "clickUniversityLoginButton (page_of picker_doc) = page_of picker_doc"
  by (rule login_button_absent)
    (simp add: page_of_def picker_doc_elements sel_defs fixture_defs getAttribute_def)

text \<open>
  C27. Otherwise it clicks the first matching anchor in document order, once,
  and does nothing else: the result is that of one \<^verbatim>\<open>click()\<close> on that anchor,
  and the log grows by that one click, however many anchors match.
\<close>

theorem login_button_first_match:
  assumes "doc_elements (doc s) = pre @ a # post" and "matches login_selector a"
    and "\<forall>x \<in> set pre. \<not> matches login_selector x"
  shows "clickUniversityLoginButton s = click a s
    \<and> actions (clickUniversityLoginButton s) = actions s @ [Click (nid a)]"
proof -
  from assms have "querySelector login_selector (doc s) = Some a"
    unfolding querySelector_Some_iff by blast
  then show ?thesis by (simp add: clickUniversityLoginButton_def)
qed

theorem login_button_first_match_witness:
  "clickUniversityLoginButton (page_of portal_doc) = click login_link (page_of portal_doc)
    \<and> actions (clickUniversityLoginButton (page_of portal_doc))
        = actions (page_of portal_doc) @ [Click (nid login_link)]"
  by (rule login_button_first_match
      [where pre = "[shown 1 ''html'' [] 600, hidden 2 ''head'' [], shown 3 ''body'' [] 600, help_link]"
        and post = "[]"])
    (simp_all add: page_of_def portal_doc_elements, simp_all add: sel_defs)

text \<open>
  When a matching anchor exists, exactly one action is added to the log:
  the click on the anchor \<open>querySelector\<close> returns.
\<close>

theorem login_button_one_activation:
  assumes "querySelector login_selector (doc s) = Some a"
  shows "actions (clickUniversityLoginButton s) = actions s @ [Click (nid a)]"
  using assms by (simp add: clickUniversityLoginButton_def)

theorem login_button_one_activation_witness:
  "actions (clickUniversityLoginButton (page_of portal_doc)) = actions (page_of portal_doc) @ [Click (nid login_link)]"
  by (rule login_button_one_activation) (simp add: page_of_def fixture_queries)

section \<open>clickUserSelectionTile and waitForTextboxToAppear\<close>

text \<open>
  C28. On a document without an element \<^verbatim>\<open>div.table[role="button"]\<close>,
  \<open>clickUserSelectionTile\<close> returns normally and changes nothing: no click,
  no observer.
\<close>

theorem tile_absent:
  assumes "\<forall>e \<in> set (doc_elements (doc s)). \<not> matches tile_selector e"
  shows "clickUserSelectionTile s = Normal s"
  using assms by (simp add: clickUserSelectionTile_cases querySelectorAll_Nil_iff [THEN iffD2])

theorem tile_absent_witness:
  "clickUserSelectionTile (page_of portal_doc) = Normal (page_of portal_doc)"
  by (rule tile_absent)
    (simp add: page_of_def portal_doc_elements sel_defs fixture_defs getAttribute_def classList_def)

text \<open>
  C29. With one or more tiles, the only action is one click, on the first tile
  in document order, whether the call then returns or throws.
\<close>

theorem tile_first_in_document_order:
  assumes "doc_elements (doc s) = pre @ t # post" and "matches tile_selector t"
    and "\<forall>x \<in> set pre. \<not> matches tile_selector x"
  shows "actions (state_of (clickUserSelectionTile s)) = actions s @ [Click (nid t)]"
proof -
  from assms have "querySelectorAll tile_selector (doc s) = t # filter (matches tile_selector) post"
    by (simp add: querySelectorAll_def filter_empty_conv [THEN iffD2])
  then show ?thesis
    by (simp add: clickUserSelectionTile_cases waitForTextboxToAppear_cases split: option.split)
qed

theorem tile_first_in_document_order_witness:
  "actions (state_of (clickUserSelectionTile (page_of picker_doc)))
     = actions (page_of picker_doc) @ [Click (nid tile_a)]"
  by (rule tile_first_in_document_order
      [where pre = "[shown 1 ''html'' [] 600, hidden 2 ''head'' [], shown 3 ''body'' [] 600]"
        and post = "[tile_b, passwd_hidden]"])
    (simp_all add: page_of_def picker_doc_elements, simp_all add: sel_defs classList_def getAttribute_def)

text \<open>
  C30. When the document has a body after the click, the call returns normally
  with one new observer, registered on that body for child-list records in the
  whole subtree, with nothing queued.
\<close>

theorem tile_arms_watcher:
  assumes "querySelectorAll tile_selector (doc s) = t # ts"
    and "body (doc (click t s)) = Some b"
  shows "clickUserSelectionTile s =
     Normal (click t s\<lparr>observers := observers (click t s)
        @ [\<lparr>registered = [(nid b, watch_options)], queue = []\<rparr>]\<rparr>)"
  using assms
  by (simp add: clickUserSelectionTile_cases waitForTextboxToAppear_cases register_def idle_def)

theorem tile_arms_watcher_witness:
  "clickUserSelectionTile (page_of picker_doc) =
     Normal (click tile_a (page_of picker_doc)\<lparr>observers := observers (click tile_a (page_of picker_doc))
        @ [\<lparr>registered = [(nid (shown 3 ''body'' [] 600), watch_options)], queue = []\<rparr>]\<rparr>)"
  by (rule tile_arms_watcher [where ts = "[tile_b]"])
    (simp_all add: fixture_queries fixture_body page_of_def click_doc quiet_def)

text \<open>
  C31. When the document has no body after the click, \<^verbatim>\<open>observe\<close> is given null:
  the call throws a \<^verbatim>\<open>TypeError\<close> after the click has been made, and the observer
  it created observes nothing.
\<close>

theorem tile_without_body_throws:
  assumes "querySelectorAll tile_selector (doc s) = t # ts"
    and "body (doc (click t s)) = None"
  shows "clickUserSelectionTile s =
     Throw TypeError (click t s\<lparr>observers := observers (click t s) @ [idle]\<rparr>)"
  using assms by (simp add: clickUserSelectionTile_cases waitForTextboxToAppear_cases)

theorem tile_without_body_throws_witness:
  "clickUserSelectionTile (page_of bodiless_doc)
     = Throw TypeError (click tile_a (page_of bodiless_doc)\<lparr>observers :=
         observers (click tile_a (page_of bodiless_doc)) @ [idle]\<rparr>)"
  by (rule tile_without_body_throws [where ts = "[]"])
    (simp_all add: fixture_queries fixture_body page_of_def click_doc quiet_def)

text \<open>
  The observer is created after the click has returned, so whatever the
  page's click listeners changed is not reported to it: its queue is empty
  when \<open>clickUserSelectionTile\<close> ends.
\<close>

theorem watcher_starts_with_empty_queue:
  assumes "querySelectorAll tile_selector (doc s) = t # ts"
  shows "queue (last (observers (state_of (clickUserSelectionTile s)))) = []"
  using assms
  by (simp add: clickUserSelectionTile_cases waitForTextboxToAppear_cases split: option.split)

theorem watcher_starts_with_empty_queue_witness:
  "queue (last (observers (state_of (clickUserSelectionTile
     (page_of picker_doc\<lparr>listeners := (\<lambda>a d. [InsertChild 3 0 (Element passwd_shown [])])\<rparr>))))) = []"
  by (rule watcher_starts_with_empty_queue [where ts = "[tile_b]"])
    (simp add: fixture_queries page_of_def)

text \<open>
  Each call creates one observer when a tile exists and none otherwise;
  observers are never removed.
\<close>

theorem tile_adds_one_observer:
  "length (observers (state_of (clickUserSelectionTile s)))
     = length (observers s) + (if querySelectorAll tile_selector (doc s) = [] then 0 else 1)"
  by (simp add: clickUserSelectionTile_cases waitForTextboxToAppear_cases
      split: list.split option.split)

section \<open>focusTextbox\<close>

text \<open>
  C32. On a document without \<^verbatim>\<open>input[name="passwd"]\<close>, \<open>focusTextbox\<close> does
  nothing: no \<^verbatim>\<open>focus()\<close> call is made and the page is as before.
\<close>

theorem focusTextbox_absent:
  assumes "\<forall>e \<in> set (doc_elements (doc s)). \<not> matches passwd_selector e"
  shows "focusTextbox s = s"
  using assms by (simp add: focusTextbox_cases querySelector_None_iff [THEN iffD2])

theorem focusTextbox_absent_witness: "focusTextbox (page_of portal_doc) = page_of portal_doc"
  by (rule focusTextbox_absent)
    (simp add: page_of_def portal_doc_elements sel_defs fixture_defs getAttribute_def)

text \<open>
  C33. When the field exists, \<open>focusTextbox\<close> is one \<^verbatim>\<open>focus()\<close> call on it, made at
  once and whatever the field's height is. The field holds focus afterwards
  when it can take focus and the page's focus listeners leave the document
  alone; a field that cannot take focus leaves the focus where it was.
\<close>

theorem focusTextbox_calls_focus:
  assumes "querySelector passwd_selector (doc s) = Some t"
  shows "focusTextbox s = focus t s \<and> actions (focusTextbox s) = actions s @ [Focus (nid t)]
    \<and> (focusable t \<and> listeners s (Focus (nid t)) (doc s) = []
          \<longrightarrow> activeElement (focusTextbox s) = Some (nid t) \<and> doc (focusTextbox s) = doc s)
    \<and> (\<not> focusable t \<longrightarrow> activeElement (focusTextbox s) = activeElement s)"
  using assms by (simp add: focusTextbox_cases focus_def Let_def run_listeners_def)

theorem focusTextbox_calls_focus_witness:
  "focusTextbox (page_of password_doc) = focus passwd_shown (page_of password_doc)
     \<and> actions (focusTextbox (page_of password_doc))
         = actions (page_of password_doc) @ [Focus (nid passwd_shown)]
     \<and> activeElement (focusTextbox (page_of password_doc)) = Some (nid passwd_shown)
     \<and> doc (focusTextbox (page_of password_doc)) = doc (page_of password_doc)"
proof -
  have "querySelector passwd_selector (doc (page_of password_doc)) = Some passwd_shown"
    by (simp add: page_of_def fixture_queries)
  moreover have "focusable passwd_shown"
    and "listeners (page_of password_doc) (Focus (nid passwd_shown)) (doc (page_of password_doc)) = []"
    by (simp_all add: page_of_def quiet_def passwd_shown_def)
  ultimately show ?thesis using focusTextbox_calls_focus [of "page_of password_doc" passwd_shown]
    by blast
qed

text \<open>
  On a page whose focus listeners leave the document alone, a field that can
  take focus holds it after the call.
\<close>

lemma focusTextbox_moves_focus:
  assumes "querySelector passwd_selector (doc s) = Some t" and "focusable t"
    and "listeners s (Focus (nid t)) (doc s) = []"
  shows "activeElement (focusTextbox s) = Some (nid t) \<and> doc (focusTextbox s) = doc s"
  using assms by (simp add: focusTextbox_cases focus_def Let_def run_listeners_def)

text \<open>
  Calling \<open>focusTextbox\<close> while the field already holds focus only adds a
  redundant focus call to the log: focus, document and observers are unchanged.
\<close>

lemma focusTextbox_idempotent:
  assumes "querySelector passwd_selector (doc s) = Some t" and "activeElement s = Some (nid t)"
  shows "focusTextbox s = s\<lparr>actions := actions s @ [Focus (nid t)]\<rparr>"
  using assms by (simp add: focusTextbox_cases focus_def Let_def)

text \<open>
  C34. Two calls of \<open>focusTextbox\<close> in succession, on a page whose listener for
  focus on the password field makes no change to the document. Under this
  condition the second call finds the page as the first one left it and
  changes nothing but the log, which ends with two focus calls on the field;
  a field that can take focus holds it after both calls. The condition cannot
  be dropped: \<open>focusTextbox\<close> queries the document anew at every call, and
  \<open>focusTextbox_twice_decoy\<close> below is a page on which the second call focuses
  another element.
\<close>

theorem focusTextbox_twice:
  assumes "querySelector passwd_selector (doc s) = Some t"
    and "listeners s (Focus (nid t)) (doc s) = []"
  shows "focusTextbox (focusTextbox s)
      = (focusTextbox s)\<lparr>actions := actions s @ [Focus (nid t), Focus (nid t)]\<rparr>
    \<and> (focusable t \<longrightarrow> activeElement (focusTextbox (focusTextbox s)) = Some (nid t))"
proof (cases "focusable t \<and> activeElement s \<noteq> Some (nid t)")
  case True
  with assms have once: "focusTextbox s
      = s\<lparr>actions := actions s @ [Focus (nid t)], activeElement := Some (nid t)\<rparr>"
    by (simp add: focusTextbox_cases focus_def Let_def run_listeners_def)
  with assms(1) show ?thesis by (simp add: focusTextbox_idempotent)
next
  case False
  with assms(1) have once: "focusTextbox s = s\<lparr>actions := actions s @ [Focus (nid t)]\<rparr>"
    by (auto simp: focusTextbox_cases focus_def Let_def)
  with assms(1) False show ?thesis by (auto simp: focusTextbox_cases focus_def Let_def)
qed

theorem focusTextbox_twice_witness:
  "focusTextbox (focusTextbox (page_of password_doc))
      = (focusTextbox (page_of password_doc))\<lparr>actions :=
          actions (page_of password_doc) @ [Focus (nid passwd_shown), Focus (nid passwd_shown)]\<rparr>
    \<and> activeElement (focusTextbox (focusTextbox (page_of password_doc))) = Some (nid passwd_shown)"
proof -
  have "querySelector passwd_selector (doc (page_of password_doc)) = Some passwd_shown"
    and "listeners (page_of password_doc) (Focus (nid passwd_shown)) (doc (page_of password_doc)) = []"
    by (simp_all add: page_of_def fixture_queries quiet_def)
  moreover have "focusable passwd_shown" by (simp add: passwd_shown_def)
  ultimately show ?thesis using focusTextbox_twice [of "page_of password_doc" passwd_shown]
    by blast
qed

text \<open>
  A page whose focus listener answers the focus on the password field by
  inserting another \<^verbatim>\<open>input[name="passwd"]\<close> in front of it. The first call focuses
  the field, the second call the new element: two calls are not one call.
\<close>

definition decoy_on_focus :: "action \<Rightarrow> document \<Rightarrow> mutation list" where
  "decoy_on_focus a d =
     (case a of
        Focus i \<Rightarrow> if i = 6 then [InsertChild 3 0 (Element (shown 9 ''input'' [(''name'', ''passwd'')] 36) [])] else []
      | Click i \<Rightarrow> [])"

lemma focusTextbox_twice_decoy:
  "actions (focusTextbox (focusTextbox ((page_of password_doc)\<lparr>listeners := decoy_on_focus\<rparr>)))
     = [Focus 6, Focus 9]
   \<and> activeElement (focusTextbox (focusTextbox ((page_of password_doc)\<lparr>listeners := decoy_on_focus\<rparr>)))
     = Some 9"
proof -
  let ?s = "(page_of password_doc)\<lparr>listeners := decoy_on_focus\<rparr>"
  let ?d = "apply_mutation (InsertChild 3 0 (Element (shown 9 ''input'' [(''name'', ''passwd'')] 36) [])) password_doc"
  have q: "querySelector passwd_selector (doc ?s) = Some passwd_shown"
    by (simp add: page_of_def fixture_queries)
  have there: "lookup ?d 6 \<noteq> None"
    by (simp add: lookup_def apply_mutation_def insert_at_def fixture_defs)
  have "mutate (InsertChild 3 0 (Element (shown 9 ''input'' [(''name'', ''passwd'')] 36) []))
      (?s\<lparr>actions := [Focus 6], activeElement := Some 6\<rparr>)
    = ?s\<lparr>doc := ?d, activeElement := Some 6, actions := [Focus 6]\<rparr>"
    using there by (simp add: mutate_eval keep_focus_def page_of_def split: option.split)
  with q have once: "focusTextbox ?s = ?s\<lparr>doc := ?d, activeElement := Some 6, actions := [Focus 6]\<rparr>"
    by (simp add: focusTextbox_cases focus_def Let_def run_listeners_def page_of_def
        decoy_on_focus_def passwd_shown_def)
  have "querySelector passwd_selector ?d = Some (shown 9 ''input'' [(''name'', ''passwd'')] 36)"
    by (simp add: querySelector_def apply_mutation_def insert_at_def sel_defs fixture_defs
        getAttribute_def)
  then show ?thesis
    unfolding once
    by (simp add: focusTextbox_cases focus_def Let_def run_listeners_def page_of_def
        decoy_on_focus_def)
qed

section \<open>The exported functions\<close>

text \<open>
  The only exception an exported function can end in is the
  \<^verbatim>\<open>TypeError\<close> of \<open>clickUserSelectionTile\<close> on a document that has a tile and,
  after the click, no body.
\<close>

theorem call_throws_iff:
  "thrown (call f s) = Some e \<longleftrightarrow>
     f = ClickUserSelectionTile \<and> e = TypeError
       \<and> (\<exists>t ts. querySelectorAll tile_selector (doc s) = t # ts \<and> body (doc (click t s)) = None)"
  by (cases f; cases e)
    (auto simp: clickUserSelectionTile_cases waitForTextboxToAppear_cases
      split: list.splits option.splits)

text \<open>
  An exported function only ever appends to the log of actions, and at
  most one action per call.
\<close>

theorem call_appends_at_most_one_action:
  "\<exists>added. actions (state_of (call f s)) = actions s @ added \<and> length added \<le> 1"
proof (cases f)
  case ClickUniversityLoginButton
  then show ?thesis
    by (cases "querySelector login_selector (doc s)") (simp_all add: clickUniversityLoginButton_def)
next
  case ClickUserSelectionTile
  then show ?thesis
    by (cases "querySelectorAll tile_selector (doc s)")
      (simp_all add: clickUserSelectionTile_cases waitForTextboxToAppear_cases split: option.split)
next
  case FocusTextbox
  then show ?thesis
    by (cases "querySelector passwd_selector (doc s)") (simp_all add: focusTextbox_cases)
qed

section \<open>The selectors as written\<close>

text \<open>
  The three selector strings of the source are well-formed selectors of
  the fragment, and reading them gives the selectors the functions are
  defined with: an \<^verbatim>\<open>a\<close> whose \<^verbatim>\<open>href\<close> contains the sign-on path, a \<^verbatim>\<open>div\<close> of class
  \<^verbatim>\<open>table\<close> with the role \<^verbatim>\<open>button\<close>, an \<^verbatim>\<open>input\<close> named \<^verbatim>\<open>passwd\<close>.
\<close>

theorem selectors_as_written:
  "parse_selector login_selector_text = Some login_selector
     \<and> parse_selector tile_selector_text = Some tile_selector
     \<and> parse_selector passwd_selector_text = Some passwd_selector"
  by code_simp

end
