(* ===== verification/Notify.thy ===== *)
theory Notify
  imports Login
begin

text \<open>
  How the browser delivers queued mutation records to the callback of the
  script (the "notify mutation observers" step that ends every task), and why
  it ends.

  \<^item> \<open>deliver\<close> takes the queue of one observer and calls \<open>observer_callback\<close> with
    it; \<open>notify_round\<close> does so for every observer that holds records, in the
    order of creation; \<open>notify\<close> repeats rounds until no records are queued.
  \<^item> The callback can call \<^verbatim>\<open>focus()\<close>, which runs page code, which can queue new
    records. \<open>notify\<close> is nevertheless total: a delivery either takes a queue
    and changes nothing else, or disconnects the observer for good, so the pair
    (observers that are registered or hold records, observers that hold
    records) falls lexicographically with every round.
  \<^item> The closure principles \<open>page_closed\<close> and \<open>script_closed\<close> carry a property
    of the observers through every delivery.
\<close>

section \<open>Queues only grow, and only for connected observers\<close>

definition grows :: "observer \<Rightarrow> observer \<Rightarrow> bool" where
  "grows ob ob' \<longleftrightarrow>
     registered ob' = registered ob \<and> prefix (queue ob) (queue ob')
       \<and> (connected ob \<or> queue ob' = queue ob)"

definition live :: "observer \<Rightarrow> bool" where
  "live ob \<longleftrightarrow> registered ob \<noteq> [] \<or> queue ob \<noteq> []"

lemma grows_refl [simp]: "grows ob ob"
  by (simp add: grows_def)

lemma grows_trans: "grows a b \<Longrightarrow> grows b c \<Longrightarrow> grows a c"
  by (auto simp: grows_def connected_def)

lemma grows_live: "grows ob ob' \<Longrightarrow> live ob' = live ob"
  by (auto simp: grows_def live_def connected_def)

lemma list_all2_grows_refl [simp]: "list_all2 grows obs obs"
  by (simp add: list_all2_refl)

lemma list_all2_grows_trans:
  "list_all2 grows a b \<Longrightarrow> list_all2 grows b c \<Longrightarrow> list_all2 grows a c"
  by (erule (1) list_all2_trans [rotated]) (rule grows_trans)

lemma interested_connected: "interested d r ob \<Longrightarrow> connected ob"
  using not_interested_disconnected by blast

lemma enqueue_grows: "list_all2 grows obs (enqueue d r obs)"
  by (auto simp: enqueue_def list_all2_conv_all_nth grows_def intro: interested_connected)

lemma mutate_grows: "list_all2 grows (observers s) (observers (mutate m s))"
  by (simp add: mutate_def Let_def enqueue_grows split: option.split)

lemma fold_mutate_grows: "list_all2 grows (observers s) (observers (fold mutate ms s))"
proof (induction ms arbitrary: s)
  case Nil
  show ?case by simp
next
  case (Cons m ms)
  from mutate_grows [of s m] Cons [of "mutate m s"] show ?case
    by (auto intro: list_all2_grows_trans)
qed

lemma run_listeners_grows: "list_all2 grows (observers s) (observers (run_listeners a s))"
  by (simp add: run_listeners_def fold_mutate_grows)

lemma focus_grows: "list_all2 grows (observers s) (observers (focus e s))"
proof -
  have "list_all2 grows (observers (s\<lparr>actions := actions s @ [Focus (nid e)], activeElement := Some (nid e)\<rparr>))
     (observers (run_listeners (Focus (nid e)) (s\<lparr>actions := actions s @ [Focus (nid e)], activeElement := Some (nid e)\<rparr>)))"
    by (rule run_listeners_grows)
  then show ?thesis by (simp add: focus_def Let_def)
qed

lemma click_grows: "list_all2 grows (observers s) (observers (click e s))"
proof -
  have "list_all2 grows (observers (s\<lparr>actions := actions s @ [Click (nid e)]\<rparr>))
     (observers (run_listeners (Click (nid e)) (s\<lparr>actions := actions s @ [Click (nid e)]\<rparr>)))"
    by (rule run_listeners_grows)
  then show ?thesis by (simp add: click_def Let_def)
qed

section \<open>Delivery of queued records\<close>

text \<open>
  At the end of a task the browser notifies the mutation observers: each
  observer with queued records has its queue taken and its callback called
  with the records and the observer itself, in the order the observers were
  created. Callbacks can change the document, so the rounds repeat until no
  records are queued. A round is one run of the "notify mutation observers"
  steps of the DOM standard: the observers that hold records when it starts
  are the ones it calls; an observer that gets its first record during the
  round is called in the next. (The standard calls the observers in the order
  in which they got their first record; for observers registered on one
  element, as the script's are, this is the order of creation.)
\<close>

definition pending :: "page \<Rightarrow> nat list" where
  "pending s = filter (\<lambda>i. queue (observers s ! i) \<noteq> []) [0..<length (observers s)]"

definition clear_queue :: "nat \<Rightarrow> page \<Rightarrow> page" where
  "clear_queue oid s = s\<lparr>observers := modify_nth oid (\<lambda>ob. ob\<lparr>queue := []\<rparr>) (observers s)\<rparr>"

definition deliver :: "nat \<Rightarrow> page \<Rightarrow> page" where
  "deliver oid s =
     (if oid < length (observers s) \<and> queue (observers s ! oid) \<noteq> [] then
        observer_callback (queue (observers s ! oid)) oid (clear_queue oid s)
      else s)"

definition notify_round :: "page \<Rightarrow> page" where
  "notify_round s = fold deliver (pending s) s"

text \<open>
  \<open>fires oid s\<close>: delivering to observer \<open>oid\<close> in state \<open>s\<close> makes its callback
  focus the password field.
\<close>

definition fires :: "nat \<Rightarrow> page \<Rightarrow> bool" where
  "fires oid s \<longleftrightarrow>
     oid < length (observers s)
       \<and> list_ex (\<lambda>r. mtype r = ChildList) (queue (observers s ! oid))
       \<and> textbox_visible (querySelector passwd_selector (doc s))"

definition the_textbox :: "page \<Rightarrow> elem" where
  "the_textbox s = the (querySelector passwd_selector (doc s))"

lemma clear_queue_frame [simp, frame]:
  "doc (clear_queue oid s) = doc s"
  "activeElement (clear_queue oid s) = activeElement s"
  "actions (clear_queue oid s) = actions s"
  "listeners (clear_queue oid s) = listeners s"
  "length (observers (clear_queue oid s)) = length (observers s)"
  by (simp_all add: clear_queue_def)

lemma clear_queue_nth:
  "i < length (observers s) \<Longrightarrow>
     observers (clear_queue oid s) ! i
       = (if i = oid then (observers s ! i)\<lparr>queue := []\<rparr> else observers s ! i)"
  by (simp add: clear_queue_def nth_modify_nth)

lemma clear_queue_registered [simp, frame]:
  "i < length (observers s) \<Longrightarrow>
     registered (observers (clear_queue oid s) ! i) = registered (observers s ! i)"
  by (simp add: clear_queue_nth)

lemma clear_queue_empty:
  "length (observers s) \<le> oid \<or> queue (observers s ! oid) = [] \<Longrightarrow> clear_queue oid s = s"
  by (auto simp: clear_queue_def modify_nth_def list_update_same_conv)

lemma fires_queue: "fires oid s \<Longrightarrow> oid < length (observers s) \<and> queue (observers s ! oid) \<noteq> []"
  by (auto simp: fires_def)

lemma deliver_eq:
  "deliver oid s =
     (if fires oid s then disconnect oid (focus (the_textbox s) (clear_queue oid s))
      else clear_queue oid s)"
  by (auto simp: deliver_def fires_def the_textbox_def observer_callback_eq clear_queue_empty)

section \<open>The rank that every delivery lowers\<close>

definition n_live :: "page \<Rightarrow> nat" where
  "n_live s = length (filter live (observers s))"

definition n_pending :: "page \<Rightarrow> nat" where
  "n_pending s = length (filter (\<lambda>ob. queue ob \<noteq> []) (observers s))"

definition rank_less :: "page \<Rightarrow> page \<Rightarrow> bool" where
  "rank_less s' s \<longleftrightarrow> n_live s' < n_live s \<or> (n_live s' = n_live s \<and> n_pending s' < n_pending s)"

lemma rank_less_trans: "rank_less a b \<Longrightarrow> rank_less b c \<Longrightarrow> rank_less a c"
  by (auto simp: rank_less_def)

lemma length_filter_update:
  "i < length xs \<Longrightarrow>
     length (filter P (xs[i := y])) + (if P (xs ! i) then 1 else 0)
       = length (filter P xs) + (if P y then 1 else 0)"
proof (induction xs arbitrary: i)
  case Nil
  then show ?case by simp
next
  case (Cons x xs)
  then show ?case by (cases i) auto
qed

lemma grows_map_live: "list_all2 grows obs obs' \<Longrightarrow> map live obs' = map live obs"
  by (induction rule: list_all2_induct) (simp_all add: grows_live)

lemma length_filter_map: "length (filter P xs) = length (filter id (map P xs))"
  by (induction xs) simp_all

lemma grows_n_live:
  "list_all2 grows (observers s) (observers s') \<Longrightarrow> n_live s' = n_live s"
  unfolding n_live_def
  by (subst (1 2) length_filter_map) (simp add: grows_map_live)

lemma n_live_focus [simp]: "n_live (focus e s) = n_live s"
  by (rule grows_n_live) (rule focus_grows)

lemma n_live_click [simp]: "n_live (click e s) = n_live s"
  by (rule grows_n_live) (rule click_grows)

lemma n_live_fold_mutate [simp]: "n_live (fold mutate ms s) = n_live s"
  by (rule grows_n_live) (rule fold_mutate_grows)

lemma n_live_disconnect:
  "oid < length (observers s) \<Longrightarrow>
     n_live (disconnect oid s) + (if live (observers s ! oid) then 1 else 0) = n_live s"
  using length_filter_update [of oid "observers s" live idle]
  by (simp add: n_live_def disconnect_def modify_nth_def live_def)

lemma n_live_clear:
  "oid < length (observers s) \<Longrightarrow> queue (observers s ! oid) \<noteq> [] \<Longrightarrow>
     n_live (clear_queue oid s) + 1
       = n_live s + (if registered (observers s ! oid) \<noteq> [] then 1 else 0)"
  using length_filter_update [of oid "observers s" live "(observers s ! oid)\<lparr>queue := []\<rparr>"]
  by (simp add: n_live_def live_def clear_queue_def modify_nth_def)

lemma n_pending_clear:
  "oid < length (observers s) \<Longrightarrow> queue (observers s ! oid) \<noteq> [] \<Longrightarrow>
     n_pending (clear_queue oid s) + 1 = n_pending s"
  using length_filter_update [of oid "observers s" "\<lambda>ob. queue ob \<noteq> []" "(observers s ! oid)\<lparr>queue := []\<rparr>"]
  by (simp add: n_pending_def clear_queue_def modify_nth_def)

text \<open>
  A delivery that fires takes the observer out of the live ones, and the
  focus call in between can only add records to observers that were live
  already; a delivery that does not fire empties one queue.
\<close>

lemma n_live_fires:
  assumes "fires oid s"
  shows "n_live (deliver oid s) < n_live s"
proof -
  define ob where "ob = observers s ! oid"
  define s1 where "s1 = focus (the_textbox s) (clear_queue oid s)"
  from assms have len: "oid < length (observers s)" and q: "queue (observers s ! oid) \<noteq> []"
    by (simp_all add: fires_queue)
  then have live0: "n_live (clear_queue oid s) + 1 = n_live s + (if registered ob \<noteq> [] then 1 else 0)"
    unfolding ob_def by (rule n_live_clear)
  have live1: "n_live s1 = n_live (clear_queue oid s)" by (simp add: s1_def)
  from len have len1: "oid < length (observers s1)"
    and reg1: "registered (observers s1 ! oid) = registered ob"
    by (simp_all add: s1_def ob_def)
  from n_live_disconnect [OF len1] reg1
  have "n_live (disconnect oid s1) + (if registered ob \<noteq> [] then 1 else 0) \<le> n_live s1"
    by (auto simp: live_def split: if_splits)
  with live0 live1 assms show ?thesis
    by (auto simp: deliver_eq s1_def split: if_splits)
qed

lemma deliver_rank:
  assumes "oid < length (observers s)" and "queue (observers s ! oid) \<noteq> []"
  shows "rank_less (deliver oid s) s"
proof (cases "fires oid s")
  case True
  then show ?thesis by (simp add: rank_less_def n_live_fires)
next
  case False
  with n_live_clear [OF assms] n_pending_clear [OF assms] show ?thesis
    by (auto simp: deliver_eq rank_less_def split: if_splits)
qed

lemma deliver_idle:
  "length (observers s) \<le> oid \<or> queue (observers s ! oid) = [] \<Longrightarrow> deliver oid s = s"
  by (auto simp: deliver_def)

lemma fold_deliver_rank: "fold deliver oids s = s \<or> rank_less (fold deliver oids s) s"
proof (induction oids arbitrary: s)
  case Nil
  show ?case by simp
next
  case (Cons oid oids)
  have "deliver oid s = s \<or> rank_less (deliver oid s) s"
    using deliver_rank [where oid = oid and s = s] deliver_idle [where oid = oid and s = s]
    by (cases "oid < length (observers s)") auto
  with Cons [of "deliver oid s"] show ?case
    by (auto intro: rank_less_trans)
qed

lemma pending_Cons:
  "pending s = oid # oids \<Longrightarrow> oid < length (observers s) \<and> queue (observers s ! oid) \<noteq> []"
proof -
  assume "pending s = oid # oids"
  then have "oid \<in> set (pending s)" by simp
  then show ?thesis by (simp add: pending_def)
qed

lemma notify_round_rank:
  assumes "pending s \<noteq> []"
  shows "rank_less (notify_round s) s"
proof -
  from assms obtain oid oids where p: "pending s = oid # oids"
    by (cases "pending s") auto
  then have "rank_less (deliver oid s) s" by (auto dest: pending_Cons intro: deliver_rank)
  with fold_deliver_rank [of oids "deliver oid s"] p show ?thesis
    by (auto simp: notify_round_def intro: rank_less_trans)
qed

function notify :: "page \<Rightarrow> page" where
  "notify s = (if pending s = [] then s else notify (notify_round s))"
  by pat_completeness auto
termination
proof (relation "measures [n_live, n_pending]")
  show "wf (measures [n_live, n_pending])" by simp
next
  fix s
  assume "pending s \<noteq> []"
  then have "rank_less (notify_round s) s" by (rule notify_round_rank)
  then show "(notify_round s, s) \<in> measures [n_live, n_pending]"
    by (auto simp: rank_less_def)
qed

declare notify.simps [simp del]

lemma notify_quiet: "pending s = [] \<Longrightarrow> notify s = s"
  by (simp add: notify.simps)

lemma notify_step: "pending s \<noteq> [] \<Longrightarrow> notify s = notify (notify_round s)"
  by (subst notify.simps) simp

section \<open>The log across deliveries\<close>

fun is_focus :: "action \<Rightarrow> bool" where
  "is_focus (Focus i) = True"
| "is_focus (Click i) = False"

definition focus_calls :: "page \<Rightarrow> nat" where
  "focus_calls s = length (filter is_focus (actions s))"

lemma deliver_frame [simp, frame]:
  "listeners (deliver oid s) = listeners s"
  "length (observers (deliver oid s)) = length (observers s)"
  by (simp_all add: deliver_eq)

lemma deliver_actions:
  "actions (deliver oid s)
     = actions s @ (if fires oid s then [Focus (nid (the_textbox s))] else [])"
  by (simp add: deliver_eq)

lemma fold_deliver_prefix: "prefix (actions s) (actions (fold deliver oids s))"
proof (induction oids arbitrary: s)
  case Nil
  show ?case by simp
next
  case (Cons oid oids)
  have "prefix (actions s) (actions (deliver oid s))" by (simp add: deliver_actions)
  with Cons [of "deliver oid s"] show ?case by (auto intro: prefix_order.trans)
qed

lemma fold_deliver_frame [simp, frame]:
  "listeners (fold deliver oids s) = listeners s"
  "length (observers (fold deliver oids s)) = length (observers s)"
  by (induction oids arbitrary: s) simp_all

lemma notify_frame [simp, frame]:
  "listeners (notify s) = listeners s"
  "length (observers (notify s)) = length (observers s)"
proof (induction s rule: notify.induct)
  case (1 s)
  {
    case 1
    with "1.IH" show ?case by (cases "pending s = []") (simp_all add: notify_quiet notify_step notify_round_def)
  next
    case 2
    with "1.IH" show ?case by (cases "pending s = []") (simp_all add: notify_quiet notify_step notify_round_def)
  }
qed

lemma notify_prefix: "prefix (actions s) (actions (notify s))"
proof (induction s rule: notify.induct)
  case (1 s)
  show ?case
  proof (cases "pending s = []")
    case True
    then show ?thesis by (simp add: notify_quiet)
  next
    case False
    with 1 have "prefix (actions (notify_round s)) (actions (notify s))"
      by (simp add: notify_step)
    with fold_deliver_prefix [of s "pending s"] show ?thesis
      by (auto simp: notify_round_def intro: prefix_order.trans)
  qed
qed

lemma notify_pending [simp]: "pending (notify s) = []"
proof (induction s rule: notify.induct)
  case (1 s)
  then show ?case by (cases "pending s = []") (simp_all add: notify_quiet notify_step)
qed

lemma notify_rounds: "\<exists>n. notify s = (notify_round ^^ n) s"
proof (induction s rule: notify.induct)
  case (1 s)
  show ?case
  proof (cases "pending s = []")
    case True
    then have "notify s = (notify_round ^^ 0) s" by (simp add: notify_quiet)
    then show ?thesis ..
  next
    case False
    with 1 obtain n where "notify (notify_round s) = (notify_round ^^ n) (notify_round s)" by auto
    with False have "notify s = (notify_round ^^ Suc n) s"
      by (simp add: notify_step funpow_swap1)
    then show ?thesis ..
  qed
qed

subsection \<open>Who pays for a focus call\<close>

lemma focus_calls_simps [simp]:
  "focus_calls (click e s) = focus_calls s"
  "focus_calls (focus e s) = Suc (focus_calls s)"
  "focus_calls (fold mutate ms s) = focus_calls s"
  "focus_calls (clear_queue oid s) = focus_calls s"
  "focus_calls (disconnect oid s) = focus_calls s"
  by (simp_all add: focus_calls_def)

lemma n_live_clear_le: "n_live (clear_queue oid s) \<le> n_live s"
proof (cases "oid < length (observers s) \<and> queue (observers s ! oid) \<noteq> []")
  case True
  with n_live_clear [of oid s] show ?thesis by (simp split: if_splits)
next
  case False
  then have "clear_queue oid s = s" by (intro clear_queue_empty) auto
  then show ?thesis by simp
qed

lemma deliver_owed:
  "focus_calls (deliver oid s) + n_live (deliver oid s) \<le> focus_calls s + n_live s"
proof (cases "fires oid s")
  case True
  with n_live_fires [OF True] show ?thesis
    by (simp add: focus_calls_def deliver_actions)
next
  case False
  with n_live_clear_le [of oid s] show ?thesis by (simp add: deliver_eq)
qed

lemma fold_deliver_owed:
  "focus_calls (fold deliver oids s) + n_live (fold deliver oids s) \<le> focus_calls s + n_live s"
proof (induction oids arbitrary: s)
  case Nil
  show ?case by simp
next
  case (Cons oid oids)
  from Cons [of "deliver oid s"] deliver_owed [of oid s] show ?case by simp
qed

lemma notify_owed: "focus_calls (notify s) + n_live (notify s) \<le> focus_calls s + n_live s"
proof (induction s rule: notify.induct)
  case (1 s)
  show ?case
  proof (cases "pending s = []")
    case True
    then show ?thesis by (simp add: notify_quiet)
  next
    case False
    with 1 fold_deliver_owed [of "pending s" s] show ?thesis
      by (simp add: notify_step notify_round_def)
  qed
qed

section \<open>Properties of the observers that every step keeps\<close>

text \<open>
  The page touches observers only by queueing records; the script touches
  them by taking a queue, by disconnecting, and by creating an observer that
  is idle or watches the body. A property of the list of observers that these
  five changes keep is kept by every call, every delivery and every task.
\<close>

definition page_closed :: "(observer list \<Rightarrow> bool) \<Rightarrow> bool" where
  "page_closed P \<longleftrightarrow> (\<forall>d r obs. P obs \<longrightarrow> P (enqueue d r obs))"

definition script_closed :: "(observer list \<Rightarrow> bool) \<Rightarrow> bool" where
  "script_closed P \<longleftrightarrow>
     page_closed P
       \<and> (\<forall>i obs. P obs \<longrightarrow> P (modify_nth i (\<lambda>ob. ob\<lparr>queue := []\<rparr>) obs))
       \<and> (\<forall>i obs. P obs \<longrightarrow> P (modify_nth i (\<lambda>ob. idle) obs))
       \<and> (\<forall>obs. P obs \<longrightarrow> P (obs @ [idle]))
       \<and> (\<forall>b obs. P obs \<longrightarrow> P (obs @ [register b watch_options idle]))"

lemma script_closed_page [simp]: "script_closed P \<Longrightarrow> page_closed P"
  by (simp add: script_closed_def)

lemma mutate_observers: "page_closed P \<Longrightarrow> P (observers s) \<Longrightarrow> P (observers (mutate m s))"
  by (simp add: page_closed_def mutate_def Let_def split: option.split)

lemma fold_mutate_observers:
  "page_closed P \<Longrightarrow> P (observers s) \<Longrightarrow> P (observers (fold mutate ms s))"
  by (induction ms arbitrary: s) (simp_all add: mutate_observers)

lemma run_listeners_observers:
  "page_closed P \<Longrightarrow> P (observers s) \<Longrightarrow> P (observers (run_listeners a s))"
  by (simp add: run_listeners_def fold_mutate_observers)

lemma click_observers: "page_closed P \<Longrightarrow> P (observers s) \<Longrightarrow> P (observers (click e s))"
  by (simp add: click_def Let_def run_listeners_observers)

lemma focus_observers: "page_closed P \<Longrightarrow> P (observers s) \<Longrightarrow> P (observers (focus e s))"
  by (simp add: focus_def Let_def run_listeners_observers)

lemma clear_queue_observers:
  "script_closed P \<Longrightarrow> P (observers s) \<Longrightarrow> P (observers (clear_queue oid s))"
  by (simp add: script_closed_def clear_queue_def)

lemma disconnect_observers:
  "script_closed P \<Longrightarrow> P (observers s) \<Longrightarrow> P (observers (disconnect oid s))"
  by (simp add: script_closed_def disconnect_def)

lemma deliver_observers:
  "script_closed P \<Longrightarrow> P (observers s) \<Longrightarrow> P (observers (deliver oid s))"
  by (simp add: deliver_eq disconnect_observers focus_observers clear_queue_observers)

lemma fold_deliver_observers:
  "script_closed P \<Longrightarrow> P (observers s) \<Longrightarrow> P (observers (fold deliver oids s))"
  by (induction oids arbitrary: s) (simp_all add: deliver_observers)

lemma notify_observers:
  "script_closed P \<Longrightarrow> P (observers s) \<Longrightarrow> P (observers (notify s))"
proof (induction s rule: notify.induct)
  case (1 s)
  show ?case
  proof (cases "pending s = []")
    case True
    with 1 show ?thesis by (simp add: notify_quiet)
  next
    case False
    with 1 show ?thesis
      by (simp add: notify_step notify_round_def fold_deliver_observers)
  qed
qed

section \<open>Notification ends\<close>

text \<open>
  Notifying the observers ends: after finitely many rounds of deliveries
  no observer holds a record, although a \<^verbatim>\<open>focus()\<close> call inside a callback runs
  page code that may queue new records for every connected observer.
\<close>

theorem notification_ends:
  "\<exists>n. notify s = (notify_round ^^ n) s \<and> pending ((notify_round ^^ n) s) = []"
proof -
  from notify_rounds obtain n where n: "notify s = (notify_round ^^ n) s" ..
  have "pending (notify s) = []" by simp
  then have "pending ((notify_round ^^ n) s) = []" by (simp only: n)
  with n show ?thesis by (intro exI conjI)
qed

end
