(* ===== verification/Rounds.thy ===== *)
theory Rounds
  imports Notify
begin

text \<open>
  What a notification comes to, case by case.

  \<^item> The field is visible and some observer holds a child-list record
    (\<open>fires\<close>): the first thing that happens is a focus call on the field.
  \<^item> The field is not visible: notifying is taking every queue (\<open>drain\<close>).
  \<^item> The number of rounds is bounded by the number of observers that are
    registered or hold records (\<open>n_live\<close>): a round either is the last one or
    takes one of them away.
  \<^item> The field is visible, focus listeners leave the document alone
    (\<open>calm_focus\<close>) and the queues hold child-list records only
    (\<open>childList_queues\<close>): one round, one focus call for each observer that
    holds a record, and these observers are idle afterwards (\<open>notify_all_fire\<close>).
\<close>

section \<open>When the watcher fires\<close>

lemma clear_queue_other:
  "i \<noteq> oid \<Longrightarrow> observers (clear_queue oid s) ! i = observers s ! i"
  by (simp add: clear_queue_def modify_nth_def)

lemma fires_clear_queue: "i \<noteq> oid \<Longrightarrow> fires i (clear_queue oid s) = fires i s"
  by (simp add: fires_def clear_queue_other)

lemma the_textbox_clear_queue [simp]: "the_textbox (clear_queue oid s) = the_textbox s"
  by (simp add: the_textbox_def)

text \<open>
  In a round, the deliveries before the first one that fires only take
  queues, so the first delivery that can fire does, on the document the round
  started with.
\<close>

lemma fold_deliver_fires:
  "oid \<in> set oids \<Longrightarrow> fires oid s \<Longrightarrow>
     \<exists>rest. actions (fold deliver oids s) = actions s @ Focus (nid (the_textbox s)) # rest"
proof (induction oids arbitrary: s)
  case Nil
  then show ?case by simp
next
  case (Cons j oids)
  show ?case
  proof (cases "fires j s")
    case True
    then have "actions (deliver j s) = actions s @ [Focus (nid (the_textbox s))]"
      by (simp add: deliver_actions)
    with fold_deliver_prefix [of "deliver j s" oids] show ?thesis
      by (auto simp: prefix_def)
  next
    case False
    with Cons.prems have "j \<noteq> oid" by auto
    with Cons.prems have "oid \<in> set oids" and "fires oid (clear_queue j s)"
      by (simp_all add: fires_clear_queue)
    from Cons.IH [OF this] False show ?thesis by (simp add: deliver_eq)
  qed
qed

lemma fires_pending: "fires oid s \<Longrightarrow> oid \<in> set (pending s)"
  by (auto simp: pending_def dest: fires_queue)

lemma notify_fires:
  assumes "fires oid s"
  shows "\<exists>rest. actions (notify s) = actions s @ Focus (nid (the_textbox s)) # rest"
proof -
  from assms have p: "oid \<in> set (pending s)" by (rule fires_pending)
  then obtain rest where "actions (notify_round s) = actions s @ Focus (nid (the_textbox s)) # rest"
    using fold_deliver_fires [OF p assms] by (auto simp: notify_round_def)
  moreover from p have "pending s \<noteq> []" by auto
  then have "notify s = notify (notify_round s)" by (rule notify_step)
  ultimately show ?thesis
    using notify_prefix [of "notify_round s"] by (auto simp: prefix_def)
qed

section \<open>When the watcher waits\<close>

text \<open>
  \<open>drain\<close> takes every queue. While the field is not visible, notifying the
  observers is draining them: nothing else changes, and every watcher stays.
\<close>

definition drain :: "page \<Rightarrow> page" where
  "drain s = s\<lparr>observers := map (\<lambda>ob. ob\<lparr>queue := []\<rparr>) (observers s)\<rparr>"

lemma drain_frame [simp, frame]:
  "doc (drain s) = doc s"
  "activeElement (drain s) = activeElement s"
  "actions (drain s) = actions s"
  "listeners (drain s) = listeners s"
  "length (observers (drain s)) = length (observers s)"
  by (simp_all add: drain_def)

lemma drain_nth:
  "i < length (observers s) \<Longrightarrow> observers (drain s) ! i = (observers s ! i)\<lparr>queue := []\<rparr>"
  by (simp add: drain_def)

lemma pending_drain [simp]: "pending (drain s) = []"
  by (simp add: pending_def drain_def filter_empty_conv)

lemma fold_clear_queue_frame [simp]:
  "doc (fold clear_queue oids s) = doc s"
  "activeElement (fold clear_queue oids s) = activeElement s"
  "actions (fold clear_queue oids s) = actions s"
  "listeners (fold clear_queue oids s) = listeners s"
  "length (observers (fold clear_queue oids s)) = length (observers s)"
  by (induction oids arbitrary: s) simp_all

lemma fold_clear_queue_nth:
  "i < length (observers s) \<Longrightarrow>
     observers (fold clear_queue oids s) ! i
       = (if i \<in> set oids then (observers s ! i)\<lparr>queue := []\<rparr> else observers s ! i)"
  by (induction oids arbitrary: s) (auto simp: clear_queue_nth)

lemma fold_clear_queue_pending: "fold clear_queue (pending s) s = drain s"
proof (rule page.equality)
  show "observers (fold clear_queue (pending s) s) = observers (drain s)"
    by (rule nth_equalityI) (auto simp: fold_clear_queue_nth drain_nth pending_def)
qed simp_all

lemma fold_deliver_waits:
  "\<not> textbox_visible (querySelector passwd_selector (doc s)) \<Longrightarrow>
     fold deliver oids s = fold clear_queue oids s"
  by (induction oids arbitrary: s) (simp_all add: deliver_eq fires_def)

lemma notify_waits:
  assumes "\<not> textbox_visible (querySelector passwd_selector (doc s))"
  shows "notify s = drain s"
proof (cases "pending s = []")
  case True
  then have "drain s = s"
    using fold_clear_queue_pending [of s] by simp
  with True show ?thesis by (simp add: notify_quiet)
next
  case False
  from assms have "notify_round s = drain s"
    by (simp add: notify_round_def fold_deliver_waits fold_clear_queue_pending)
  with False show ?thesis by (simp add: notify_step notify_quiet)
qed

section \<open>How many rounds a notification takes\<close>

text \<open>
  A round in which no callback focuses the field only takes queues, so it is
  the last one; every other round takes an observer out of the live ones. So
  there are at most as many rounds as live observers.
\<close>

lemma fold_deliver_n_live_le: "n_live (fold deliver oids s) \<le> n_live s"
  using fold_deliver_rank [of oids s] by (auto simp: rank_less_def)

lemma fold_deliver_dichotomy:
  "fold deliver oids s = fold clear_queue oids s \<or> n_live (fold deliver oids s) < n_live s"
proof (induction oids arbitrary: s)
  case Nil
  show ?case by simp
next
  case (Cons oid oids)
  show ?case
  proof (cases "fires oid s")
    case True
    then have "n_live (deliver oid s) < n_live s" by (rule n_live_fires)
    with fold_deliver_n_live_le [of oids "deliver oid s"] show ?thesis by simp
  next
    case False
    then have d: "deliver oid s = clear_queue oid s" by (simp add: deliver_eq)
    from Cons [of "clear_queue oid s"] n_live_clear_le [of oid s] show ?thesis
      by (auto simp: d)
  qed
qed

lemma notify_round_dichotomy: "notify_round s = drain s \<or> n_live (notify_round s) < n_live s"
  using fold_deliver_dichotomy [of "pending s" s]
  by (simp add: notify_round_def fold_clear_queue_pending)

lemma pending_live: "pending s \<noteq> [] \<Longrightarrow> 0 < n_live s"
proof -
  assume "pending s \<noteq> []"
  then obtain oid oids where "pending s = oid # oids" by (cases "pending s") auto
  then have "oid < length (observers s)" and "queue (observers s ! oid) \<noteq> []"
    by (auto dest: pending_Cons)
  then have "observers s ! oid \<in> set (filter live (observers s))"
    by (simp add: live_def)
  then show ?thesis by (auto simp: n_live_def length_greater_0_conv simp del: set_filter)
qed

lemma notify_rounds_le: "\<exists>n\<le>n_live s. notify s = (notify_round ^^ n) s"
proof (induction s rule: notify.induct)
  case (1 s)
  show ?case
  proof (cases "pending s = []")
    case True
    then have "notify s = (notify_round ^^ 0) s" by (simp add: notify_quiet)
    then show ?thesis by blast
  next
    case False
    from False have live: "0 < n_live s" by (rule pending_live)
    from False have step: "notify s = notify (notify_round s)" by (rule notify_step)
    from notify_round_dichotomy [of s] show ?thesis
    proof
      assume "notify_round s = drain s"
      with step have "notify s = (notify_round ^^ 1) s" by (simp add: notify_quiet)
      with live show ?thesis by (intro exI [of _ 1]) simp
    next
      assume less: "n_live (notify_round s) < n_live s"
      from "1.IH" [OF False] obtain n where n: "n \<le> n_live (notify_round s)"
        and eq: "notify (notify_round s) = (notify_round ^^ n) (notify_round s)"
        by blast
      from eq step have "notify s = (notify_round ^^ Suc n) s" by (simp add: funpow_swap1)
      moreover from n less have "Suc n \<le> n_live s" by simp
      ultimately show ?thesis by blast
    qed
  qed
qed

section \<open>A round in which every watcher fires\<close>

text \<open>
  When focus listeners leave the document alone and the field is visible, a
  delivery to an observer that holds a child-list record is one focus call and
  the end of that observer; the document and the other observers are as before.
\<close>

definition calm_focus :: "(action \<Rightarrow> document \<Rightarrow> mutation list) \<Rightarrow> bool" where
  "calm_focus l \<longleftrightarrow> (\<forall>i d. l (Focus i) d = [])"

definition childList_queues :: "page \<Rightarrow> bool" where
  "childList_queues s \<longleftrightarrow> list_all (\<lambda>ob. list_all (\<lambda>r. mtype r = ChildList) (queue ob)) (observers s)"

definition deliverable :: "page \<Rightarrow> nat \<Rightarrow> bool" where
  "deliverable s i \<longleftrightarrow>
     i < length (observers s) \<and> list_ex (\<lambda>r. mtype r = ChildList) (queue (observers s ! i))"

lemma focus_calm:
  "calm_focus (listeners s) \<Longrightarrow> doc (focus e s) = doc s \<and> observers (focus e s) = observers s"
  by (simp add: focus_def Let_def run_listeners_def calm_focus_def)

lemma focus_calm_active:
  "calm_focus (listeners s) \<Longrightarrow>
     activeElement (focus e s) = (if focusable e then Some (nid e) else activeElement s)"
  by (auto simp: focus_def Let_def run_listeners_def calm_focus_def)

lemma deliver_fires:
  assumes "calm_focus (listeners s)" and "textbox_visible (querySelector passwd_selector (doc s))"
    and "deliverable s oid"
  shows "observers (deliver oid s) = (observers s)[oid := idle]"
    and "doc (deliver oid s) = doc s"
    and "actions (deliver oid s) = actions s @ [Focus (nid (the_textbox s))]"
    and "activeElement (deliver oid s)
      = (if focusable (the_textbox s) then Some (nid (the_textbox s)) else activeElement s)"
proof -
  from assms(2,3) have f: "fires oid s" by (simp add: fires_def deliverable_def)
  from assms(1) have calm: "calm_focus (listeners (clear_queue oid s))" by simp
  have "observers (focus (the_textbox s) (clear_queue oid s)) = observers (clear_queue oid s)"
    using focus_calm [OF calm] by simp
  with f assms(3) show "observers (deliver oid s) = (observers s)[oid := idle]"
    by (simp add: deliver_eq disconnect_def clear_queue_def modify_nth_def deliverable_def)
  from f show "doc (deliver oid s) = doc s" by (simp add: deliver_eq focus_calm [OF calm])
  from f show "actions (deliver oid s) = actions s @ [Focus (nid (the_textbox s))]"
    by (simp add: deliver_actions)
  from f show "activeElement (deliver oid s)
      = (if focusable (the_textbox s) then Some (nid (the_textbox s)) else activeElement s)"
    by (simp add: deliver_eq disconnect_def focus_calm_active [OF calm])
qed

lemma deliverable_other:
  "observers s' = (observers s)[j := idle] \<Longrightarrow> i \<noteq> j \<Longrightarrow> deliverable s' i = deliverable s i"
  by (simp add: deliverable_def)

lemma fold_deliver_all_fire:
  assumes "calm_focus (listeners s)" and "textbox_visible (querySelector passwd_selector (doc s))"
    and "distinct oids" and "list_all (deliverable s) oids"
  shows "observers (fold deliver oids s) = fold (\<lambda>i obs. obs[i := idle]) oids (observers s)
    \<and> doc (fold deliver oids s) = doc s
    \<and> actions (fold deliver oids s) = actions s @ replicate (length oids) (Focus (nid (the_textbox s)))
    \<and> activeElement (fold deliver oids s)
        = (if oids \<noteq> [] \<and> focusable (the_textbox s) then Some (nid (the_textbox s))
           else activeElement s)"
  using assms
proof (induction oids arbitrary: s)
  case Nil
  then show ?case by simp
next
  case (Cons j oids)
  from Cons.prems have j: "deliverable s j" by simp
  note step = deliver_fires [OF Cons.prems(1,2) j]
  have "deliverable (deliver j s) i" if "i \<in> set oids" for i
  proof -
    from that Cons.prems(3) have "i \<noteq> j" by auto
    with that Cons.prems(4) show ?thesis
      by (simp add: deliverable_other [OF step(1)] list_all_iff)
  qed
  then have "list_all (deliverable (deliver j s)) oids" by (simp add: list_all_iff)
  with Cons.prems have "observers (fold deliver oids (deliver j s))
      = fold (\<lambda>i obs. obs[i := idle]) oids (observers (deliver j s))
    \<and> doc (fold deliver oids (deliver j s)) = doc (deliver j s)
    \<and> actions (fold deliver oids (deliver j s))
        = actions (deliver j s) @ replicate (length oids) (Focus (nid (the_textbox (deliver j s))))
    \<and> activeElement (fold deliver oids (deliver j s))
        = (if oids \<noteq> [] \<and> focusable (the_textbox (deliver j s))
           then Some (nid (the_textbox (deliver j s))) else activeElement (deliver j s))"
    by (intro Cons.IH) (simp_all add: step(2))
  then show ?case by (simp add: step the_textbox_def replicate_app_Cons_same)
qed

lemma fold_update_nth:
  "i < length xs \<Longrightarrow>
     fold (\<lambda>i xs. xs[i := y]) oids xs ! i = (if i \<in> set oids then y else xs ! i)"
  by (induction oids arbitrary: xs) (auto simp: nth_list_update)

lemma fold_update_length [simp]: "length (fold (\<lambda>i xs. xs[i := y]) oids xs) = length xs"
  by (induction oids arbitrary: xs) simp_all

lemma pending_distinct [simp]: "distinct (pending s)"
  by (simp add: pending_def)

lemma length_pending: "length (pending s) = n_pending s"
proof -
  let ?P = "\<lambda>ob. queue ob \<noteq> []"
  have "filter ?P (observers s) = filter ?P (map ((!) (observers s)) [0..<length (observers s)])"
    by (simp add: map_nth)
  also have "\<dots> = map ((!) (observers s)) (pending s)"
    by (simp add: filter_map pending_def comp_def)
  finally show ?thesis by (simp add: n_pending_def)
qed

lemma pending_deliverable:
  assumes "childList_queues s" and "i \<in> set (pending s)"
  shows "deliverable s i"
proof -
  from assms(2) have i: "i < length (observers s)" and q: "queue (observers s ! i) \<noteq> []"
    by (simp_all add: pending_def)
  from assms(1) i have "list_all (\<lambda>r. mtype r = ChildList) (queue (observers s ! i))"
    by (simp add: childList_queues_def list_all_length)
  with q have "list_ex (\<lambda>r. mtype r = ChildList) (queue (observers s ! i))"
    by (cases "queue (observers s ! i)") simp_all
  with i show ?thesis by (simp add: deliverable_def)
qed

lemma notify_all_fire:
  assumes "calm_focus (listeners s)" and "textbox_visible (querySelector passwd_selector (doc s))"
    and "childList_queues s"
  shows "notify s
    = s\<lparr>activeElement :=
           (if pending s \<noteq> [] \<and> focusable (the_textbox s) then Some (nid (the_textbox s))
            else activeElement s),
         observers := map (\<lambda>ob. if queue ob = [] then ob else idle) (observers s),
         actions := actions s @ replicate (n_pending s) (Focus (nid (the_textbox s)))\<rparr>"
proof -
  from assms(3) have "list_all (deliverable s) (pending s)"
    by (simp add: list_all_iff pending_deliverable)
  with assms(1,2) have round: "observers (notify_round s)
        = fold (\<lambda>i obs. obs[i := idle]) (pending s) (observers s)
      \<and> doc (notify_round s) = doc s
      \<and> actions (notify_round s)
          = actions s @ replicate (length (pending s)) (Focus (nid (the_textbox s)))
      \<and> activeElement (notify_round s)
          = (if pending s \<noteq> [] \<and> focusable (the_textbox s) then Some (nid (the_textbox s))
             else activeElement s)"
    unfolding notify_round_def by (intro fold_deliver_all_fire) simp_all
  have obs: "observers (notify_round s)
      = map (\<lambda>ob. if queue ob = [] then ob else idle) (observers s)"
    by (rule nth_equalityI) (auto simp: round fold_update_nth pending_def)
  then have "pending (notify_round s) = []"
    by (auto simp: pending_def filter_empty_conv)
  then have "notify s = notify_round s"
    by (cases "pending s = []") (simp_all add: notify_step notify_quiet notify_round_def)
  moreover have "listeners (notify_round s) = listeners s" by (simp add: notify_round_def)
  ultimately show ?thesis
    by (intro page.equality) (simp_all add: obs round [THEN conjunct2] length_pending)
qed

text \<open>
  C17. The rounds of a notification are bounded by the observers: notifying
  takes at most as many rounds of deliveries as there are observers that are
  registered or hold records, whatever the page's listeners do during the
  focus calls.
\<close>

theorem notification_rounds_bounded:
  "\<exists>n\<le>n_live s. notify s = (notify_round ^^ n) s \<and> pending ((notify_round ^^ n) s) = []"
proof -
  from notify_rounds_le obtain n where n: "n \<le> n_live s" "notify s = (notify_round ^^ n) s"
    by blast
  have "pending (notify s) = []" by simp
  then have "pending ((notify_round ^^ n) s) = []" by (simp only: n(2))
  with n show ?thesis by blast
qed

end
