(* ===== verification/System.thy ===== *)
theory System
  imports Rounds
begin

text \<open>
  The script in its environment: a run is a sequence of tasks, each either a
  call of an exported function by the driver or a batch of changes by the
  page, and each followed by the notification of the observers.

  \<^item> \<open>task\<close>, \<open>perform\<close>, \<open>run_task\<close>, \<open>run\<close>, and the states a run \<open>reaches\<close>.
  \<^item> \<open>shown_field\<close>: the password field, if the document has one with a height.
  \<^item> A property of the observers that the page and the script keep is kept by
    every task (\<open>run_task_observers\<close>, \<open>reaches_observers\<close>).
  \<^item> \<open>script_observer\<close>: the observers the script creates, a closed property.
  \<^item> \<open>budget\<close>: what a task may add to the focus calls.
\<close>

section \<open>Tasks and runs\<close>

text \<open>
  A task is either a call of one of the script's functions by the driver, or
  a batch of changes the page makes to its document on its own. The observers
  are notified at the end of every task. A call that throws ends the task
  with the state reached.
\<close>

datatype task = Call api | PageChange "mutation list"

fun perform :: "task \<Rightarrow> page \<Rightarrow> page" where
  "perform (Call a) s = state_of (call a s)"
| "perform (PageChange ms) s = fold mutate ms s"

definition run_task :: "task \<Rightarrow> page \<Rightarrow> page" where
  "run_task t s = notify (perform t s)"

definition run :: "task list \<Rightarrow> page \<Rightarrow> page" where
  "run ts s = fold run_task ts s"

inductive reaches :: "page \<Rightarrow> page \<Rightarrow> bool" for s0 where
  reaches_start: "reaches s0 s0"
| reaches_task: "reaches s0 s \<Longrightarrow> reaches s0 (run_task t s)"

inductive_cases reaches_cases: "reaches s0 s"

text \<open>The last task of a run that has one.\<close>

lemma reaches_last:
  assumes "reaches s0 s" and "s \<noteq> s0"
  obtains s' t where "reaches s0 s'" and "s = run_task t s'"
  using assms by (auto elim: reaches_cases)

lemma run_Nil [simp]: "run [] s = s"
  by (simp add: run_def)

lemma run_Cons [simp]: "run (t # ts) s = run ts (run_task t s)"
  by (simp add: run_def)

lemma run_append [simp]: "run (ts @ us) s = run us (run ts s)"
  by (simp add: run_def)

lemma reaches_run: "reaches s0 (run ts s0)"
  by (induction ts rule: rev_induct) (auto intro: reaches.intros)

lemma reaches_iff_run: "reaches s0 s \<longleftrightarrow> (\<exists>ts. s = run ts s0)"
proof
  assume "reaches s0 s"
  then show "\<exists>ts. s = run ts s0"
  proof induction
    case reaches_start
    have "s0 = run [] s0" by simp
    then show ?case ..
  next
    case (reaches_task s t)
    from reaches_task.IH obtain ts where "s = run ts s0" ..
    then have "run_task t s = run (ts @ [t]) s0" by simp
    then show ?case ..
  qed
next
  assume "\<exists>ts. s = run ts s0"
  then show "reaches s0 s" by (auto intro: reaches_run)
qed

section \<open>The field the waiter is for\<close>

text \<open>
  The first \<^verbatim>\<open>input[name="passwd"]\<close> of the document, if it has a height. The
  theorems on runs state their conditions with it, in their own words and not
  in those of the callback; \<open>shown_field_None\<close> is the link between the two.
\<close>

definition shown_field :: "document \<Rightarrow> elem option" where
  "shown_field d =
     (case querySelector passwd_selector d of
        None \<Rightarrow> None
      | Some t \<Rightarrow> if 0 < offsetHeight t then Some t else None)"

lemma shown_field_None [simp]:
  "shown_field d = None \<longleftrightarrow> \<not> textbox_visible (querySelector passwd_selector d)"
  by (simp add: shown_field_def textbox_visible_def split: option.split)

lemma shown_field_visible:
  "shown_field d \<noteq> None \<longleftrightarrow> textbox_visible (querySelector passwd_selector d)"
  by simp

lemma shown_field_Some:
  "shown_field d = Some t \<longleftrightarrow> querySelector passwd_selector d = Some t \<and> 0 < offsetHeight t"
  by (auto simp: shown_field_def split: option.split)

section \<open>Properties of the observers that every task keeps\<close>

lemma call_observers:
  assumes "script_closed P" and "P (observers s)"
  shows "P (observers (state_of (call a s)))"
proof (cases a)
  case ClickUniversityLoginButton
  with assms show ?thesis
    by (simp add: clickUniversityLoginButton_def click_observers split: option.split)
next
  case ClickUserSelectionTile
  from assms have "P (observers (click e s))" for e by (simp add: click_observers)
  with assms ClickUserSelectionTile show ?thesis
    by (simp add: clickUserSelectionTile_cases waitForTextboxToAppear_cases script_closed_def
        split: option.split list.split)
next
  case FocusTextbox
  with assms show ?thesis by (simp add: focusTextbox_def Let_def focus_observers)
qed

lemma run_task_observers:
  "script_closed P \<Longrightarrow> P (observers s) \<Longrightarrow> P (observers (run_task t s))"
  by (cases t) (simp_all add: run_task_def notify_observers call_observers fold_mutate_observers)

lemma reaches_observers:
  "reaches s0 s \<Longrightarrow> script_closed P \<Longrightarrow> P (observers s0) \<Longrightarrow> P (observers s)"
  by (induction rule: reaches.induct) (simp_all add: run_task_observers)

section \<open>The observers of the script\<close>

text \<open>
  Every observer the script creates is idle, or watches one element with the
  options of \<^verbatim>\<open>waitForTextboxToAppear\<close>; its queue holds child-list records only.
\<close>

definition armed :: "observer \<Rightarrow> bool" where
  "armed ob \<longleftrightarrow> map snd (registered ob) = [watch_options]"

definition script_observer :: "observer \<Rightarrow> bool" where
  "script_observer ob \<longleftrightarrow>
     (ob = idle \<or> armed ob) \<and> list_all (\<lambda>r. mtype r = ChildList) (queue ob)"

lemma script_observer_idle [simp]: "script_observer idle"
  by (simp add: script_observer_def)

lemma armed_register [simp]: "armed (register b watch_options idle)"
  by (simp add: armed_def)

lemma script_observer_register [simp]: "script_observer (register b watch_options idle)"
  by (simp add: script_observer_def)

lemma armed_childList_only: "armed ob \<Longrightarrow> childList_only ob"
  by (cases "registered ob") (auto simp: armed_def childList_only_def watch_options_def)

lemma armed_connected: "armed ob \<Longrightarrow> connected ob"
  by (auto simp: armed_def connected_def)

lemma script_observer_interested:
  "script_observer ob \<Longrightarrow> interested d r ob \<Longrightarrow> mtype r = ChildList"
  using interested_childList_only armed_childList_only not_interested_disconnected [of idle]
  by (auto simp: script_observer_def)

lemma script_observer_enqueue:
  assumes "script_observer ob" and "interested d r ob"
  shows "script_observer (ob\<lparr>queue := queue ob @ [r]\<rparr>)"
proof -
  from assms(2) have "connected ob" by (rule interested_connected)
  then have "ob \<noteq> idle" by auto
  with assms(1) have "armed ob" by (simp add: script_observer_def)
  moreover from assms have "mtype r = ChildList" by (rule script_observer_interested)
  ultimately show ?thesis using assms(1) by (simp add: script_observer_def armed_def)
qed

lemma script_observer_clear: "script_observer ob \<Longrightarrow> script_observer (ob\<lparr>queue := []\<rparr>)"
  by (auto simp: script_observer_def armed_def idle_def)

lemma list_all_modify_nth:
  "list_all P xs \<Longrightarrow> (\<And>x. P x \<Longrightarrow> P (f x)) \<Longrightarrow> list_all P (modify_nth i f xs)"
  by (auto simp: modify_nth_def list_all_length nth_list_update)

lemma script_observers_closed: "script_closed (list_all script_observer)"
  unfolding script_closed_def page_closed_def
proof (intro conjI allI impI)
  fix d r obs
  assume "list_all script_observer obs"
  then show "list_all script_observer (enqueue d r obs)"
    by (induction obs) (simp_all add: enqueue_def script_observer_enqueue)
qed (simp_all add: list_all_modify_nth script_observer_clear)

text \<open>An idle observer stays idle.\<close>

lemma not_interested_idle [simp]: "\<not> interested d r idle"
  by (simp add: not_interested_disconnected)

lemma idle_clear [simp]: "idle\<lparr>queue := []\<rparr> = idle"
  by (simp add: idle_def)

lemma idle_closed: "script_closed (\<lambda>obs. i < length obs \<and> obs ! i = idle)"
  unfolding script_closed_def page_closed_def
  by (auto simp: enqueue_def nth_modify_nth nth_append)

section \<open>What a task may add to the focus calls\<close>

text \<open>What a task may add to the focus calls: one for a direct focus, one for a watcher.\<close>

fun budget :: "task \<Rightarrow> nat" where
  "budget (Call ClickUserSelectionTile) = 1"
| "budget (Call FocusTextbox) = 1"
| "budget (Call ClickUniversityLoginButton) = 0"
| "budget (PageChange ms) = 0"

lemma n_live_new: "n_live (s\<lparr>observers := observers s @ [ob]\<rparr>) \<le> Suc (n_live s)"
  by (simp add: n_live_def)

lemma wait_owed:
  "focus_calls (state_of (waitForTextboxToAppear s)) + n_live (state_of (waitForTextboxToAppear s))
     \<le> Suc (focus_calls s + n_live s)"
  using n_live_new [of s]
  by (simp add: waitForTextboxToAppear_cases focus_calls_def split: option.split)

lemma perform_owed:
  "focus_calls (perform t s) + n_live (perform t s) \<le> focus_calls s + n_live s + budget t"
proof (cases t)
  case (Call a)
  show ?thesis
  proof (cases a)
    case ClickUniversityLoginButton
    with Call show ?thesis
      by (simp add: clickUniversityLoginButton_def split: option.split)
  next
    case ClickUserSelectionTile
    with Call wait_owed [of "click e s" for e] show ?thesis
      by (simp add: clickUserSelectionTile_cases split: list.split)
  next
    case FocusTextbox
    with Call show ?thesis by (simp add: focusTextbox_def Let_def)
  qed
next
  case (PageChange ms)
  then show ?thesis by simp
qed

lemma run_task_owed:
  "focus_calls (run_task t s) + n_live (run_task t s) \<le> focus_calls s + n_live s + budget t"
  using notify_owed [of "perform t s"] perform_owed [of t s] by (simp add: run_task_def)

end
