(* ===== verification/Watcher.thy ===== *)
theory Watcher
  imports System
begin

text \<open>
  The watcher in the runs of the script: what it is told about, what it does
  when the field appears, what happens while the field stays hidden, and what
  it does not notice.

  \<^item> A batch of changes is \<open>noticed\<close> by a watcher when one of its changes
    inserts or removes a child below the watched element; exactly then the
    watcher holds a record at the end of the batch (\<open>fold_mutate_watcher\<close>).
    If the field is visible at the end of the batch the watcher fires
    (\<open>watched_change_fires\<close>).
  \<^item> While the field is hidden at the end of every task (\<open>hidden_run\<close>), all
    registrations are kept.
  \<^item> The fixtures: the account picker after one call of
    \<open>clickUserSelectionTile\<close> (\<open>armed_picker\<close>), after two (\<open>twice_armed\<close>), and
    once the field is shown and focused (\<open>focused_picker\<close>).
  \<^item> The theorems on runs: appearance, waiting, the price of a focus call, the
    invariants of the observers, and the changes the watcher misses.
\<close>

section \<open>Which changes a watcher is told about\<close>

lemma mutate_queue:
  "i < length (observers s) \<Longrightarrow>
     queue (observers (mutate m s) ! i)
       = queue (observers s ! i) @
          (case record_of m (doc s) of
             None \<Rightarrow> []
           | Some r \<Rightarrow> if interested (doc s) r (observers s ! i) then [r] else [])"
  by (simp add: mutate_def Let_def enqueue_def split: option.split)

lemma watching_interested:
  "registered ob = [(b, watch_options)] \<Longrightarrow>
     interested d r ob \<longleftrightarrow> mtype r = ChildList \<and> (b = target r \<or> target r \<in> set (subtree_ids d b))"
  by (cases "mtype r") (auto simp: interested_def watch_options_def)

text \<open>
  Whether a batch of changes is noticed by a watcher of the element \<open>b\<close>: some
  change of the batch creates a child-list record (it inserts or removes a
  child) for an element that is in the subtree of \<open>b\<close> at the time of the
  change, that is, in the document the changes before it have made.
\<close>

definition child_change_below :: "nat \<Rightarrow> mutation \<Rightarrow> document \<Rightarrow> bool" where
  "child_change_below b m d \<longleftrightarrow>
     (case record_of m d of
        None \<Rightarrow> False
      | Some r \<Rightarrow> mtype r = ChildList \<and> target r \<in> set (subtree_ids d b))"

fun noticed :: "nat \<Rightarrow> mutation list \<Rightarrow> document \<Rightarrow> bool" where
  "noticed b [] d \<longleftrightarrow> False"
| "noticed b (m # ms) d \<longleftrightarrow> child_change_below b m d \<or> noticed b ms (apply_mutation m d)"

lemma noticed_append:
  "noticed b (ms @ ms') d \<longleftrightarrow> noticed b ms d \<or> noticed b ms' (fold apply_mutation ms d)"
  by (induction ms arbitrary: d) auto

lemma child_change_type: "child_change_below b m d \<Longrightarrow> record_type m = Some ChildList"
  by (auto simp: child_change_below_def split: option.splits dest: record_of_SomeD)

lemma not_noticed_other [simp]:
  "list_all (\<lambda>m. record_type m \<noteq> Some ChildList) ms \<Longrightarrow> \<not> noticed b ms d"
  by (induction ms arbitrary: d) (auto dest: child_change_type)

text \<open>An inserted child is always noticed; a removed child when there was one.\<close>

lemma child_change_InsertChild [simp]:
  "child_change_below b (InsertChild p k n) d \<longleftrightarrow> p \<in> set (subtree_ids d b)"
  by (auto simp: child_change_below_def record_of_InsertChild subtree_ids_lookup
      split: option.splits dest: record_of_SomeD)

lemma child_change_RemoveChild [simp]:
  "child_change_below b (RemoveChild p k) d
     \<longleftrightarrow> p \<in> set (subtree_ids d b) \<and> k < length (child_nodes d p)"
  by (auto simp: child_change_below_def record_of_def subtree_ids_lookup split: option.splits)

lemma child_change_other [simp]:
  "\<not> child_change_below b (SetAttribute i a v) d"
  "\<not> child_change_below b (SetText p k t) d"
  "\<not> child_change_below b (Relayout i h f) d"
  by (auto dest: child_change_type)

text \<open>One change: the watcher gets a record exactly for a child-list change below \<open>b\<close>.\<close>

lemma watcher_record:
  assumes "registered ob = [(b, watch_options)]"
  shows "(case record_of m d of None \<Rightarrow> [] | Some r \<Rightarrow> if interested d r ob then [r] else [])
    = (if child_change_below b m d then [\<lparr>mtype = ChildList, target = subject m\<rparr>] else [])"
proof (cases "record_of m d")
  case None
  then show ?thesis by (simp add: child_change_below_def)
next
  case (Some r)
  then have r: "target r = subject m" and there: "lookup d (target r) \<noteq> None"
    by (auto dest: record_of_SomeD simp: lookup_None_iff)
  from subtree_ids_self [OF there]
  have "b = target r \<or> target r \<in> set (subtree_ids d b) \<longleftrightarrow> target r \<in> set (subtree_ids d b)"
    by auto
  with assms have "interested d r ob \<longleftrightarrow> mtype r = ChildList \<and> target r \<in> set (subtree_ids d b)"
    by (simp add: watching_interested)
  with Some r show ?thesis by (cases r) (auto simp: child_change_below_def)
qed

lemma mutate_watcher:
  assumes "oid < length (observers s)" and "registered (observers s ! oid) = [(b, watch_options)]"
  shows "queue (observers (mutate m s) ! oid)
    = queue (observers s ! oid) @
        (if child_change_below b m (doc s) then [\<lparr>mtype = ChildList, target = subject m\<rparr>] else [])"
  using assms by (simp only: mutate_queue watcher_record)

text \<open>
  A batch: the watcher holds a child-list record at the end exactly when it
  held one before or the batch is noticed, and its queue is empty at the end
  exactly when it was empty and the batch is not noticed.
\<close>

lemma fold_mutate_watcher:
  assumes "oid < length (observers s)" and "registered (observers s ! oid) = [(b, watch_options)]"
  shows "list_ex (\<lambda>r. mtype r = ChildList) (queue (observers (fold mutate ms s) ! oid))
      \<longleftrightarrow> list_ex (\<lambda>r. mtype r = ChildList) (queue (observers s ! oid)) \<or> noticed b ms (doc s)"
    and "queue (observers (fold mutate ms s) ! oid) = []
      \<longleftrightarrow> queue (observers s ! oid) = [] \<and> \<not> noticed b ms (doc s)"
  using assms
proof (induction ms arbitrary: s)
  case Nil
  { case 1 show ?case by simp }
  { case 2 show ?case by simp }
next
  case (Cons m ms)
  { case 1
    then have "oid < length (observers (mutate m s))"
      and "registered (observers (mutate m s) ! oid) = [(b, watch_options)]" by simp_all
    from Cons.IH(1) [OF this] 1 show ?case by (auto simp: mutate_watcher) }
  { case 2
    then have "oid < length (observers (mutate m s))"
      and "registered (observers (mutate m s) ! oid) = [(b, watch_options)]" by simp_all
    from Cons.IH(2) [OF this] 2 show ?case by (auto simp: mutate_watcher) }
qed

text \<open>
  A child inserted or removed anywhere below the watched element leaves a
  child-list record in the watcher's queue, whatever else the batch does.
\<close>

lemma watched_change_queued:
  assumes "oid < length (observers s)"
    and "registered (observers s ! oid) = [(b, watch_options)]"
    and "noticed b ms (doc s)"
  shows "list_ex (\<lambda>r. mtype r = ChildList) (queue (observers (fold mutate ms s) ! oid))"
  using assms by (simp add: fold_mutate_watcher)

text \<open>If the field is visible at the end of such a batch, the watcher will fire.\<close>

lemma watched_change_fires:
  assumes "oid < length (observers s)"
    and "registered (observers s ! oid) = [(b, watch_options)]"
    and "noticed b ms (doc s)"
    and "querySelector passwd_selector (doc (fold mutate ms s)) = Some t"
    and "offsetHeight t > 0"
  shows "fires oid (fold mutate ms s)"
proof -
  from assms(1-3)
  have "list_ex (\<lambda>r. mtype r = ChildList) (queue (observers (fold mutate ms s) ! oid))"
    by (rule watched_change_queued)
  with assms(1,4,5) show ?thesis by (simp add: fires_def)
qed

section \<open>Watchers of one element\<close>

text \<open>
  Every call of \<open>waitForTextboxToAppear\<close> registers its observer on the body,
  so the observers of a page whose body stays the same are idle or watch that
  one element.
\<close>

definition watching :: "nat \<Rightarrow> observer \<Rightarrow> bool" where
  "watching b ob \<longleftrightarrow> ob = idle \<or> registered ob = [(b, watch_options)]"

lemma grows_idle: "grows idle ob \<Longrightarrow> ob = idle"
  by (simp add: grows_def idle_def connected_def)

lemma fold_mutate_idle:
  assumes "i < length (observers s)" and "observers s ! i = idle"
  shows "observers (fold mutate ms s) ! i = idle"
proof -
  from fold_mutate_grows [of s ms] assms(1)
  have "grows (observers s ! i) (observers (fold mutate ms s) ! i)"
    by (simp add: list_all2_conv_all_nth)
  with assms(2) show ?thesis by (simp add: grows_idle)
qed

section \<open>Registrations while the field stays hidden\<close>

text \<open>
  A run is hidden when, after the work of each of its tasks, the password field
  is missing or has no height. In such a run no callback ever disconnects.
\<close>

fun hidden_run :: "task list \<Rightarrow> page \<Rightarrow> bool" where
  "hidden_run [] s = True"
| "hidden_run (t # ts) s =
     (shown_field (doc (perform t s)) = None \<and> hidden_run ts (run_task t s))"

fun_cases hidden_run_ConsE: "hidden_run (t # ts) s"

lemma grows_registered:
  "list_all2 grows obs obs' \<Longrightarrow> map registered obs' = map registered obs"
  by (induction rule: list_all2_induct) (simp_all add: grows_def)

lemma registered_page [simp]:
  "map registered (observers (click e s)) = map registered (observers s)"
  "map registered (observers (focus e s)) = map registered (observers s)"
  "map registered (observers (fold mutate ms s)) = map registered (observers s)"
  by (simp_all add: grows_registered click_grows focus_grows fold_mutate_grows)

lemma registered_drain [simp]: "map registered (observers (drain s)) = map registered (observers s)"
  by (simp add: drain_def)

lemma call_registered:
  "prefix (map registered (observers s)) (map registered (observers (state_of (call a s))))"
proof (cases a)
  case ClickUniversityLoginButton
  then show ?thesis
    by (simp add: clickUniversityLoginButton_def split: option.split)
next
  case ClickUserSelectionTile
  then show ?thesis
    by (simp add: clickUserSelectionTile_cases waitForTextboxToAppear_cases
        split: list.split option.split)
next
  case FocusTextbox
  then show ?thesis by (simp add: focusTextbox_def Let_def)
qed

lemma perform_registered:
  "prefix (map registered (observers s)) (map registered (observers (perform t s)))"
  by (cases t) (simp_all add: call_registered)

lemma hidden_task_registered:
  assumes "\<not> textbox_visible (querySelector passwd_selector (doc (perform t s)))"
  shows "prefix (map registered (observers s)) (map registered (observers (run_task t s)))"
  using assms perform_registered [of s t] by (simp add: run_task_def notify_waits)

section \<open>Fixtures: the account picker with a watcher\<close>

definition armed_picker :: page where
  "armed_picker = run_task (Call ClickUserSelectionTile) (page_of picker_doc)"

definition reveal_on_click :: "action \<Rightarrow> document \<Rightarrow> mutation list" where
  "reveal_on_click a d =
     (case a of Click i \<Rightarrow> [Relayout 6 36 True, InsertChild 3 0 (Text ''Password'')] | Focus i \<Rightarrow> [])"

lemma armed_picker_eq:
  "armed_picker =
     \<lparr>doc = picker_doc, activeElement = None,
      observers = [\<lparr>registered = [(3, watch_options)], queue = []\<rparr>],
      actions = [Click 4], listeners = quiet\<rparr>"
  by (simp add: armed_picker_def run_task_def clickUserSelectionTile_cases
      waitForTextboxToAppear_cases fixture_queries fixture_body page_of_def click_def
      run_listeners_def quiet_def disabled_control_def tile_a_def getAttribute_def
      register_def idle_def notify_quiet pending_def)

lemma picker_subtree_ids: "subtree_ids picker_doc 3 = [3, 4, 5, 6]"
  by (simp add: subtree_ids_def has_id_def fixture_defs)

lemma picker_lookup_body: "lookup picker_doc 3 = Some (shown 3 ''body'' [] 600)"
  by (simp add: lookup_def picker_doc_elements fixture_defs)

text \<open>The facts that evaluate a task on a concrete page.\<close>

lemmas run_eval = run_task_def mutate_eval keep_focus_def record_of_def watching_interested
  notify_step notify_quiet pending_def notify_round_def deliver_eq fires_def the_textbox_def
  clear_queue_def modify_nth_def disconnect_def focus_def click_def run_listeners_def quiet_def

text \<open>The picker once the page has shown the field, and the watcher has focused it.\<close>

definition shown_doc :: document where
  "shown_doc = fold apply_mutation [InsertChild 3 0 (Text ''Password''), Relayout 6 36 True] picker_doc"

definition focused_picker :: page where
  "focused_picker =
     run_task (PageChange [InsertChild 3 0 (Text ''Password''), Relayout 6 36 True]) armed_picker"

lemma shown_doc_elements:
  "doc_elements shown_doc =
     [shown 1 ''html'' [] 600, hidden 2 ''head'' [], shown 3 ''body'' [] 600, tile_a, tile_b, passwd_shown]"
  by (simp add: shown_doc_def apply_mutation_def insert_at_def fixture_defs)

lemma shown_doc_textbox: "querySelector passwd_selector shown_doc = Some passwd_shown"
  by (simp add: querySelector_def shown_doc_elements sel_defs fixture_defs getAttribute_def)

lemma picker_change_queued:
  "fold mutate [InsertChild 3 0 (Text ''Password''), Relayout 6 36 True] armed_picker
     = \<lparr>doc = shown_doc, activeElement = None,
        observers = [\<lparr>registered = [(3, watch_options)], queue = [\<lparr>mtype = ChildList, target = 3\<rparr>]\<rparr>],
        actions = [Click 4], listeners = quiet\<rparr>"
  by (simp add: armed_picker_eq shown_doc_def run_eval picker_subtree_ids picker_lookup_body)

lemma focused_picker_eq:
  "focused_picker =
     \<lparr>doc = shown_doc, activeElement = Some 6, observers = [idle],
      actions = [Click 4, Focus 6], listeners = quiet\<rparr>"
  unfolding focused_picker_def run_task_def perform.simps picker_change_queued
  by (simp add: run_eval shown_doc_textbox passwd_shown_def)

text \<open>The account picker after two calls of \<open>clickUserSelectionTile\<close>.\<close>

definition twice_armed :: page where
  "twice_armed = run [Call ClickUserSelectionTile, Call ClickUserSelectionTile] (page_of picker_doc)"

lemma twice_armed_eq:
  "twice_armed =
     \<lparr>doc = picker_doc, activeElement = None,
      observers = [\<lparr>registered = [(3, watch_options)], queue = []\<rparr>,
                   \<lparr>registered = [(3, watch_options)], queue = []\<rparr>],
      actions = [Click 4, Click 4], listeners = quiet\<rparr>"
  unfolding twice_armed_def run_Cons run_Nil armed_picker_def [symmetric]
  by (simp add: armed_picker_eq run_task_def clickUserSelectionTile_cases
      waitForTextboxToAppear_cases fixture_queries fixture_body click_def
      run_listeners_def quiet_def disabled_control_def tile_a_def getAttribute_def
      register_def idle_def notify_quiet pending_def)

section \<open>The watcher in a run\<close>

text \<open>
  C7. The watcher does its job. Let an observer of the script watch the
  element \<open>b\<close> and let the page make a batch of changes, one of which inserts
  or removes a child somewhere below \<open>b\<close>. If, at the end of the batch, the
  first \<^verbatim>\<open>input[name="passwd"]\<close> of the document has a height, then the first
  thing that happens when the observers are notified is a \<^verbatim>\<open>focus()\<close> call on
  that field, whatever the page's listeners do.
\<close>

theorem appearance_is_noticed:
  assumes "oid < length (observers s)"
    and "registered (observers s ! oid) = [(b, watch_options)]"
    and "noticed b ms (doc s)"
    and "querySelector passwd_selector (doc (fold mutate ms s)) = Some t"
    and "offsetHeight t > 0"
  shows "\<exists>rest. actions (run_task (PageChange ms) s) = actions s @ Focus (nid t) # rest"
  using notify_fires [OF watched_change_fires [OF assms]] assms(4)
  by (simp add: run_task_def the_textbox_def)

theorem appearance_is_noticed_witness:
  "\<exists>rest. actions (run_task (PageChange [Relayout 6 36 True, InsertChild 3 0 (Text ''Password'')])
             armed_picker)
     = actions armed_picker @ Focus (nid passwd_shown) # rest"
proof (rule appearance_is_noticed [where oid = 0 and b = 3])
  show "noticed 3 [Relayout 6 36 True, InsertChild 3 0 (Text ''Password'')] (doc armed_picker)"
    by (simp add: armed_picker_eq apply_mutation_def subtree_ids_def has_id_def fixture_defs)
  show "querySelector passwd_selector
      (doc (fold mutate [Relayout 6 36 True, InsertChild 3 0 (Text ''Password'')] armed_picker))
    = Some passwd_shown"
    by (simp add: armed_picker_eq apply_mutation_def insert_at_def querySelector_def
        fixture_defs sel_defs getAttribute_def)
qed (simp_all add: armed_picker_eq passwd_shown_def)

text \<open>
  The watcher waits. If the password field is missing or has no height
  when a task has done its work, notifying the observers only takes their
  queues: no call is made, nothing is focused, the document is unchanged and
  every observer keeps its registrations. There is no timeout: this holds for
  every task, for as long as the field stays hidden.
\<close>

theorem watcher_waits_while_hidden:
  "shown_field (doc (perform t s)) = None \<Longrightarrow> run_task t s = drain (perform t s)"
  by (simp add: run_task_def notify_waits)

theorem watcher_waits_while_hidden_witness:
  "run_task (PageChange [InsertChild 3 0 (Text ''Loading'')]) armed_picker
     = drain (perform (PageChange [InsertChild 3 0 (Text ''Loading'')]) armed_picker)"
  by (rule watcher_waits_while_hidden)
    (simp add: armed_picker_eq apply_mutation_def insert_at_def
      querySelector_def fixture_defs sel_defs getAttribute_def)

text \<open>
  C20. The leak. In a run in which the password field is missing or has no
  height after the work of every task, every observer keeps its registration
  to the end, and the registrations of new observers are added: without a
  visible field nothing ever disconnects a watcher, there is no timeout.
\<close>

theorem watchers_are_never_released:
  "hidden_run ts s \<Longrightarrow>
     prefix (map registered (observers s)) (map registered (observers (run ts s)))"
proof (induction ts arbitrary: s)
  case Nil
  show ?case by simp
next
  case (Cons t ts)
  from Cons.prems have "prefix (map registered (observers s)) (map registered (observers (run_task t s)))"
    by (simp add: hidden_task_registered)
  also from Cons.prems have "prefix \<dots> (map registered (observers (run ts (run_task t s))))"
    by (simp add: Cons.IH)
  finally show ?case by simp
qed

theorem watchers_are_never_released_witness:
  "prefix (map registered (observers armed_picker))
     (map registered (observers (run [PageChange [InsertChild 3 0 (Text ''Loading'')],
        Call ClickUniversityLoginButton] armed_picker)))"
proof (rule watchers_are_never_released)
  have hidden: "querySelector passwd_selector
      (apply_mutation (InsertChild 3 0 (Text ''Loading'')) picker_doc) = Some passwd_hidden"
    by (simp add: apply_mutation_def insert_at_def querySelector_def fixture_defs sel_defs
        getAttribute_def)
  then have "run_task (PageChange [InsertChild 3 0 (Text ''Loading'')]) armed_picker
      = drain (fold mutate [InsertChild 3 0 (Text ''Loading'')] armed_picker)"
    by (simp add: run_task_def notify_waits armed_picker_eq passwd_hidden_def)
  with hidden show "hidden_run [PageChange [InsertChild 3 0 (Text ''Loading'')],
      Call ClickUniversityLoginButton] armed_picker"
    by (simp add: armed_picker_eq passwd_hidden_def clickUniversityLoginButton_def)
      (simp add: apply_mutation_def insert_at_def querySelector_def fixture_defs sel_defs
        getAttribute_def)
qed

text \<open>
  What the work of a task adds to the focus calls, before the observers are
  notified: one call if the task is a call of \<open>focusTextbox\<close>, nothing otherwise.
\<close>

lemma perform_focus_calls:
  "focus_calls (perform t s) \<le> focus_calls s + (if t = Call FocusTextbox then 1 else 0)"
proof (cases t)
  case (Call a)
  then show ?thesis
    by (cases a)
      (simp_all add: focus_calls_def clickUniversityLoginButton_def clickUserSelectionTile_cases
        waitForTextboxToAppear_cases focusTextbox_cases split: option.split list.split)
next
  case (PageChange ms)
  then show ?thesis by (simp add: focus_calls_def)
qed

text \<open>
  C21. Nothing is focused while the field is hidden. In a run in which the
  password field is missing or has no height after the work of every task,
  on any page, with any observers and any listeners, the only \<^verbatim>\<open>focus()\<close> calls
  are those of \<open>focusTextbox\<close>: the log has at most one more focus call for
  each call of \<open>focusTextbox\<close> by the driver, and none for anything else. The
  callback never focuses a field that it finds without a height, however
  many records it is given and however often it is called.
\<close>

theorem nothing_focused_while_hidden:
  "hidden_run ts s \<Longrightarrow>
     focus_calls (run ts s) \<le> focus_calls s + count_list ts (Call FocusTextbox)"
proof (induction ts arbitrary: s)
  case Nil
  show ?case by simp
next
  case (Cons t ts)
  from Cons.prems have hidden: "shown_field (doc (perform t s)) = None"
    and rest: "hidden_run ts (run_task t s)"
    by simp_all
  from hidden have "focus_calls (run_task t s) = focus_calls (perform t s)"
    by (simp add: run_task_def notify_waits focus_calls_def)
  with Cons.IH [OF rest] perform_focus_calls [of t s] show ?case
    by (auto split: if_splits)
qed

theorem nothing_focused_while_hidden_witness:
  "focus_calls (run [PageChange [InsertChild 3 0 (Text ''Loading'')], Call FocusTextbox,
       Call ClickUniversityLoginButton] armed_picker)
     \<le> focus_calls armed_picker
        + count_list [PageChange [InsertChild 3 0 (Text ''Loading'')], Call FocusTextbox,
            Call ClickUniversityLoginButton] (Call FocusTextbox)"
proof (rule nothing_focused_while_hidden)
  have hidden: "querySelector passwd_selector
      (apply_mutation (InsertChild 3 0 (Text ''Loading'')) picker_doc) = Some passwd_hidden"
    by (simp add: apply_mutation_def insert_at_def querySelector_def fixture_defs sel_defs
        getAttribute_def)
  then have "run_task (PageChange [InsertChild 3 0 (Text ''Loading'')]) armed_picker
      = drain (fold mutate [InsertChild 3 0 (Text ''Loading'')] armed_picker)"
    by (simp add: run_task_def notify_waits armed_picker_eq passwd_hidden_def)
  with hidden show "hidden_run [PageChange [InsertChild 3 0 (Text ''Loading'')], Call FocusTextbox,
      Call ClickUniversityLoginButton] armed_picker"
    by (simp add: armed_picker_eq passwd_hidden_def clickUniversityLoginButton_def
        focusTextbox_cases focus_def Let_def run_task_def notify_waits)
      (simp add: apply_mutation_def insert_at_def querySelector_def fixture_defs sel_defs
        getAttribute_def)
qed

text \<open>
  C10. Every focus call is paid for: over any run, the number of \<^verbatim>\<open>focus()\<close> calls
  plus the number of observers that are still registered or hold records
  grows by at most one for each call of \<^verbatim>\<open>focusTextbox\<close> and each call of
  \<^verbatim>\<open>clickUserSelectionTile\<close>, and by nothing else. So a watcher focuses at most
  once, and nothing the page does on its own adds a focus call.
\<close>

theorem focus_calls_are_paid_for:
  "focus_calls (run ts s) + n_live (run ts s) \<le> focus_calls s + n_live s + sum_list (map budget ts)"
proof (induction ts arbitrary: s)
  case Nil
  show ?case by simp
next
  case (Cons t ts)
  from Cons [of "run_task t s"] run_task_owed [of t s] show ?case by simp
qed

text \<open>
  C22. A disconnected observer is never called again: an observer that is idle
  stays idle through every run, whatever the page and the driver do, so no
  record is ever queued for it and its callback never runs.
\<close>

theorem disconnected_stays_idle:
  assumes "reaches s0 s" and "i < length (observers s0)" and "observers s0 ! i = idle"
  shows "i < length (observers s) \<and> observers s ! i = idle \<and> i \<notin> set (pending s)"
proof -
  from assms(2,3) have "i < length (observers s) \<and> observers s ! i = idle"
    using reaches_observers [OF assms(1) idle_closed, of i] by simp
  then show ?thesis by (simp add: pending_def)
qed

theorem disconnected_stays_idle_witness:
  "0 < length (observers (run_task (PageChange [InsertChild 3 0 (Text ''Signing in'')]) focused_picker))
     \<and> observers (run_task (PageChange [InsertChild 3 0 (Text ''Signing in'')]) focused_picker) ! 0 = idle
     \<and> 0 \<notin> set (pending (run_task (PageChange [InsertChild 3 0 (Text ''Signing in'')]) focused_picker))"
  by (rule disconnected_stays_idle [OF reaches_task [OF reaches_start]])
    (simp_all add: focused_picker_eq)

text \<open>
  The observers of a run are the script's watchers: in every state a run
  reaches from a page whose observers are idle or watch one element for
  child-list records in its subtree (a page without observers is one), every
  observer is again of this kind and holds child-list records only.
\<close>

theorem observers_are_watchers:
  assumes "reaches s0 s" and "list_all script_observer (observers s0)"
  shows "list_all script_observer (observers s)"
  using assms(2) by (rule reaches_observers [OF assms(1) script_observers_closed])

theorem observers_are_watchers_witness: "list_all script_observer (observers armed_picker)"
  unfolding armed_picker_def
  by (rule observers_are_watchers [OF reaches_task [OF reaches_start]]) (simp add: page_of_def)

section \<open>What the watcher does not notice\<close>

text \<open>
  The script's observers ask for child-list records only, so a change of
  another kind leaves them as they are.
\<close>

lemma enqueue_uninterested:
  "list_all (\<lambda>ob. \<not> interested d r ob) obs \<Longrightarrow> enqueue d r obs = obs"
  by (induction obs) simp_all

lemma mutate_unwatched:
  assumes "record_type m \<noteq> Some ChildList" and "list_all script_observer (observers s)"
  shows "observers (mutate m s) = observers s"
proof (cases "record_of m (doc s)")
  case None
  then show ?thesis by (simp add: mutate_eval)
next
  case (Some r)
  with assms(1) have "mtype r \<noteq> ChildList" by (auto dest: record_of_SomeD)
  with assms(2) have "list_all (\<lambda>ob. \<not> interested (doc s) r ob) (observers s)"
    by (auto simp: list_all_iff dest: script_observer_interested)
  with Some show ?thesis by (simp add: mutate_eval enqueue_uninterested)
qed

lemma fold_mutate_unwatched:
  "list_all (\<lambda>m. record_type m \<noteq> Some ChildList) ms \<Longrightarrow>
     list_all script_observer (observers s) \<Longrightarrow> observers (fold mutate ms s) = observers s"
  by (induction ms arbitrary: s) (simp_all add: mutate_unwatched)

lemma pending_cong: "observers s' = observers s \<Longrightarrow> pending s' = pending s"
  by (simp add: pending_def)

lemma run_task_unwatched:
  assumes "list_all (\<lambda>m. record_type m \<noteq> Some ChildList) ms"
    and "list_all script_observer (observers s)" and "pending s = []"
  shows "run_task (PageChange ms) s = fold mutate ms s"
proof -
  from assms(1,2) have obs: "observers (fold mutate ms s) = observers s"
    by (rule fold_mutate_unwatched)
  from assms(3) have "pending (fold mutate ms s) = []" by (simp only: pending_cong [OF obs])
  then show ?thesis by (simp add: run_task_def notify_quiet)
qed

text \<open>
  C35. A change of style is not noticed. The observers of the script are told
  about inserted and removed children only. On a page whose observers are the
  script's, with nothing queued, a batch of changes of any other
  kind (an attribute such as \<^verbatim>\<open>hidden\<close>, \<^verbatim>\<open>style\<close> or \<^verbatim>\<open>class\<close> is set, a text is
  replaced, layout gives an element a height) calls no callback: the log and the observers are as
  before, also when the batch is the one that makes the password field
  visible. The field is then focused only when some later child-list change
  below the body happens to follow.
\<close>

theorem style_change_is_not_noticed:
  assumes "list_all (\<lambda>m. record_type m \<noteq> Some ChildList) ms"
    and "list_all script_observer (observers s)" and "pending s = []"
  shows "actions (run_task (PageChange ms) s) = actions s
    \<and> observers (run_task (PageChange ms) s) = observers s"
  using run_task_unwatched [OF assms] fold_mutate_unwatched [OF assms(1,2)] by simp

theorem style_change_is_not_noticed_witness:
  "actions (run_task (PageChange [SetAttribute 6 ''style'' ''display: block'',
        SetText 3 0 ''Password'', Relayout 6 36 True]) armed_picker) = actions armed_picker
     \<and> observers (run_task (PageChange [SetAttribute 6 ''style'' ''display: block'',
        SetText 3 0 ''Password'', Relayout 6 36 True]) armed_picker) = observers armed_picker"
  by (rule style_change_is_not_noticed) (simp_all add: armed_picker_eq pending_def script_observer_def armed_def)

text \<open>
  C36. A field shown by the click itself is missed. The observer is created
  after \<^verbatim>\<open>click()\<close> has returned and the callback is not run once at the start,
  so on a page without earlier observers the task of \<^verbatim>\<open>clickUserSelectionTile\<close>
  ends with the click as its only action, whatever the page's click listeners
  did to the document, and even when they made the password field visible.
\<close>

theorem synchronous_reveal_is_missed:
  assumes "observers s = []" and "querySelectorAll tile_selector (doc s) = t # ts"
  shows "actions (run_task (Call ClickUserSelectionTile) s) = actions s @ [Click (nid t)]"
proof -
  from assms(1) have "length (observers (click t s)) = 0" by simp
  then have "observers (click t s) = []" by (simp only: length_0_conv)
  with assms(2) have "pending (state_of (clickUserSelectionTile s)) = []"
    and "actions (state_of (clickUserSelectionTile s)) = actions s @ [Click (nid t)]"
    by (simp_all add: clickUserSelectionTile_cases waitForTextboxToAppear_cases pending_def
        split: option.split)
  then show ?thesis by (simp add: run_task_def notify_quiet)
qed

theorem synchronous_reveal_is_missed_witness:
  "actions (run_task (Call ClickUserSelectionTile) ((page_of picker_doc)\<lparr>listeners := reveal_on_click\<rparr>))
     = actions ((page_of picker_doc)\<lparr>listeners := reveal_on_click\<rparr>) @ [Click (nid tile_a)]"
  by (rule synchronous_reveal_is_missed) (simp_all add: page_of_def fixture_queries)

end
