(* ===== verification/Lifecycle.thy ===== *)
theory Lifecycle
  imports Watcher
begin

text \<open>
  The life of the observers as the specification describes it, and the proof
  that every run of the script is a run of it.

  The specification knows an observer only by its life: it is created by a
  call of the tile selector, it watches, and it is destroyed the first time it
  focuses the field, or never. \<open>lifecycle\<close> is that much of a page: which
  observers are watching, and how many focus calls have been made. Its events
  are \<open>Arm\<close> (a new observer, watching or, when the registration failed,
  not), \<open>Fire\<close> (a watching observer focuses and stops) and \<open>Direct\<close> (a focus
  call that is not an observer's). \<open>abs_run\<close> accepts the sequences of events in
  which only watching observers fire.
\<close>

section \<open>The abstract machine\<close>

datatype event = Arm bool | Fire nat | Direct

type_synonym lifecycle = "bool list \<times> nat"

fun abs_do :: "event \<Rightarrow> lifecycle \<Rightarrow> lifecycle option" where
  "abs_do (Arm b) (ws, n) = Some (ws @ [b], n)"
| "abs_do (Fire i) (ws, n) = (if i < length ws \<and> ws ! i then Some (ws[i := False], Suc n) else None)"
| "abs_do Direct (ws, n) = Some (ws, Suc n)"

fun abs_run :: "event list \<Rightarrow> lifecycle \<Rightarrow> lifecycle option" where
  "abs_run [] a = Some a"
| "abs_run (e # es) a = (case abs_do e a of None \<Rightarrow> None | Some a' \<Rightarrow> abs_run es a')"

fun is_fire :: "event \<Rightarrow> bool" where
  "is_fire (Fire i) = True"
| "is_fire e = False"

lemma abs_run_append:
  "abs_run (es @ fs) a = (case abs_run es a of None \<Rightarrow> None | Some a' \<Rightarrow> abs_run fs a')"
  by (induction es arbitrary: a) (simp_all split: option.split)

lemma abs_run_appendI:
  "abs_run es a = Some a' \<Longrightarrow> abs_run fs a' = Some a'' \<Longrightarrow> abs_run (es @ fs) a = Some a''"
  by (simp add: abs_run_append)

lemma abs_do_length:
  "abs_do e (ws, n) = Some (ws', n') \<Longrightarrow> length ws \<le> length ws'"
  by (cases e) (auto split: if_splits)

lemma abs_do_stopped:
  "abs_do e (ws, n) = Some (ws', n') \<Longrightarrow> i < length ws \<Longrightarrow> \<not> ws ! i \<Longrightarrow> i < length ws' \<and> \<not> ws' ! i"
  by (cases e) (auto simp: nth_append nth_list_update split: if_splits)

text \<open>In the abstract machine, an observer that has stopped does not fire.\<close>

lemma stopped_never_fires:
  "abs_run es (ws, n) = Some a' \<Longrightarrow> i < length ws \<Longrightarrow> \<not> ws ! i \<Longrightarrow> Fire i \<notin> set es"
proof (induction es arbitrary: ws n)
  case Nil
  show ?case by simp
next
  case (Cons e es)
  from Cons.prems(1) obtain ws' n' where e: "abs_do e (ws, n) = Some (ws', n')"
    and rest: "abs_run es (ws', n') = Some a'"
    by (auto split: option.splits)
  from abs_do_stopped [OF e Cons.prems(2,3)] have "i < length ws'" and "\<not> ws' ! i" by simp_all
  with Cons.IH [OF rest] have "Fire i \<notin> set es" by simp
  moreover from e Cons.prems(2,3) have "e \<noteq> Fire i" by (auto split: if_splits)
  ultimately show ?case by simp
qed

text \<open>So every observer fires at most once.\<close>

lemma fires_at_most_once: "abs_run es a = Some a' \<Longrightarrow> count_list es (Fire i) \<le> 1"
proof (induction es arbitrary: a)
  case Nil
  show ?case by simp
next
  case (Cons e es)
  obtain ws n where a: "a = (ws, n)" by (cases a)
  from Cons.prems a obtain ws' n' where e: "abs_do e (ws, n) = Some (ws', n')"
    and rest: "abs_run es (ws', n') = Some a'"
    by (auto split: option.splits)
  show ?case
  proof (cases "e = Fire i")
    case True
    with e have "i < length ws'" and "\<not> ws' ! i" by (auto split: if_splits)
    with rest have "Fire i \<notin> set es" by (rule stopped_never_fires)
    with True show ?thesis by (simp add: count_list_0_iff [THEN iffD2])
  next
    case False
    with Cons.IH [OF rest] show ?thesis by simp
  qed
qed

section \<open>The events of a run\<close>

text \<open>
  What a page shows of itself to the abstract machine, and the events that a
  delivery, a notification, a task and a run give rise to. A delivery is a
  \<open>Fire\<close> exactly when its callback focuses the field.
\<close>

definition abstraction :: "page \<Rightarrow> lifecycle" where
  "abstraction s = (map connected (observers s), focus_calls s)"

fun deliver_events :: "nat list \<Rightarrow> page \<Rightarrow> event list" where
  "deliver_events [] s = []"
| "deliver_events (oid # oids) s =
     (if fires oid s then [Fire oid] else []) @ deliver_events oids (deliver oid s)"

function notify_events :: "page \<Rightarrow> event list" where
  "notify_events s =
     (if pending s = [] then [] else deliver_events (pending s) s @ notify_events (notify_round s))"
  by pat_completeness auto
termination
  by (relation "measures [n_live, n_pending]")
    (auto simp: rank_less_def dest: notify_round_rank)

declare notify_events.simps [simp del]

fun call_events :: "api \<Rightarrow> page \<Rightarrow> event list" where
  "call_events ClickUniversityLoginButton s = []"
| "call_events ClickUserSelectionTile s =
     (case querySelectorAll tile_selector (doc s) of
        [] \<Rightarrow> []
      | firstButton # rest \<Rightarrow> [Arm (body (doc (click firstButton s)) \<noteq> None)])"
| "call_events FocusTextbox s =
     (if querySelector passwd_selector (doc s) = None then [] else [Direct])"

fun task_events :: "task \<Rightarrow> page \<Rightarrow> event list" where
  "task_events (Call a) s = call_events a s @ notify_events (perform (Call a) s)"
| "task_events (PageChange ms) s = notify_events (perform (PageChange ms) s)"

fun trace :: "task list \<Rightarrow> page \<Rightarrow> event list" where
  "trace [] s = []"
| "trace (t # ts) s = task_events t s @ trace ts (run_task t s)"

section \<open>What each step shows\<close>

lemma grows_connected: "list_all2 grows obs obs' \<Longrightarrow> map connected obs' = map connected obs"
  by (induction rule: list_all2_induct) (simp_all add: grows_def connected_def)

lemma abstraction_page [simp]:
  "abstraction (fold mutate ms s) = abstraction s"
  "abstraction (click e s) = abstraction s"
  by (simp_all add: abstraction_def grows_connected fold_mutate_grows click_grows)

lemma abstraction_focus [simp]:
  "abstraction (focus e s) = (fst (abstraction s), Suc (snd (abstraction s)))"
  by (simp add: abstraction_def grows_connected focus_grows)

lemma connected_clear [simp]: "connected (ob\<lparr>queue := []\<rparr>) = connected ob"
  by (simp add: connected_def)

lemma abstraction_clear_queue [simp]: "abstraction (clear_queue oid s) = abstraction s"
proof -
  have "map connected (observers (clear_queue oid s)) = map connected (observers s)"
    by (auto simp: clear_queue_def modify_nth_def map_update list_update_same_conv)
  then show ?thesis by (simp add: abstraction_def)
qed

lemma abstraction_disconnect:
  "abstraction (disconnect oid s) = ((fst (abstraction s))[oid := False], snd (abstraction s))"
proof -
  have "map connected (observers (disconnect oid s)) = (map connected (observers s))[oid := False]"
    by (auto simp: disconnect_def modify_nth_def map_update list_update_beyond)
  then show ?thesis by (simp add: abstraction_def)
qed

lemma fires_connected:
  assumes "list_all script_observer (observers s)" and "fires oid s"
  shows "connected (observers s ! oid)"
proof -
  from assms(2) have len: "oid < length (observers s)" and q: "queue (observers s ! oid) \<noteq> []"
    by (simp_all add: fires_queue)
  with assms(1) have "script_observer (observers s ! oid)" by (simp add: list_all_length)
  with q have "armed (observers s ! oid)" by (auto simp: script_observer_def)
  then show ?thesis by (rule armed_connected)
qed

section \<open>Every run is a run of the abstract machine\<close>

lemma deliver_refines:
  assumes "list_all script_observer (observers s)"
  shows "abs_run (if fires oid s then [Fire oid] else []) (abstraction s)
    = Some (abstraction (deliver oid s))"
proof (cases "fires oid s")
  case True
  with assms have "connected (observers s ! oid)" by (rule fires_connected)
  moreover from True have "oid < length (observers s)" by (simp add: fires_queue)
  ultimately have "abs_do (Fire oid) (abstraction s)
      = Some ((map connected (observers s))[oid := False], Suc (focus_calls s))"
    by (simp add: abstraction_def)
  with True show ?thesis
    by (simp add: deliver_eq abstraction_disconnect) (simp add: abstraction_def)
next
  case False
  then show ?thesis by (simp add: deliver_eq)
qed

lemma deliver_events_refine:
  "list_all script_observer (observers s) \<Longrightarrow>
     abs_run (deliver_events oids s) (abstraction s) = Some (abstraction (fold deliver oids s))"
proof (induction oids arbitrary: s)
  case Nil
  show ?case by simp
next
  case (Cons oid oids)
  from Cons.prems have "list_all script_observer (observers (deliver oid s))"
    by (rule deliver_observers [OF script_observers_closed])
  from Cons.IH [OF this] deliver_refines [OF Cons.prems, of oid] show ?case
    by (simp only: deliver_events.simps fold_simps abs_run_appendI)
qed

lemma notify_events_quiet: "pending s = [] \<Longrightarrow> notify_events s = []"
  by (simp add: notify_events.simps)

lemma notify_events_step:
  "pending s \<noteq> [] \<Longrightarrow>
     notify_events s = deliver_events (pending s) s @ notify_events (notify_round s)"
  by (subst notify_events.simps) simp

lemma notify_refines:
  "list_all script_observer (observers s) \<Longrightarrow>
     abs_run (notify_events s) (abstraction s) = Some (abstraction (notify s))"
proof (induction s rule: notify.induct)
  case (1 s)
  show ?case
  proof (cases "pending s = []")
    case True
    then show ?thesis by (simp add: notify_quiet notify_events_quiet)
  next
    case False
    from "1.prems" have "list_all script_observer (observers (notify_round s))"
      unfolding notify_round_def by (rule fold_deliver_observers [OF script_observers_closed])
    with False
    have rest: "abs_run (notify_events (notify_round s)) (abstraction (notify_round s))
        = Some (abstraction (notify (notify_round s)))"
      by (rule "1.IH")
    from "1.prems"
    have round: "abs_run (deliver_events (pending s) s) (abstraction s)
        = Some (abstraction (notify_round s))"
      unfolding notify_round_def by (rule deliver_events_refine)
    from round rest show ?thesis
      unfolding notify_step [OF False] notify_events_step [OF False] by (rule abs_run_appendI)
  qed
qed

lemma fires_only: "list_all is_fire (deliver_events oids s)"
  by (induction oids arbitrary: s) simp_all

lemma notify_fires_only: "list_all is_fire (notify_events s)"
proof (induction s rule: notify.induct)
  case (1 s)
  then show ?case
    by (cases "pending s = []") (simp_all add: notify_events_quiet notify_events_step fires_only)
qed

lemma abstraction_new:
  "abstraction (s\<lparr>observers := observers s @ [ob]\<rparr>)
     = (fst (abstraction s) @ [connected ob], snd (abstraction s))"
  by (simp add: abstraction_def focus_calls_def)

lemma call_refines:
  "abs_run (call_events a s) (abstraction s) = Some (abstraction (state_of (call a s)))"
proof (cases a)
  case ClickUniversityLoginButton
  then show ?thesis by (simp add: clickUniversityLoginButton_def split: option.split)
next
  case ClickUserSelectionTile
  then show ?thesis
    by (simp add: clickUserSelectionTile_cases waitForTextboxToAppear_cases abstraction_new
        split: list.split option.split)
      (simp add: abstraction_def)
next
  case FocusTextbox
  then show ?thesis by (simp add: focusTextbox_def Let_def) (simp add: abstraction_def)
qed

lemma task_refines:
  assumes "list_all script_observer (observers s)"
  shows "abs_run (task_events t s) (abstraction s) = Some (abstraction (run_task t s))"
proof -
  from assms have "list_all script_observer (observers (perform t s))"
    by (cases t) (simp_all add: call_observers fold_mutate_observers script_observers_closed)
  then have n: "abs_run (notify_events (perform t s)) (abstraction (perform t s))
      = Some (abstraction (run_task t s))"
    unfolding run_task_def by (rule notify_refines)
  show ?thesis
  proof (cases t)
    case (Call a)
    with call_refines [of a s] n show ?thesis by (simp add: abs_run_appendI)
  next
    case (PageChange ms)
    with n show ?thesis by simp
  qed
qed

lemma trace_accepted:
  "list_all script_observer (observers s) \<Longrightarrow>
     abs_run (trace ts s) (abstraction s) = Some (abstraction (run ts s))"
proof (induction ts arbitrary: s)
  case Nil
  show ?case by simp
next
  case (Cons t ts)
  from Cons.prems have "list_all script_observer (observers (run_task t s))"
    by (rule run_task_observers [OF script_observers_closed])
  from task_refines [OF Cons.prems, of t] Cons.IH [OF this] show ?case
    by (simp add: abs_run_appendI)
qed

text \<open>The events of the run in which the watcher of the account picker fires.\<close>

lemma picker_trace:
  "trace [Call ClickUserSelectionTile,
          PageChange [InsertChild 3 0 (Text ''Password''), Relayout 6 36 True]]
     (page_of picker_doc)
   = [Arm True, Fire 0]"
proof -
  have c: "call_events ClickUserSelectionTile (page_of picker_doc) = [Arm True]"
    by (simp add: fixture_queries fixture_body page_of_def click_def run_listeners_def quiet_def
        disabled_control_def tile_a_def getAttribute_def)
  have n1: "notify_events (perform (Call ClickUserSelectionTile) (page_of picker_doc)) = []"
    by (rule notify_events_quiet)
      (simp add: clickUserSelectionTile_cases waitForTextboxToAppear_cases fixture_queries
        fixture_body page_of_def click_def run_listeners_def quiet_def disabled_control_def
        tile_a_def getAttribute_def register_def idle_def pending_def)
  have n2: "notify_events (perform (PageChange [InsertChild 3 0 (Text ''Password''), Relayout 6 36 True])
      armed_picker) = [Fire 0]"
    unfolding perform.simps picker_change_queued
    by (simp add: notify_events_step notify_events_quiet run_eval shown_doc_textbox passwd_shown_def)
  show ?thesis
    by (simp only: trace.simps task_events.simps armed_picker_def [symmetric] c n1 n2
        append.simps append_Nil2)
qed

section \<open>Refinement\<close>

text \<open>
  C11. Every run of the script is a run of the lifecycle machine. From a page
  whose observers are the script's (a page without observers is one), the
  events of a run are accepted by the machine and lead from the abstraction
  of the first page to the abstraction of the last: a new observer appears
  only when the tile selector clicked a tile, the count of focus calls grows
  only with a \<open>Direct\<close> or a \<open>Fire\<close>, and only an observer that is watching
  fires, and it stops watching when it does.
\<close>

theorem run_refines_lifecycle:
  "list_all script_observer (observers s) \<Longrightarrow>
     abs_run (trace ts s) (abstraction s) = Some (abstraction (run ts s))"
  by (rule trace_accepted)

theorem run_refines_lifecycle_witness:
  "abs_run [Arm True, Fire 0] (abstraction (page_of picker_doc))
     = Some (abstraction (run [Call ClickUserSelectionTile,
          PageChange [InsertChild 3 0 (Text ''Password''), Relayout 6 36 True]] (page_of picker_doc)))"
  unfolding picker_trace [symmetric]
  by (rule run_refines_lifecycle) (simp add: page_of_def)

text \<open>
  C16. An observer focuses at most once. In the events of any run, from a page
  whose observers are the script's, the callback of each observer focuses the
  field at most once, however many records are delivered to it and however
  often the tile selector is called.
\<close>

theorem observer_fires_at_most_once:
  "list_all script_observer (observers s) \<Longrightarrow> count_list (trace ts s) (Fire i) \<le> 1"
  by (rule fires_at_most_once) (rule trace_accepted)

theorem observer_fires_at_most_once_witness:
  "count_list (trace [Call ClickUserSelectionTile,
       PageChange [InsertChild 3 0 (Text ''Password''), Relayout 6 36 True],
       PageChange [InsertChild 3 0 (Text ''Signing in'')]] (page_of picker_doc)) (Fire 0) \<le> 1"
  by (rule observer_fires_at_most_once) (simp add: page_of_def)

end
