(* ===== verification/Batching.thy ===== *)
theory Batching
  imports Watcher
begin

text \<open>
  Where the page ends a task decides what the watcher sees. The browser calls
  the callback at the end of the task that queued a record, so the callback
  tests the field as it is at that moment, not as it was when the child was
  inserted.

  \<^item> \<open>alike\<close>: two pages that differ in the queues of their observers only.
    Changes by the page keep pages alike, and taking the queues makes them
    equal.
  \<^item> While the field is hidden at the end of every batch, the boundaries
    between batches cannot be observed: any number of batches is one batch.
  \<^item> When the field gets its height at the end, they can: the insertion that
    the watcher is told about has to be in the batch that ends with the field
    visible.
\<close>

section \<open>Pages that differ in their queues only\<close>

definition alike :: "page \<Rightarrow> page \<Rightarrow> bool" where
  "alike s s' \<longleftrightarrow>
     doc s = doc s' \<and> activeElement s = activeElement s' \<and> actions s = actions s'
       \<and> listeners s = listeners s'
       \<and> map registered (observers s) = map registered (observers s')"

lemma alike_refl [simp]: "alike s s"
  by (simp add: alike_def)

lemma alike_sym: "alike s s' \<Longrightarrow> alike s' s"
  by (simp add: alike_def)

lemma alike_trans: "alike s s' \<Longrightarrow> alike s' s'' \<Longrightarrow> alike s s''"
  by (simp add: alike_def)

lemma alike_drain [simp]: "alike (drain s) s"
  by (simp add: alike_def)

lemma drain_observers:
  "observers (drain s) = map (\<lambda>r. \<lparr>registered = r, queue = []\<rparr>) (map registered (observers s))"
  by (simp add: drain_def)

lemma alike_drain_eq: "alike s s' \<Longrightarrow> drain s = drain s'"
  by (rule page.equality) (simp_all add: alike_def drain_observers)

lemma map_registered_enqueue [simp]: "map registered (enqueue d r obs) = map registered obs"
  by (induction obs) simp_all

lemma alike_mutate: "alike s s' \<Longrightarrow> alike (mutate m s) (mutate m s')"
  by (simp add: alike_def mutate_eval split: option.split)

lemma alike_fold_mutate: "alike s s' \<Longrightarrow> alike (fold mutate ms s) (fold mutate ms s')"
  by (induction ms arbitrary: s s') (simp_all add: alike_mutate)

lemma drain_fold_mutate: "drain (fold mutate ms (drain s)) = drain (fold mutate ms s)"
  by (intro alike_drain_eq alike_fold_mutate alike_drain)

section \<open>Batches while the field is hidden\<close>

lemma hidden_batches:
  "hidden_run (map PageChange mss) s \<Longrightarrow>
     run (map PageChange mss) s = (if mss = [] then s else drain (fold mutate (concat mss) s))"
proof (induction mss arbitrary: s)
  case Nil
  show ?case by simp
next
  case (Cons ms mss)
  let ?s = "drain (fold mutate ms s)"
  from Cons.prems have task: "run_task (PageChange ms) s = ?s"
    by (simp add: run_task_def notify_waits)
  with Cons.prems have "hidden_run (map PageChange mss) ?s" by simp
  then have "run (map PageChange mss) ?s
      = (if mss = [] then ?s else drain (fold mutate (concat mss) ?s))"
    by (rule Cons.IH)
  then show ?case by (simp add: task drain_fold_mutate)
qed

lemma hidden_run_end:
  "hidden_run ts s \<Longrightarrow> ts \<noteq> [] \<Longrightarrow>
     \<not> textbox_visible (querySelector passwd_selector (doc (run ts s)))"
proof (induction ts arbitrary: s)
  case Nil
  then show ?case by simp
next
  case (Cons t ts)
  from Cons.prems(1) have hidden: "\<not> textbox_visible (querySelector passwd_selector (doc (perform t s)))"
    and rest: "hidden_run ts (run_task t s)"
    by (auto elim: hidden_run_ConsE)
  from hidden have "run_task t s = drain (perform t s)"
    by (simp add: run_task_def notify_waits)
  with hidden rest Cons.IH show ?case by (cases "ts = []") simp_all
qed

text \<open>
  C15. Task boundaries cannot be observed while the field is hidden. If the
  password field is missing or has no height at the end of each of several
  batches of changes, the page ends in the same state as if it had made all
  the changes in one batch: same document, same focus, same log, same
  observers with empty queues.
\<close>

theorem hidden_batches_merge:
  assumes "mss \<noteq> []" and "hidden_run (map PageChange mss) s"
  shows "run (map PageChange mss) s = run [PageChange (concat mss)] s"
proof -
  from assms have split: "run (map PageChange mss) s = drain (fold mutate (concat mss) s)"
    by (simp add: hidden_batches)
  from assms have "\<not> textbox_visible (querySelector passwd_selector (doc (run (map PageChange mss) s)))"
    by (intro hidden_run_end) simp_all
  then have "\<not> textbox_visible (querySelector passwd_selector (doc (fold mutate (concat mss) s)))"
    by (simp add: split)
  then have "run [PageChange (concat mss)] s = drain (fold mutate (concat mss) s)"
    by (simp add: run_task_def notify_waits)
  with split show ?thesis by simp
qed

theorem hidden_batches_merge_witness:
  "run (map PageChange [[InsertChild 3 0 (Text ''Loading'')], [RemoveChild 3 0]]) armed_picker
     = run [PageChange (concat [[InsertChild 3 0 (Text ''Loading'')], [RemoveChild 3 0]])] armed_picker"
proof (rule hidden_batches_merge)
  have hidden: "\<not> textbox_visible (querySelector passwd_selector
      (apply_mutation (InsertChild 3 0 (Text ''Loading'')) picker_doc))"
    by (simp add: apply_mutation_def insert_at_def querySelector_def fixture_defs sel_defs
        getAttribute_def)
  then have "run_task (PageChange [InsertChild 3 0 (Text ''Loading'')]) armed_picker
      = drain (fold mutate [InsertChild 3 0 (Text ''Loading'')] armed_picker)"
    by (simp add: run_task_def notify_waits armed_picker_eq)
  moreover have "\<not> textbox_visible (querySelector passwd_selector
      (apply_mutation (RemoveChild 3 0) (apply_mutation (InsertChild 3 0 (Text ''Loading'')) picker_doc)))"
    by (simp add: apply_mutation_def insert_at_def remove_at_def querySelector_def fixture_defs
        sel_defs getAttribute_def)
  ultimately show "hidden_run
      (map PageChange [[InsertChild 3 0 (Text ''Loading'')], [RemoveChild 3 0]]) armed_picker"
    using hidden by (simp add: armed_picker_eq)
qed simp

section \<open>The batch in which the field appears\<close>

text \<open>
  C14. The insertion has to coincide with the field becoming visible. Let the
  observers of the page be the script's, one of them watching \<open>b\<close>. The page inserts or
  removes a child below \<open>b\<close> while the field is still hidden, and then gives the
  field its height by changes that are not child-list changes. If all of this
  is one batch, the field is focused when the batch ends. If the page ends a
  task in between, nothing is focused: the first task ends with the field
  hidden, and the second queues no record. The same changes, in the same order,
  lead to different results.
\<close>

theorem coincidence_is_needed:
  assumes "oid < length (observers s)" and "registered (observers s ! oid) = [(b, watch_options)]"
    and "list_all script_observer (observers s)"
    and "noticed b ms (doc s)"
    and "shown_field (doc (fold mutate ms s)) = None"
    and "list_all (\<lambda>m. record_type m \<noteq> Some ChildList) ms'"
    and "querySelector passwd_selector (doc (fold mutate (ms @ ms') s)) = Some t"
    and "0 < offsetHeight t"
  shows "(\<exists>rest. actions (run [PageChange (ms @ ms')] s) = actions s @ Focus (nid t) # rest)
    \<and> actions (run [PageChange ms, PageChange ms'] s) = actions s"
proof
  from assms(4) have "noticed b (ms @ ms') (doc s)" by (simp add: noticed_append)
  with assms(1,2) have "fires oid (fold mutate (ms @ ms') s)"
    using assms(7,8) by (rule watched_change_fires)
  from notify_fires [OF this] assms(7)
  show "\<exists>rest. actions (run [PageChange (ms @ ms')] s) = actions s @ Focus (nid t) # rest"
    by (simp add: run_task_def the_textbox_def)
next
  let ?s = "run_task (PageChange ms) s"
  from assms(5) have s: "?s = drain (fold mutate ms s)"
    by (simp add: run_task_def notify_waits)
  from assms(3) have "list_all script_observer (observers ?s)"
    by (rule run_task_observers [OF script_observers_closed])
  moreover have "pending ?s = []" by (simp add: run_task_def)
  ultimately have "run_task (PageChange ms') ?s = fold mutate ms' ?s"
    by (rule run_task_unwatched [OF assms(6)])
  then show "actions (run [PageChange ms, PageChange ms'] s) = actions s"
    by (simp add: s)
qed

theorem coincidence_is_needed_witness:
  "(\<exists>rest. actions (run [PageChange ([InsertChild 3 0 (Text ''Password'')] @ [Relayout 6 36 True])]
       armed_picker) = actions armed_picker @ Focus (nid passwd_shown) # rest)
    \<and> actions (run [PageChange [InsertChild 3 0 (Text ''Password'')], PageChange [Relayout 6 36 True]]
       armed_picker) = actions armed_picker"
proof (rule coincidence_is_needed [where oid = 0 and b = 3])
  show "noticed 3 [InsertChild 3 0 (Text ''Password'')] (doc armed_picker)"
    by (simp add: armed_picker_eq picker_subtree_ids)
  show "shown_field (doc (fold mutate [InsertChild 3 0 (Text ''Password'')] armed_picker)) = None"
    by (simp add: armed_picker_eq apply_mutation_def insert_at_def querySelector_def fixture_defs
        sel_defs getAttribute_def)
  have "doc (fold mutate ([InsertChild 3 0 (Text ''Password'')] @ [Relayout 6 36 True]) armed_picker)
      = shown_doc"
    by (simp add: armed_picker_eq shown_doc_def)
  then show "querySelector passwd_selector
      (doc (fold mutate ([InsertChild 3 0 (Text ''Password'')] @ [Relayout 6 36 True]) armed_picker))
    = Some passwd_shown"
    by (simp only: shown_doc_textbox)
qed (simp_all add: armed_picker_eq passwd_shown_def script_observer_def armed_def)

end
