(* ===== verification/Contract.thy ===== *)
theory Contract
  imports Batching
begin

text \<open>
  What the Appearance Waiter promises, stated over what the page does to its
  document, and the proof that the script keeps the promise.

  \<^item> An observer \<open>notices\<close> a batch of changes when one of the changes inserts
    or removes a child below the element the observer is registered on.
  \<^item> \<open>watch_spec\<close> is the contract for one batch: the page makes its changes;
    if the password field has a height at the end (\<open>shown_field\<close>, which does
    not use the test of the callback), every observer that
    noticed the batch is \<open>released\<close> (one \<^verbatim>\<open>focus()\<close> call on the field for each,
    the field focused if it can be, the observer disconnected); the other
    observers stay, and nothing else happens. The contract does not mention
    records, queues, deliveries or rounds.
  \<^item> On a page whose observers are the script's and whose focus listeners
    leave the document alone, a task in which the page changes its document
    is \<open>watch_spec\<close> (\<open>run_task_spec\<close>).
  \<^item> When all observers watch one element \<open>b\<close>, as they do while the body of
    the page stays the same, a batch \<open>qualifies\<close> when it is noticed and ends
    with the field visible. Over a run of batches the watchers stay while no
    batch qualifies (\<open>waiting\<close>), all of them are released by the first batch
    that does, and nothing happens after that.
\<close>

section \<open>The contract for one batch\<close>

definition notices :: "mutation list \<Rightarrow> document \<Rightarrow> observer \<Rightarrow> bool" where
  "notices ms d ob \<longleftrightarrow> list_ex (\<lambda>(b, opts). noticed b ms d) (registered ob)"

definition released :: "elem \<Rightarrow> (observer \<Rightarrow> bool) \<Rightarrow> page \<Rightarrow> page" where
  "released t P s =
     s\<lparr>activeElement :=
         (if focusable t \<and> list_ex P (observers s) then Some (nid t) else activeElement s),
       observers := map (\<lambda>ob. if P ob then idle else ob) (observers s),
       actions := actions s @ replicate (length (filter P (observers s))) (Focus (nid t))\<rparr>"

definition watch_spec :: "mutation list \<Rightarrow> page \<Rightarrow> page" where
  "watch_spec ms s =
     (let s' = drain (fold mutate ms s)
      in case shown_field (doc s') of
           None \<Rightarrow> s'
         | Some t \<Rightarrow> released t (notices ms (doc s)) s')"

text \<open>The same in the terms of the callback: its test, and the element it focuses.\<close>

lemma watch_spec_eq:
  "watch_spec ms s =
     (let s' = drain (fold mutate ms s)
      in if textbox_visible (querySelector passwd_selector (doc s'))
         then released (the_textbox s') (notices ms (doc s)) s' else s')"
  by (simp add: watch_spec_def Let_def shown_field_def textbox_visible_def the_textbox_def
      split: option.split)

lemma released_frame [simp, frame]:
  "doc (released t P s) = doc s"
  "listeners (released t P s) = listeners s"
  "length (observers (released t P s)) = length (observers s)"
  by (simp_all add: released_def)

lemma released_none: "list_all (\<lambda>ob. \<not> P ob) (observers s) \<Longrightarrow> released t P s = s"
  by (rule page.equality)
    (auto simp: released_def list_all_iff list_ex_iff filter_empty_conv intro: map_idI)

lemma released_cong:
  assumes "\<And>ob. ob \<in> set (observers s) \<Longrightarrow> P ob = Q ob"
  shows "released t P s = released t Q s"
proof -
  from assms have "filter P (observers s) = filter Q (observers s)"
    and "map (\<lambda>ob. if P ob then idle else ob) (observers s)
      = map (\<lambda>ob. if Q ob then idle else ob) (observers s)"
    and "list_ex P (observers s) = list_ex Q (observers s)"
    by (auto simp: list_ex_iff intro: filter_cong)
  then show ?thesis by (simp add: released_def)
qed

lemma notices_idle [simp]: "\<not> notices ms d idle"
  by (simp add: notices_def)

lemma notices_watcher: "registered ob = [(b, opts)] \<Longrightarrow> notices ms d ob \<longleftrightarrow> noticed b ms d"
  by (simp add: notices_def)

lemma notices_cong: "registered ob = registered ob' \<Longrightarrow> notices ms d ob = notices ms d ob'"
  by (simp add: notices_def)

section \<open>Counting\<close>

lemma list_ex_filter: "list_ex P xs \<longleftrightarrow> 0 < length (filter P xs)"
  by (simp add: list_ex_iff filter_empty_conv)

lemma map_connected: "map connected obs = map (\<lambda>r. r \<noteq> []) (map registered obs)"
  by (simp add: connected_def)

lemma n_connected_cong:
  assumes "map registered obs = map registered obs'"
  shows "length (filter connected obs) = length (filter connected obs')"
  by (subst (1 2) length_filter_map) (simp only: map_connected assms)

lemma list_ex_connected_cong:
  assumes "map registered obs = map registered obs'"
  shows "list_ex connected obs = list_ex connected obs'"
  unfolding list_ex_filter n_connected_cong [OF assms] ..

lemma watching_released:
  assumes "list_all (watching b) obs"
  shows "map (\<lambda>ob. if connected ob then idle else ob) obs = map (\<lambda>ob. idle) obs"
proof (rule map_cong [OF refl])
  fix ob
  assume "ob \<in> set obs"
  with assms have "watching b ob" by (simp add: list_all_iff)
  then show "(if connected ob then idle else ob) = idle"
    by (auto simp: watching_def connected_def)
qed

section \<open>What the observers hold at the end of a batch\<close>

lemma the_textbox_drain [simp]: "the_textbox (drain s) = the_textbox s"
  by (simp add: the_textbox_def)

lemma drain_quiet: "pending s = [] \<Longrightarrow> drain s = s"
  using fold_clear_queue_pending [of s] by simp

lemma pending_empty_iff:
  "pending s = [] \<longleftrightarrow> (\<forall>i<length (observers s). queue (observers s ! i) = [])"
  by (auto simp: pending_def filter_empty_conv)

lemma armed_watcher: "armed ob \<Longrightarrow> \<exists>b. registered ob = [(b, watch_options)]"
  by (cases "registered ob") (auto simp: armed_def)

text \<open>
  An observer of the script that held no record holds one at the end of a
  batch exactly when it notices the batch.
\<close>

lemma queue_iff_notices:
  assumes "i < length (observers s)" and "script_observer (observers s ! i)"
    and "queue (observers s ! i) = []"
  shows "queue (observers (fold mutate ms s) ! i) = [] \<longleftrightarrow> \<not> notices ms (doc s) (observers s ! i)"
proof (cases "observers s ! i = idle")
  case True
  with assms(1) show ?thesis by (simp add: fold_mutate_idle)
next
  case False
  with assms(2) obtain b where b: "registered (observers s ! i) = [(b, watch_options)]"
    by (auto simp: script_observer_def dest: armed_watcher)
  with assms(1,3) show ?thesis by (simp add: fold_mutate_watcher(2) notices_watcher)
qed

lemma childList_queues_script: "list_all script_observer (observers s) \<Longrightarrow> childList_queues s"
  by (simp add: childList_queues_def script_observer_def list_all_iff)

section \<open>The script meets the contract\<close>

lemma held_iff_notices:
  assumes "list_all script_observer (observers s)" and "pending s = []"
    and "i < length (observers s)"
  shows "queue (observers (fold mutate ms s) ! i) \<noteq> []
    \<longleftrightarrow> notices ms (doc s) (observers (drain (fold mutate ms s)) ! i)"
proof -
  from assms have "script_observer (observers s ! i)" and "queue (observers s ! i) = []"
    by (simp_all add: list_all_length pending_empty_iff)
  with assms(3)
  have "queue (observers (fold mutate ms s) ! i) = [] \<longleftrightarrow> \<not> notices ms (doc s) (observers s ! i)"
    by (rule queue_iff_notices)
  moreover from assms(3)
  have "notices ms (doc s) (observers (drain (fold mutate ms s)) ! i)
      = notices ms (doc s) (observers s ! i)"
    by (intro notices_cong) (simp add: drain_nth)
  ultimately show ?thesis by simp
qed

lemma visible_batch:
  assumes "list_all script_observer (observers s)" and "pending s = []"
    and "calm_focus (listeners s)"
    and "textbox_visible (querySelector passwd_selector (doc (fold mutate ms s)))"
  shows "notify (fold mutate ms s)
    = released (the_textbox (fold mutate ms s)) (notices ms (doc s)) (drain (fold mutate ms s))"
proof -
  let ?s = "fold mutate ms s"
  let ?t = "the_textbox ?s"
  let ?P = "notices ms (doc s)"
  note each = held_iff_notices [OF assms(1,2), of _ ms]
  from assms(1) have "list_all script_observer (observers ?s)"
    by (rule fold_mutate_observers [OF script_closed_page [OF script_observers_closed]])
  then have "childList_queues ?s" by (rule childList_queues_script)
  moreover from assms(3) have "calm_focus (listeners ?s)" by simp
  ultimately have fire: "notify ?s
    = ?s\<lparr>activeElement :=
           (if pending ?s \<noteq> [] \<and> focusable ?t then Some (nid ?t) else activeElement ?s),
         observers := map (\<lambda>ob. if queue ob = [] then ob else idle) (observers ?s),
         actions := actions ?s @ replicate (n_pending ?s) (Focus (nid ?t))\<rparr>"
    using assms(4) by (intro notify_all_fire)
  from each have "map (\<lambda>ob. queue ob \<noteq> []) (observers ?s) = map ?P (observers (drain ?s))"
    by (intro nth_equalityI) simp_all
  then have n: "n_pending ?s = length (filter ?P (observers (drain ?s)))"
    unfolding n_pending_def by (subst (1 2) length_filter_map) simp
  have "pending ?s \<noteq> [] \<longleftrightarrow> 0 < n_pending ?s"
    unfolding length_pending [symmetric] by simp
  then have some: "pending ?s \<noteq> [] \<longleftrightarrow> list_ex ?P (observers (drain ?s))"
    unfolding n list_ex_filter .
  show ?thesis
  proof (rule page.equality)
    show "observers (notify ?s) = observers (released ?t ?P (drain ?s))"
      unfolding fire released_def
      by (rule nth_equalityI) (use each in \<open>auto simp: drain_nth\<close>)
  qed (simp_all add: fire released_def n some)
qed

lemma run_task_spec:
  assumes "list_all script_observer (observers s)" and "pending s = []"
    and "calm_focus (listeners s)"
  shows "run_task (PageChange ms) s = watch_spec ms s"
  using visible_batch [OF assms, of ms]
  by (simp add: run_task_def watch_spec_eq Let_def notify_waits)

section \<open>Watchers of one element\<close>

text \<open>
  When every observer is idle or watches \<open>b\<close>, the observers notice the same
  batches, and a batch that qualifies releases all of them.
\<close>

definition qualifies :: "nat \<Rightarrow> mutation list \<Rightarrow> document \<Rightarrow> bool" where
  "qualifies b ms d \<longleftrightarrow> noticed b ms d \<and> shown_field (fold apply_mutation ms d) \<noteq> None"

lemma qualifies_eq:
  "qualifies b ms d \<longleftrightarrow>
     noticed b ms d \<and> textbox_visible (querySelector passwd_selector (fold apply_mutation ms d))"
  unfolding qualifies_def shown_field_visible ..

lemma watching_script:
  assumes "list_all (watching b) (observers s)" and "pending s = []"
  shows "list_all script_observer (observers s)"
  unfolding list_all_length
proof (intro allI impI)
  fix i
  assume i: "i < length (observers s)"
  with assms have "watching b (observers s ! i)" and "queue (observers s ! i) = []"
    by (simp_all add: list_all_length pending_empty_iff)
  then show "script_observer (observers s ! i)"
    by (auto simp: watching_def script_observer_def armed_def)
qed

lemma watching_notices:
  "watching b ob \<Longrightarrow> notices ms d ob \<longleftrightarrow> connected ob \<and> noticed b ms d"
  by (auto simp: watching_def notices_watcher connected_def)

lemma watching_drain:
  assumes "list_all (watching b) (observers s)"
  shows "list_all (watching b) (observers (drain (fold mutate ms s)))"
  unfolding list_all_length
proof (intro allI impI)
  fix i
  assume "i < length (observers (drain (fold mutate ms s)))"
  then have i: "i < length (observers s)" by simp
  let ?ob = "observers (drain (fold mutate ms s)) ! i"
  from i have "registered ?ob = registered (observers s ! i)" and "queue ?ob = []"
    by (simp_all add: drain_nth)
  moreover from assms i have "watching b (observers s ! i)" by (simp add: list_all_length)
  ultimately show "watching b ?ob" by (auto simp: watching_def idle_def)
qed

lemma run_task_watching:
  assumes "list_all (watching b) (observers s)" and "pending s = []"
    and "calm_focus (listeners s)"
  shows "run_task (PageChange ms) s
    = (if qualifies b ms (doc s)
       then released (the_textbox (fold mutate ms s)) connected (drain (fold mutate ms s))
       else drain (fold mutate ms s))"
proof -
  let ?s = "drain (fold mutate ms s)"
  from assms(1) have w: "list_all (watching b) (observers ?s)" by (rule watching_drain)
  have "released t (notices ms (doc s)) ?s = (if noticed b ms (doc s) then released t connected ?s else ?s)"
    for t
  proof (cases "noticed b ms (doc s)")
    case True
    with w have "released t (notices ms (doc s)) ?s = released t connected ?s"
      by (intro released_cong) (auto simp: list_all_iff watching_notices)
    with True show ?thesis by simp
  next
    case False
    with w have "list_all (\<lambda>ob. \<not> notices ms (doc s) ob) (observers ?s)"
      by (auto simp: list_all_iff watching_notices)
    with False show ?thesis by (simp add: released_none)
  qed
  with run_task_spec [OF watching_script [OF assms(1,2)] assms(2,3), of ms] show ?thesis
    by (simp add: watch_spec_eq Let_def qualifies_eq)
qed

section \<open>The contract for a run of batches\<close>

text \<open>
  The watchers are \<open>waiting\<close> through a sequence of batches when none of them
  qualifies, each judged in the document the batches before it have made.
\<close>

fun waiting :: "nat \<Rightarrow> mutation list list \<Rightarrow> document \<Rightarrow> bool" where
  "waiting b [] d \<longleftrightarrow> True"
| "waiting b (ms # mss) d \<longleftrightarrow> \<not> qualifies b ms d \<and> waiting b mss (fold apply_mutation ms d)"

lemma all_idle_drain:
  assumes "list_all (\<lambda>ob. ob = idle) (observers s)"
  shows "list_all (\<lambda>ob. ob = idle) (observers (drain (fold mutate ms s)))"
  using assms by (simp add: list_all_length drain_nth fold_mutate_idle)

lemma all_idle_watching: "list_all (\<lambda>ob. ob = idle) obs \<Longrightarrow> list_all (watching b) obs"
  by (simp add: list_all_iff watching_def)

lemma all_idle_pending: "list_all (\<lambda>ob. ob = idle) (observers s) \<Longrightarrow> pending s = []"
  by (simp add: pending_empty_iff list_all_length)

lemma all_idle_released:
  "list_all (\<lambda>ob. ob = idle) (observers s) \<Longrightarrow> released t connected s = s"
  by (rule released_none) (auto simp: list_all_iff)

text \<open>While the watchers are waiting, a run of batches only changes the document.\<close>

lemma waiting_run:
  assumes "list_all (watching b) (observers s)" and "pending s = []"
    and "calm_focus (listeners s)" and "waiting b mss (doc s)"
  shows "run (map PageChange mss) s = drain (fold mutate (concat mss) s)"
  using assms
proof (induction mss arbitrary: s)
  case Nil
  then show ?case by (simp add: drain_quiet)
next
  case (Cons ms mss)
  let ?s = "drain (fold mutate ms s)"
  from Cons.prems have task: "run_task (PageChange ms) s = ?s"
    by (simp add: run_task_watching [of b])
  from Cons.prems have "run (map PageChange mss) ?s = drain (fold mutate (concat mss) ?s)"
    by (intro Cons.IH watching_drain) simp_all
  then show ?case by (simp add: task drain_fold_mutate)
qed

text \<open>Once every observer is idle, a run of batches only changes the document.\<close>

lemma released_run:
  assumes "list_all (\<lambda>ob. ob = idle) (observers s)" and "calm_focus (listeners s)"
  shows "run (map PageChange mss) s = drain (fold mutate (concat mss) s)"
  using assms
proof (induction mss arbitrary: s)
  case Nil
  then show ?case by (simp add: drain_quiet all_idle_pending)
next
  case (Cons ms mss)
  let ?s = "drain (fold mutate ms s)"
  from Cons.prems(1) have idle: "list_all (\<lambda>ob. ob = idle) (observers ?s)"
    by (rule all_idle_drain)
  with Cons.prems have task: "run_task (PageChange ms) s = ?s"
    by (simp add: run_task_watching [of b] all_idle_watching all_idle_pending all_idle_released)
  from idle Cons.prems(2) have "run (map PageChange mss) ?s = drain (fold mutate (concat mss) ?s)"
    by (intro Cons.IH) simp_all
  then show ?case by (simp add: task drain_fold_mutate)
qed

text \<open>The batch that releases the watchers, after any number of batches that do not.\<close>

lemma release_after_waiting:
  assumes "list_all (watching b) (observers s)" and "pending s = []"
    and "calm_focus (listeners s)" and "waiting b pre (doc s)"
    and "noticed b ms (fold apply_mutation (concat pre) (doc s))"
    and "querySelector passwd_selector (fold apply_mutation (concat pre @ ms) (doc s)) = Some t"
    and "0 < offsetHeight t"
  shows "run (map PageChange (pre @ [ms])) s
    = (drain (fold mutate (concat pre @ ms) s))
        \<lparr>activeElement :=
           (if focusable t \<and> list_ex connected (observers s) then Some (nid t)
            else activeElement (fold mutate (concat pre @ ms) s)),
         observers := map (\<lambda>ob. idle) (observers s),
         actions := actions s @ replicate (length (filter connected (observers s))) (Focus (nid t))\<rparr>"
proof -
  let ?s1 = "drain (fold mutate (concat pre) s)"
  let ?s2 = "drain (fold mutate (concat pre @ ms) s)"
  have reg: "map registered (observers ?s2) = map registered (observers s)" by simp
  from assms(1) have "list_all (watching b) (observers ?s2)" by (rule watching_drain)
  then have "map (\<lambda>ob. if connected ob then idle else ob) (observers ?s2)
      = map (\<lambda>ob. idle) (observers ?s2)"
    by (rule watching_released)
  then have idle: "map (\<lambda>ob. if connected ob then idle else ob) (observers ?s2)
      = map (\<lambda>ob. idle) (observers s)"
    by (simp add: map_replicate_const)
  from assms(1-4) have pre: "run (map PageChange pre) s = ?s1" by (rule waiting_run)
  from assms(5-7) have "qualifies b ms (doc ?s1)" by (simp add: qualifies_eq)
  moreover from assms(1) have "list_all (watching b) (observers ?s1)" by (rule watching_drain)
  moreover from assms(3) have "calm_focus (listeners ?s1)" by simp
  ultimately have "run_task (PageChange ms) ?s1 = released (the_textbox ?s2) connected ?s2"
    by (simp add: run_task_watching [of b] drain_fold_mutate the_textbox_def)
  moreover from assms(6) have "the_textbox ?s2 = t" by (simp add: the_textbox_def)
  moreover note n_connected_cong [OF reg] list_ex_connected_cong [OF reg] idle
  ultimately show ?thesis by (simp add: pre released_def)
qed

text \<open>A page with one watcher, as it is after one call of \<open>clickUserSelectionTile\<close>.\<close>

lemma lone_watcher_released:
  assumes "observers s = [register b watch_options idle]" and "calm_focus (listeners s)"
    and "noticed b ms (doc s)"
    and "querySelector passwd_selector (fold apply_mutation ms (doc s)) = Some t"
    and "0 < offsetHeight t"
  shows "run_task (PageChange ms) s
    = (drain (fold mutate ms s))
        \<lparr>activeElement :=
           (if focusable t then Some (nid t) else activeElement (fold mutate ms s)),
         observers := [idle], actions := actions s @ [Focus (nid t)]\<rparr>"
proof -
  from assms(1) have "list_all (watching b) (observers s)" and "pending s = []"
    by (simp_all add: watching_def pending_def)
  from release_after_waiting [OF this assms(2), of "[]" ms t] assms(1,3-5)
  show ?thesis by simp
qed

section \<open>The theorems\<close>

text \<open>
  An example: two watchers, after two calls of \<open>clickUserSelectionTile\<close>, and
  the batch in which the field appears. The contract gives two focus calls.
\<close>

lemma twice_armed_spec:
  "watch_spec [InsertChild 3 0 (Text ''Password''), Relayout 6 36 True] twice_armed
     = \<lparr>doc = shown_doc, activeElement = Some 6, observers = [idle, idle],
        actions = [Click 4, Click 4, Focus 6, Focus 6], listeners = quiet\<rparr>"
proof -
  have "drain (fold mutate [InsertChild 3 0 (Text ''Password''), Relayout 6 36 True] twice_armed)
     = \<lparr>doc = shown_doc, activeElement = None,
        observers = [\<lparr>registered = [(3, watch_options)], queue = []\<rparr>,
                     \<lparr>registered = [(3, watch_options)], queue = []\<rparr>],
        actions = [Click 4, Click 4], listeners = quiet\<rparr>"
    by (simp add: twice_armed_eq shown_doc_def drain_def run_eval picker_subtree_ids
        picker_lookup_body)
  moreover have "noticed 3 [InsertChild 3 0 (Text ''Password''), Relayout 6 36 True] (doc twice_armed)"
    by (simp add: twice_armed_eq picker_subtree_ids)
  ultimately show ?thesis
    by (simp add: watch_spec_eq Let_def released_def the_textbox_def shown_doc_textbox
        notices_def passwd_shown_def)
qed

text \<open>
  C9. The field is focused at the first batch that qualifies, and only then.
  Let every observer be idle or a watcher of \<open>b\<close>, with nothing queued, and
  let focus listeners leave the document alone. The page makes batches of
  changes, none of which qualifies (no child is inserted or removed below \<open>b\<close>,
  or the field is missing or has no height at the end of the batch); then a
  batch that does; then any further batches. The log of the whole run is the
  log at the start followed by one \<^verbatim>\<open>focus()\<close> call on the field for every
  watcher: nothing is focused before the qualifying batch and nothing after
  it. At the end every observer is disconnected, and at the end of the
  qualifying batch the field holds focus if it can take focus and there was a
  watcher.
\<close>

theorem focused_at_first_qualifying_batch:
  assumes "list_all (watching b) (observers s)" and "pending s = []"
    and "calm_focus (listeners s)" and "waiting b pre (doc s)"
    and "noticed b ms (fold apply_mutation (concat pre) (doc s))"
    and "querySelector passwd_selector (fold apply_mutation (concat pre @ ms) (doc s)) = Some t"
    and "0 < offsetHeight t"
  shows "actions (run (map PageChange (pre @ ms # post)) s)
      = actions s @ replicate (length (filter connected (observers s))) (Focus (nid t))
    \<and> list_all (\<lambda>ob. ob = idle) (observers (run (map PageChange (pre @ ms # post)) s))
    \<and> (focusable t \<and> list_ex connected (observers s)
          \<longrightarrow> activeElement (run (map PageChange (pre @ [ms])) s) = Some (nid t))"
proof -
  define s2 where "s2 = run (map PageChange (pre @ [ms])) s"
  note s2 = release_after_waiting [OF assms, folded s2_def]
  have idle: "list_all (\<lambda>ob. ob = idle) (observers s2)"
    by (simp add: s2 list_all_iff)
  moreover from assms(3) have "calm_focus (listeners s2)" by (simp add: s2)
  ultimately have "run (map PageChange post) s2 = drain (fold mutate (concat post) s2)"
    by (rule released_run)
  then have "run (map PageChange (pre @ ms # post)) s = drain (fold mutate (concat post) s2)"
    by (simp add: s2_def)
  with all_idle_drain [OF idle, of "concat post"] show ?thesis
    unfolding s2_def [symmetric] by (simp add: s2)
qed

theorem focused_at_first_qualifying_batch_witness:
  "actions (run (map PageChange ([[InsertChild 3 0 (Text ''Loading'')]]
        @ [RemoveChild 3 0, Relayout 6 36 True] # [[InsertChild 3 0 (Text ''Signing in'')]]))
      armed_picker)
      = actions armed_picker
          @ replicate (length (filter connected (observers armed_picker))) (Focus (nid passwd_shown))
    \<and> list_all (\<lambda>ob. ob = idle)
        (observers (run (map PageChange ([[InsertChild 3 0 (Text ''Loading'')]]
          @ [RemoveChild 3 0, Relayout 6 36 True] # [[InsertChild 3 0 (Text ''Signing in'')]]))
        armed_picker))
    \<and> activeElement (run (map PageChange ([[InsertChild 3 0 (Text ''Loading'')]]
          @ [[RemoveChild 3 0, Relayout 6 36 True]])) armed_picker) = Some (nid passwd_shown)"
proof -
  have loading: "apply_mutation (InsertChild 3 0 (Text ''Loading'')) picker_doc
      = [Element (shown 1 ''html'' [] 600) [Element (hidden 2 ''head'' []) [],
          Element (shown 3 ''body'' [] 600)
            [Text ''Loading'', Element tile_a [Text ''alice@example.ac.jp''],
             Element tile_b [Text ''Use another account''], Element passwd_hidden []]]]"
    by (simp add: apply_mutation_def insert_at_def fixture_defs)
  have watchers: "list_all (watching 3) (observers armed_picker)"
    and quiet: "pending armed_picker = []" "calm_focus (listeners armed_picker)"
    by (simp_all add: armed_picker_eq watching_def pending_def calm_focus_def quiet_def)
  have waits: "waiting 3 [[InsertChild 3 0 (Text ''Loading'')]] (doc armed_picker)"
    by (simp add: armed_picker_eq qualifies_eq loading)
      (simp add: querySelector_def fixture_defs sel_defs getAttribute_def)
  have seen: "noticed 3 [RemoveChild 3 0, Relayout 6 36 True]
      (fold apply_mutation (concat [[InsertChild 3 0 (Text ''Loading'')]]) (doc armed_picker))"
    by (simp add: armed_picker_eq loading)
      (simp add: subtree_ids_def child_nodes_def has_id_def fixture_defs)
  have shown: "querySelector passwd_selector
      (fold apply_mutation (concat [[InsertChild 3 0 (Text ''Loading'')]]
          @ [RemoveChild 3 0, Relayout 6 36 True]) (doc armed_picker)) = Some passwd_shown"
    by (simp add: armed_picker_eq loading)
      (simp add: apply_mutation_def remove_at_def querySelector_def fixture_defs sel_defs
        getAttribute_def)
  have height: "0 < offsetHeight passwd_shown" by (simp add: passwd_shown_def)
  have able: "focusable passwd_shown \<and> list_ex connected (observers armed_picker)"
    by (simp add: passwd_shown_def armed_picker_eq connected_def)
  from focused_at_first_qualifying_batch [OF watchers quiet waits seen shown height] able
  show ?thesis by blast
qed

end
