(* ===== verification/Frame.thy ===== *)
theory Frame
  imports Watcher
begin

text \<open>
  What a run does to the document and to the focus. The script has no
  statement that changes the document: every change comes from the page, either
  in a batch of its own or in a listener that runs inside \<^verbatim>\<open>click()\<close> or
  \<^verbatim>\<open>focus()\<close>. The theory turns this into a transfer principle (a property of
  documents that the page keeps is kept by every run), instantiates it with
  well-formedness, and shows that the focused element is always an element of
  the document.
\<close>

section \<open>What the script does to the document\<close>

text \<open>
  The script changes the document only through the page's own listeners, which
  run inside \<^verbatim>\<open>click()\<close> and \<^verbatim>\<open>focus()\<close>. So a property of the document that the
  page's listeners keep (\<open>doc_closed\<close>) is kept by every call and by every
  notification of the observers.
\<close>

definition doc_closed :: "(document \<Rightarrow> bool) \<Rightarrow> (action \<Rightarrow> document \<Rightarrow> mutation list) \<Rightarrow> bool" where
  "doc_closed Q l \<longleftrightarrow> (\<forall>a d. Q d \<longrightarrow> Q (fold apply_mutation (l a d) d))"

lemma run_listeners_keeps:
  "doc_closed Q (listeners s) \<Longrightarrow> Q (doc s) \<Longrightarrow> Q (doc (run_listeners a s))"
  by (simp add: doc_closed_def)

lemma click_keeps: "doc_closed Q (listeners s) \<Longrightarrow> Q (doc s) \<Longrightarrow> Q (doc (click e s))"
  by (simp add: click_doc doc_closed_def)

lemma focus_keeps: "doc_closed Q (listeners s) \<Longrightarrow> Q (doc s) \<Longrightarrow> Q (doc (focus e s))"
  by (simp add: focus_def Let_def doc_closed_def)

lemma deliver_keeps: "doc_closed Q (listeners s) \<Longrightarrow> Q (doc s) \<Longrightarrow> Q (doc (deliver oid s))"
  by (simp add: deliver_eq focus_keeps)

lemma fold_deliver_keeps:
  "doc_closed Q (listeners s) \<Longrightarrow> Q (doc s) \<Longrightarrow> Q (doc (fold deliver oids s))"
  by (induction oids arbitrary: s) (simp_all add: deliver_keeps)

lemma notify_keeps: "doc_closed Q (listeners s) \<Longrightarrow> Q (doc s) \<Longrightarrow> Q (doc (notify s))"
proof (induction s rule: notify.induct)
  case (1 s)
  show ?case
  proof (cases "pending s = []")
    case True
    with 1 show ?thesis by (simp add: notify_quiet)
  next
    case False
    with 1 show ?thesis by (simp add: notify_step notify_round_def fold_deliver_keeps)
  qed
qed

lemma call_keeps:
  assumes "doc_closed Q (listeners s)" and "Q (doc s)"
  shows "Q (doc (state_of (call a s)))"
proof (cases a)
  case ClickUniversityLoginButton
  with assms show ?thesis
    by (simp add: clickUniversityLoginButton_def click_keeps split: option.split)
next
  case ClickUserSelectionTile
  with assms show ?thesis
    by (simp add: clickUserSelectionTile_cases waitForTextboxToAppear_cases click_keeps
        split: list.split option.split)
next
  case FocusTextbox
  with assms show ?thesis by (simp add: focusTextbox_def Let_def focus_keeps)
qed

lemma call_listeners [simp]: "listeners (state_of (call a s)) = listeners s"
  by (cases a)
    (simp_all add: clickUniversityLoginButton_def clickUserSelectionTile_cases
      waitForTextboxToAppear_cases focusTextbox_def Let_def split: list.split option.split)

lemma run_task_listeners [simp]: "listeners (run_task t s) = listeners s"
  by (cases t) (simp_all add: run_task_def)

text \<open>The page's own batches keep \<open>Q\<close>, each on the document it meets.\<close>

fun changes_keep :: "(document \<Rightarrow> bool) \<Rightarrow> task list \<Rightarrow> page \<Rightarrow> bool" where
  "changes_keep Q [] s = True"
| "changes_keep Q (Call a # ts) s = changes_keep Q ts (run_task (Call a) s)"
| "changes_keep Q (PageChange ms # ts) s =
     (Q (fold apply_mutation ms (doc s)) \<and> changes_keep Q ts (run_task (PageChange ms) s))"

lemma run_task_keeps:
  assumes "doc_closed Q (listeners s)" and "Q (doc s)"
    and "\<And>ms. t = PageChange ms \<Longrightarrow> Q (fold apply_mutation ms (doc s))"
  shows "Q (doc (run_task t s))"
proof -
  from assms have "Q (doc (perform t s))" by (cases t) (simp_all add: call_keeps)
  moreover from assms(1) have "doc_closed Q (listeners (perform t s))" by (cases t) simp_all
  ultimately show ?thesis unfolding run_task_def by (rule notify_keeps [rotated])
qed

text \<open>
  Listeners are well behaved when the changes they make to a well-formed
  document are fresh; \<open>fresh_run\<close> says the same of the page's own batches.
\<close>

definition well_behaved :: "(action \<Rightarrow> document \<Rightarrow> mutation list) \<Rightarrow> bool" where
  "well_behaved l \<longleftrightarrow> (\<forall>a d. wf_document d \<longrightarrow> fresh_changes (l a d) d)"

fun fresh_run :: "task list \<Rightarrow> page \<Rightarrow> bool" where
  "fresh_run [] s = True"
| "fresh_run (Call a # ts) s = fresh_run ts (run_task (Call a) s)"
| "fresh_run (PageChange ms # ts) s =
     (fresh_changes ms (doc s) \<and> fresh_run ts (run_task (PageChange ms) s))"

lemma well_behaved_closed: "well_behaved l \<Longrightarrow> doc_closed wf_document l"
  by (simp add: well_behaved_def doc_closed_def fold_apply_mutation_wf)

lemma well_behaved_quiet [simp]: "well_behaved quiet"
  by (simp add: well_behaved_def quiet_def)

section \<open>The focused element\<close>

text \<open>
  Focus does not dangle: the focused element, if there is one, is an element of
  the document. The page keeps this by dropping focus when the focused element
  is removed; the script keeps it because it focuses only what a query of the
  current document has returned.
\<close>

definition focus_in_document :: "page \<Rightarrow> bool" where
  "focus_in_document s \<longleftrightarrow>
     (case activeElement s of None \<Rightarrow> True | Some i \<Rightarrow> lookup (doc s) i \<noteq> None)"

lemma mutate_focus_in [simp]: "focus_in_document (mutate m s)"
  by (simp add: focus_in_document_def mutate_eval keep_focus_def split: option.split)

lemma fold_mutate_focus_in:
  "focus_in_document s \<Longrightarrow> focus_in_document (fold mutate ms s)"
  by (induction ms arbitrary: s) simp_all

lemma focus_in_frame [simp]:
  "focus_in_document (s\<lparr>actions := a\<rparr>) = focus_in_document s"
  "focus_in_document (s\<lparr>observers := obs\<rparr>) = focus_in_document s"
  by (simp_all add: focus_in_document_def cong: option.case_cong)

lemma focus_in_set:
  "focus_in_document (s\<lparr>activeElement := Some i\<rparr>) \<longleftrightarrow> lookup (doc s) i \<noteq> None"
  by (simp add: focus_in_document_def)

lemma click_focus_in: "focus_in_document s \<Longrightarrow> focus_in_document (click e s)"
  by (simp add: click_def Let_def run_listeners_def fold_mutate_focus_in)

lemma focus_focus_in:
  assumes "e \<in> set (doc_elements (doc s))" and "focus_in_document s"
  shows "focus_in_document (focus e s)"
proof -
  from assms(1) have "lookup (doc s) (nid e) \<noteq> None" by (simp add: lookup_None_iff)
  then have "focus_in_document (s\<lparr>actions := actions s @ [Focus (nid e)], activeElement := Some (nid e)\<rparr>)"
    by (simp add: focus_in_set)
  with assms(2) show ?thesis
    by (simp add: focus_def Let_def run_listeners_def fold_mutate_focus_in)
qed

lemma deliver_focus_in: "focus_in_document s \<Longrightarrow> focus_in_document (deliver oid s)"
proof (cases "fires oid s")
  case True
  assume inv: "focus_in_document s"
  from True obtain t where "querySelector passwd_selector (doc s) = Some t"
    by (cases "querySelector passwd_selector (doc s)") (auto simp: fires_def)
  then have "the_textbox s \<in> set (doc_elements (doc (clear_queue oid s)))"
    by (auto simp: the_textbox_def dest: querySelector_SomeD)
  moreover from inv have "focus_in_document (clear_queue oid s)" by (simp add: clear_queue_def)
  ultimately have "focus_in_document (focus (the_textbox s) (clear_queue oid s))"
    by (rule focus_focus_in)
  with True show ?thesis by (simp add: deliver_eq disconnect_def)
next
  case False
  assume "focus_in_document s"
  with False show ?thesis by (simp add: deliver_eq clear_queue_def)
qed

lemma fold_deliver_focus_in:
  "focus_in_document s \<Longrightarrow> focus_in_document (fold deliver oids s)"
  by (induction oids arbitrary: s) (simp_all add: deliver_focus_in)

lemma notify_focus_in: "focus_in_document s \<Longrightarrow> focus_in_document (notify s)"
proof (induction s rule: notify.induct)
  case (1 s)
  show ?case
  proof (cases "pending s = []")
    case True
    with 1 show ?thesis by (simp add: notify_quiet)
  next
    case False
    with 1 show ?thesis by (simp add: notify_step notify_round_def fold_deliver_focus_in)
  qed
qed

lemma call_focus_in:
  assumes "focus_in_document s"
  shows "focus_in_document (state_of (call a s))"
proof (cases a)
  case ClickUniversityLoginButton
  with assms show ?thesis
    by (simp add: clickUniversityLoginButton_def click_focus_in split: option.split)
next
  case ClickUserSelectionTile
  with assms show ?thesis
    by (simp add: clickUserSelectionTile_cases waitForTextboxToAppear_cases click_focus_in
        split: list.split option.split)
next
  case FocusTextbox
  with assms show ?thesis
    by (auto simp: focusTextbox_def Let_def intro!: focus_focus_in dest: querySelector_SomeD)
qed

lemma run_task_focus_in: "focus_in_document s \<Longrightarrow> focus_in_document (run_task t s)"
  by (cases t) (simp_all add: run_task_def notify_focus_in call_focus_in fold_mutate_focus_in)

section \<open>The document in a run\<close>

text \<open>
  C23. The script keeps what the page keeps. Let \<open>Q\<close> be a property of
  documents that the page's listeners keep and that the page's own batches
  keep in this run. If the document has it at the start, it has it at the end
  of the run: no call of an exported function and no callback changes the
  document except by running the page's listeners.
\<close>

theorem script_keeps_document_properties:
  "doc_closed Q (listeners s) \<Longrightarrow> Q (doc s) \<Longrightarrow> changes_keep Q ts s \<Longrightarrow> Q (doc (run ts s))"
proof (induction ts arbitrary: s)
  case Nil
  then show ?case by simp
next
  case (Cons t ts)
  from Cons.prems(3) have "Q (fold apply_mutation ms (doc s))" if "t = PageChange ms" for ms
    using that by simp
  with Cons.prems(1,2) have "Q (doc (run_task t s))" by (rule run_task_keeps)
  moreover from Cons.prems(3) have "changes_keep Q ts (run_task t s)" by (cases t) simp_all
  ultimately show ?case using Cons.prems(1) by (simp add: Cons.IH)
qed

theorem script_keeps_document_properties_witness:
  "body (doc (run [Call ClickUserSelectionTile, PageChange [RemoveChild 3 0], Call FocusTextbox]
     (page_of picker_doc))) \<noteq> None"
proof (rule script_keeps_document_properties [where Q = "\<lambda>d. body d \<noteq> None"])
  show "doc_closed (\<lambda>d. body d \<noteq> None) (listeners (page_of picker_doc))"
    by (simp add: doc_closed_def page_of_def quiet_def)
  show "body (doc (page_of picker_doc)) \<noteq> None"
    by (simp add: page_of_def fixture_body)
  have "body (apply_mutation (RemoveChild 3 0) picker_doc) \<noteq> None"
    by (simp add: body_def documentElement_def is_body_def apply_mutation_def remove_at_def
        fixture_defs)
  then show "changes_keep (\<lambda>d. body d \<noteq> None)
      [Call ClickUserSelectionTile, PageChange [RemoveChild 3 0], Call FocusTextbox]
      (page_of picker_doc)"
    by (simp add: armed_picker_def [symmetric] armed_picker_eq)
qed

text \<open>
  The document stays well formed. If identities are distinct at the
  start, the page's listeners are well behaved and the page's own batches
  only insert fresh nodes, then identities are distinct in every state of the
  run, so that every query of the script keeps finding each element once.
\<close>

theorem document_stays_well_formed:
  "wf_document (doc s) \<Longrightarrow> well_behaved (listeners s) \<Longrightarrow> fresh_run ts s \<Longrightarrow>
     wf_document (doc (run ts s))"
proof (induction ts arbitrary: s)
  case Nil
  then show ?case by simp
next
  case (Cons t ts)
  from Cons.prems(2) have closed: "doc_closed wf_document (listeners s)"
    by (rule well_behaved_closed)
  from Cons.prems(1,3) have "wf_document (fold apply_mutation ms (doc s))" if "t = PageChange ms" for ms
    using that by (simp add: fold_apply_mutation_wf)
  with closed Cons.prems(1) have "wf_document (doc (run_task t s))" by (rule run_task_keeps)
  moreover from Cons.prems(3) have "fresh_run ts (run_task t s)" by (cases t) simp_all
  ultimately show ?case using Cons.prems(2) by (simp add: Cons.IH)
qed

theorem document_stays_well_formed_witness:
  "wf_document (doc (run [Call ClickUserSelectionTile,
       PageChange [InsertChild 3 3 (Element (hidden 7 ''p'' []) [])]] (page_of picker_doc)))"
proof (rule document_stays_well_formed)
  show "wf_document (doc (page_of picker_doc))" by (simp add: page_of_def fixture_wf)
  show "well_behaved (listeners (page_of picker_doc))" by (simp add: page_of_def)
  have "fresh_for (InsertChild 3 3 (Element (hidden 7 ''p'' []) [])) picker_doc"
    by (simp add: fresh_for_def picker_doc_elements fixture_defs)
  then show "fresh_run [Call ClickUserSelectionTile,
      PageChange [InsertChild 3 3 (Element (hidden 7 ''p'' []) [])]] (page_of picker_doc)"
    by (simp add: armed_picker_def [symmetric] armed_picker_eq)
qed

text \<open>
  C24. Focus does not dangle. If the focused element is in the document at the
  start of a run, then in every state of the run the focused element is an
  element of the document: the script calls \<^verbatim>\<open>focus()\<close> only on what a query of
  the current document returned, and a removed element loses focus.
\<close>

theorem focus_stays_in_document:
  "focus_in_document s \<Longrightarrow> focus_in_document (run ts s)"
  by (induction ts arbitrary: s) (simp_all add: run_task_focus_in)

theorem focus_stays_in_document_witness:
  "focus_in_document (run [PageChange [RemoveChild 3 3]] focused_picker)"
  by (rule focus_stays_in_document)
    (simp add: focused_picker_eq focus_in_document_def lookup_def shown_doc_elements
      passwd_shown_def)

end
