(* ===== verification/Calls.thy ===== *)
theory Calls
  imports Contract Frame
begin

text \<open>
  The contract for the driver's calls, and for whole runs.

  A call of an exported function is a task like a batch of changes: it ends
  with the notification of the observers, and a \<^verbatim>\<open>click()\<close> runs listeners of the
  page, whose changes the watchers of earlier calls are told about.

  \<^item> \<open>clicked\<close>: a click and what the watchers make of the changes the click
    listeners made; \<open>watcher_added\<close>: one more observer, on the body if there
    is one.
  \<^item> \<open>call_spec\<close> and \<open>task_spec\<close>: what a call and what a task leads to, in
    terms of the document, the observers' registrations and the log only.
  \<^item> On a page whose observers are the script's and whose focus listeners
    leave the document alone, every task is \<open>task_spec\<close> and every run is the
    fold of \<open>task_spec\<close> over its tasks.
  \<^item> An example with a page script: a picker whose click listener shows the
    field (\<open>revealing_picker\<close>), on which the first call of
    \<open>clickUserSelectionTile\<close> focuses nothing and the second one does.
\<close>

section \<open>What a call leads to\<close>

definition clicked :: "elem \<Rightarrow> page \<Rightarrow> page" where
  "clicked e s =
     (let s1 = s\<lparr>actions := actions s @ [Click (nid e)]\<rparr>
      in if disabled_control e then s1 else watch_spec (listeners s (Click (nid e)) (doc s)) s1)"

definition watcher_added :: "page \<Rightarrow> page" where
  "watcher_added s =
     s\<lparr>observers := observers s @
        [case body (doc s) of None \<Rightarrow> idle | Some b \<Rightarrow> register (nid b) watch_options idle]\<rparr>"

definition focused :: "elem \<Rightarrow> page \<Rightarrow> page" where
  "focused t s =
     s\<lparr>activeElement := (if focusable t then Some (nid t) else activeElement s),
       actions := actions s @ [Focus (nid t)]\<rparr>"

fun call_spec :: "api \<Rightarrow> page \<Rightarrow> page" where
  "call_spec ClickUniversityLoginButton s =
     (case querySelector login_selector (doc s) of None \<Rightarrow> s | Some a \<Rightarrow> clicked a s)"
| "call_spec ClickUserSelectionTile s =
     (case querySelectorAll tile_selector (doc s) of
        [] \<Rightarrow> s
      | t # ts \<Rightarrow> watcher_added (clicked t s))"
| "call_spec FocusTextbox s =
     (case querySelector passwd_selector (doc s) of None \<Rightarrow> s | Some t \<Rightarrow> focused t s)"

fun task_spec :: "task \<Rightarrow> page \<Rightarrow> page" where
  "task_spec (Call a) s = call_spec a s"
| "task_spec (PageChange ms) s = watch_spec ms s"

section \<open>The pages of the contract\<close>

text \<open>
  The hypotheses of the contract: the observers are the script's, none holds a
  record, and focus listeners leave the document alone. Every task keeps them.
\<close>

definition settled :: "page \<Rightarrow> bool" where
  "settled s \<longleftrightarrow>
     list_all script_observer (observers s) \<and> pending s = [] \<and> calm_focus (listeners s)"

lemma settled_run_task:
  assumes "settled s"
  shows "settled (run_task t s)"
proof -
  from assms have "list_all script_observer (observers (run_task t s))"
    unfolding settled_def by (intro run_task_observers [OF script_observers_closed]) simp
  moreover have "pending (run_task t s) = []" by (simp add: run_task_def)
  ultimately show ?thesis using assms by (simp add: settled_def)
qed

lemma settled_logged [simp]: "settled (s\<lparr>actions := as\<rparr>) = settled s"
  by (simp add: settled_def pending_def)

section \<open>A click\<close>

lemma notify_clicked:
  assumes "settled s"
  shows "notify (click e s) = clicked e s"
proof (cases "disabled_control e")
  case True
  from assms have "pending (s\<lparr>actions := actions s @ [Click (nid e)]\<rparr>) = []"
    by (simp add: settled_def pending_def)
  with True show ?thesis by (simp add: click_def clicked_def Let_def notify_quiet)
next
  case False
  let ?s1 = "s\<lparr>actions := actions s @ [Click (nid e)]\<rparr>"
  let ?ms = "listeners s (Click (nid e)) (doc s)"
  from assms have "settled ?s1" by simp
  then have "run_task (PageChange ?ms) ?s1 = watch_spec ?ms ?s1"
    by (simp add: settled_def run_task_spec)
  with False show ?thesis
    by (simp add: click_def clicked_def Let_def run_listeners_def run_task_def)
qed

section \<open>A new observer\<close>

lemma notify_calm_doc:
  assumes "childList_queues s" and "calm_focus (listeners s)"
  shows "doc (notify s) = doc s"
proof (cases "textbox_visible (querySelector passwd_selector (doc s))")
  case True
  from notify_all_fire [OF assms(2) True assms(1)] show ?thesis by simp
next
  case False
  then show ?thesis by (simp add: notify_waits)
qed

lemma notify_added:
  assumes "childList_queues s" and "calm_focus (listeners s)" and "queue w = []"
  shows "notify (s\<lparr>observers := observers s @ [w]\<rparr>)
    = (notify s)\<lparr>observers := observers (notify s) @ [w]\<rparr>"
proof (cases "textbox_visible (querySelector passwd_selector (doc s))")
  case True
  let ?s = "s\<lparr>observers := observers s @ [w]\<rparr>"
  from assms(1,3) have "childList_queues ?s" by (simp add: childList_queues_def)
  moreover from assms(3) have "n_pending ?s = n_pending s"
    by (simp add: n_pending_def)
  then have "pending ?s = [] \<longleftrightarrow> pending s = []"
    by (simp only: length_pending [symmetric] length_0_conv [symmetric])
  ultimately show ?thesis
    using notify_all_fire [of ?s] notify_all_fire [OF assms(2) True assms(1)] True assms(2,3)
    by (simp add: the_textbox_def n_pending_def)
next
  case False
  with assms(3) show ?thesis by (simp add: notify_waits drain_def)
qed

lemma childList_queues_click:
  "list_all script_observer (observers s) \<Longrightarrow> childList_queues (click e s)"
  by (intro childList_queues_script click_observers [OF script_closed_page [OF script_observers_closed]])

lemma notify_watcher_added:
  assumes "settled s"
  shows "notify (state_of (waitForTextboxToAppear (click e s))) = watcher_added (clicked e s)"
proof -
  let ?w = "case body (doc (click e s)) of None \<Rightarrow> idle
    | Some b \<Rightarrow> register (nid b) watch_options idle"
  from assms have q: "childList_queues (click e s)" and calm: "calm_focus (listeners (click e s))"
    by (simp_all add: settled_def childList_queues_click)
  have "state_of (waitForTextboxToAppear (click e s))
      = (click e s)\<lparr>observers := observers (click e s) @ [?w]\<rparr>"
    by (simp add: waitForTextboxToAppear_cases split: option.split)
  moreover have "queue ?w = []" by (simp split: option.split)
  ultimately have "notify (state_of (waitForTextboxToAppear (click e s)))
      = (notify (click e s))\<lparr>observers := observers (notify (click e s)) @ [?w]\<rparr>"
    using q calm by (simp only: notify_added)
  moreover have "doc (notify (click e s)) = doc (click e s)"
    using q calm by (rule notify_calm_doc)
  ultimately show ?thesis
    by (simp add: watcher_added_def notify_clicked [OF assms, symmetric])
qed

section \<open>A focus call\<close>

lemma focus_focused: "calm_focus (listeners s) \<Longrightarrow> focus t s = focused t s"
  by (rule page.equality)
    (simp_all add: focused_def focus_calm focus_calm_active)

section \<open>Tasks and runs\<close>

lemma run_task_call_spec:
  assumes "settled s"
  shows "run_task (Call a) s = call_spec a s"
proof (cases a)
  case ClickUniversityLoginButton
  with assms show ?thesis
    by (simp add: run_task_def clickUniversityLoginButton_def notify_clicked notify_quiet
        settled_def split: option.split)
next
  case ClickUserSelectionTile
  with assms show ?thesis
    by (simp add: run_task_def clickUserSelectionTile_cases notify_watcher_added notify_quiet
        settled_def split: list.split)
next
  case FocusTextbox
  from assms have "pending (focus t s) = []" for t
    using focus_calm [of s t] by (simp add: settled_def pending_def)
  with assms FocusTextbox show ?thesis
    by (simp add: run_task_def focusTextbox_cases notify_quiet focus_focused settled_def
        split: option.split)
qed

lemma run_task_task_spec: "settled s \<Longrightarrow> run_task t s = task_spec t s"
  by (cases t) (simp_all add: run_task_call_spec run_task_spec settled_def)

lemma run_task_specs:
  "settled s \<Longrightarrow> run ts s = fold task_spec ts s"
proof (induction ts arbitrary: s)
  case Nil
  show ?case by simp
next
  case (Cons t ts)
  from Cons.prems have "settled (run_task t s)" by (rule settled_run_task)
  with Cons show ?case by (simp add: run_task_task_spec)
qed

section \<open>A batch on a page without focus\<close>

text \<open>
  What a batch leaves once the queues are emptied, on a page where nothing is
  focused: the document changed, everything else as it was.
\<close>

lemma fold_mutate_unfocused:
  "activeElement s = None \<Longrightarrow> activeElement (fold mutate ms s) = None"
  by (induction ms arbitrary: s) (simp_all add: mutate_eval keep_focus_def)

lemma drain_fold_mutate_unfocused:
  assumes "activeElement s = None"
  shows "drain (fold mutate ms s)
    = s\<lparr>doc := fold apply_mutation ms (doc s), observers := observers (drain s)\<rparr>"
  using assms by (intro page.equality) (simp_all add: drain_observers fold_mutate_unfocused)

section \<open>An example: two calls on a page that shows the field at a click\<close>

text \<open>
  The account picker with a click listener that gives the field its height
  and inserts a label into the body. The first call of
  \<open>clickUserSelectionTile\<close> clicks the tile and adds its watcher after the
  listener has run: the field is shown and nothing is focused. The second
  call clicks again, the listener inserts another label, and the watcher of
  the first call focuses the field; the watcher of the second call is left
  watching.
\<close>

definition revealing_picker :: page where
  "revealing_picker = (page_of picker_doc)\<lparr>listeners := reveal_on_click\<rparr>"

definition relabelled_doc :: document where
  "relabelled_doc = fold apply_mutation [Relayout 6 36 True, InsertChild 3 0 (Text ''Password'')] shown_doc"

lemma revealed_doc:
  "fold apply_mutation [Relayout 6 36 True, InsertChild 3 0 (Text ''Password'')] picker_doc = shown_doc"
  by (simp add: shown_doc_def apply_mutation_def insert_at_def fixture_defs)

lemma shown_doc_tiles: "querySelectorAll tile_selector shown_doc = [tile_a, tile_b]"
  by (simp add: querySelectorAll_def shown_doc_elements)
    (simp add: sel_defs fixture_defs getAttribute_def classList_def split_ws_def ascii_ws_def)

lemma shown_doc_body: "body shown_doc = Some (shown 3 ''body'' [] 600)"
  by (simp add: body_def documentElement_def is_body_def shown_doc_def apply_mutation_def
      insert_at_def fixture_defs)

lemma shown_subtree_ids: "subtree_ids shown_doc 3 = [3, 4, 5, 6]"
  by (simp add: subtree_ids_def has_id_def shown_doc_def apply_mutation_def insert_at_def fixture_defs)

lemma relabelled_doc_textbox: "querySelector passwd_selector relabelled_doc = Some passwd_shown"
  by (simp add: querySelector_def relabelled_doc_def shown_doc_def apply_mutation_def insert_at_def
      sel_defs fixture_defs getAttribute_def)

lemma settled_revealing: "settled revealing_picker"
  by (simp add: settled_def revealing_picker_def page_of_def pending_def calm_focus_def
      reveal_on_click_def)

lemma first_click_spec:
  "call_spec ClickUserSelectionTile revealing_picker
     = \<lparr>doc = shown_doc, activeElement = None,
        observers = [\<lparr>registered = [(3, watch_options)], queue = []\<rparr>],
        actions = [Click 4], listeners = reveal_on_click\<rparr>"
proof -
  let ?ms = "[Relayout 6 36 True, InsertChild 3 0 (Text ''Password'')]"
  let ?s1 = "revealing_picker\<lparr>actions := [Click 4]\<rparr>"
  have "drain (fold mutate ?ms ?s1) = ?s1\<lparr>doc := shown_doc\<rparr>"
    using drain_fold_mutate_unfocused [of ?s1 ?ms] revealed_doc
    by (simp add: revealing_picker_def page_of_def drain_def)
  then have "watch_spec ?ms ?s1 = ?s1\<lparr>doc := shown_doc\<rparr>"
    by (simp add: watch_spec_eq Let_def released_def revealing_picker_def page_of_def)
  then show ?thesis
    by (simp add: revealing_picker_def page_of_def fixture_queries clicked_def Let_def
        reveal_on_click_def disabled_control_def tile_a_def getAttribute_def watcher_added_def
        shown_doc_body register_def idle_def)
qed

lemma second_click_spec:
  "call_spec ClickUserSelectionTile (call_spec ClickUserSelectionTile revealing_picker)
     = \<lparr>doc = relabelled_doc, activeElement = Some 6,
        observers = [idle, \<lparr>registered = [(3, watch_options)], queue = []\<rparr>],
        actions = [Click 4, Click 4, Focus 6], listeners = reveal_on_click\<rparr>"
proof -
  let ?ms = "[Relayout 6 36 True, InsertChild 3 0 (Text ''Password'')]"
  let ?w = "\<lparr>registered = [(3, watch_options)], queue = []\<rparr>"
  let ?s1 = "\<lparr>doc = shown_doc, activeElement = None, observers = [?w],
        actions = [Click 4, Click 4], listeners = reveal_on_click\<rparr>"
  have "drain (fold mutate ?ms ?s1) = ?s1\<lparr>doc := relabelled_doc\<rparr>"
    using drain_fold_mutate_unfocused [of ?s1 ?ms] by (simp add: relabelled_doc_def drain_def)
  moreover have "noticed 3 ?ms shown_doc"
    by (simp add: shown_subtree_ids apply_mutation_def subtree_ids_def has_id_def shown_doc_def
        insert_at_def fixture_defs)
  ultimately have "watch_spec ?ms ?s1
      = ?s1\<lparr>doc := relabelled_doc, activeElement := Some 6, observers := [idle],
          actions := [Click 4, Click 4, Focus 6]\<rparr>"
    by (simp add: watch_spec_eq Let_def released_def the_textbox_def relabelled_doc_textbox
        notices_def passwd_shown_def)
  moreover have "body relabelled_doc = Some (shown 3 ''body'' [] 600)"
    by (simp add: body_def documentElement_def is_body_def relabelled_doc_def shown_doc_def
        apply_mutation_def insert_at_def fixture_defs)
  ultimately show ?thesis
    unfolding first_click_spec
    by (simp add: shown_doc_tiles clicked_def Let_def
        reveal_on_click_def disabled_control_def tile_a_def getAttribute_def watcher_added_def
        register_def)
qed

lemma second_click_focuses:
  "run [Call ClickUserSelectionTile, Call ClickUserSelectionTile] revealing_picker
     = \<lparr>doc = relabelled_doc, activeElement = Some 6,
        observers = [idle, \<lparr>registered = [(3, watch_options)], queue = []\<rparr>],
        actions = [Click 4, Click 4, Focus 6], listeners = reveal_on_click\<rparr>"
  unfolding run_task_specs [OF settled_revealing] fold_simps task_spec.simps
  by (rule second_click_spec)

section \<open>The theorems\<close>

text \<open>
  C8. The script meets its contract, task by task. Let the observers of the
  page be the script's, with nothing queued, and let focus listeners leave the
  document alone. Then every task leads to the page the contract gives.
  A batch of changes by the page: the changes are made, and if the password
  field has a height at the end, every observer that noticed the batch (a
  child inserted or removed below the element it watches) has made one
  \<^verbatim>\<open>focus()\<close> call on the field and is disconnected, and the field is focused
  if it can take focus; nothing else has happened. A call of
  \<open>clickUniversityLoginButton\<close> or \<open>clickUserSelectionTile\<close>: the click is logged,
  the changes of the page's click listeners are a batch like any other, and
  then, for the tile, one observer is added, on the body if there is one. A
  call of \<open>focusTextbox\<close>: one focus call on the field if it exists.
\<close>

theorem task_meets_contract:
  assumes "list_all script_observer (observers s)" and "pending s = []"
    and "calm_focus (listeners s)"
  shows "run_task t s = task_spec t s"
  using assms by (intro run_task_task_spec) (simp add: settled_def)

theorem task_meets_contract_witness:
  "run_task (PageChange [InsertChild 3 0 (Text ''Password''), Relayout 6 36 True]) twice_armed
     = \<lparr>doc = shown_doc, activeElement = Some 6, observers = [idle, idle],
        actions = [Click 4, Click 4, Focus 6, Focus 6], listeners = quiet\<rparr>
   \<and> run_task (Call ClickUserSelectionTile)
       \<lparr>doc = shown_doc, activeElement = None,
        observers = [\<lparr>registered = [(3, watch_options)], queue = []\<rparr>],
        actions = [Click 4], listeners = reveal_on_click\<rparr>
     = \<lparr>doc = relabelled_doc, activeElement = Some 6,
        observers = [idle, \<lparr>registered = [(3, watch_options)], queue = []\<rparr>],
        actions = [Click 4, Click 4, Focus 6], listeners = reveal_on_click\<rparr>"
proof -
  let ?ms = "[InsertChild 3 0 (Text ''Password''), Relayout 6 36 True]"
  let ?s = "\<lparr>doc = shown_doc, activeElement = None,
        observers = [\<lparr>registered = [(3, watch_options)], queue = []\<rparr>],
        actions = [Click 4], listeners = reveal_on_click\<rparr>"
  have "run_task (PageChange ?ms) twice_armed = task_spec (PageChange ?ms) twice_armed"
    by (rule task_meets_contract)
      (simp_all add: twice_armed_eq script_observer_def armed_def pending_def calm_focus_def
        quiet_def)
  moreover have "run_task (Call ClickUserSelectionTile) ?s = task_spec (Call ClickUserSelectionTile) ?s"
    by (rule task_meets_contract)
      (simp_all add: script_observer_def armed_def pending_def calm_focus_def
        reveal_on_click_def)
  ultimately show ?thesis
    by (simp only: task_spec.simps twice_armed_spec second_click_spec [unfolded first_click_spec])
qed

end
