(* ===== verification/Session.thy ===== *)
theory Session
  imports Calls "HOL-Library.AList"
begin

text \<open>
  The script over the pages of a sign-on flow. A browser shows one page at a
  time. Loading a page ends the page before it: its observers are gone, and so
  is the script, until the driver injects it again. Evaluating the script only
  assigns its three functions to properties of \<^verbatim>\<open>window\<close> (lines 52 to 54 of the
  source); the driver then calls them by name.

  \<^item> \<open>browser\<close>: the page shown, the properties of \<^verbatim>\<open>window\<close> that the script has
    assigned, and the logs of the pages left behind.
  \<^item> \<open>step\<close>: what happens to a browser: a page is loaded, the script is
    injected, the driver calls a name, the page changes its document.
  \<^item> \<open>exec\<close> is one step, with the exception the driver sees, if any;
    \<open>transition\<close> is the same as a relation; \<open>session\<close> is a sequence of steps.
  \<^item> \<open>session_ok\<close> is the well-formedness of a browser, kept by every step, and
    so a property of every browser that is \<open>reachable\<close>.
\<close>

section \<open>The script on a page\<close>

record browser =
  current :: page
  window :: "(string \<times> api) list"
  history :: "action list list"

text \<open>An assignment \<^verbatim>\<open>window.name = f\<close>, and the three of the script in their order.\<close>

definition assign :: "string \<Rightarrow> api \<Rightarrow> browser \<Rightarrow> browser" where
  "assign name f b = b\<lparr>window := AList.update name f (window b)\<rparr>"

definition load_script :: "browser \<Rightarrow> browser" where
  "load_script b =
     assign ''focusTextbox'' FocusTextbox
       (assign ''clickUserSelectionTile'' ClickUserSelectionTile
         (assign ''clickUniversityLoginButton'' ClickUniversityLoginButton b))"

text \<open>
  A call \<^verbatim>\<open>window.name()\<close>: a name that is not bound to a function is a
  \<^verbatim>\<open>TypeError\<close> for the driver; otherwise the function runs as a task of the
  page, and the observers are notified before the driver has its answer.
\<close>

definition invoke :: "string \<Rightarrow> browser \<Rightarrow> browser completion" where
  "invoke name b =
     (case map_of (window b) name of
        None \<Rightarrow> Throw TypeError b
      | Some f \<Rightarrow>
          (case call f (current b) of
             Normal s \<Rightarrow> Normal (b\<lparr>current := notify s\<rparr>)
           | Throw e s \<Rightarrow> Throw e (b\<lparr>current := notify s\<rparr>)))"

section \<open>Steps\<close>

definition fresh_page :: "document \<Rightarrow> (action \<Rightarrow> document \<Rightarrow> mutation list) \<Rightarrow> page" where
  "fresh_page d l = \<lparr>doc = d, activeElement = None, observers = [], actions = [], listeners = l\<rparr>"

datatype step =
    Load document "action \<Rightarrow> document \<Rightarrow> mutation list"
  | Inject
  | Invoke string
  | Change "mutation list"

definition leave :: "document \<Rightarrow> (action \<Rightarrow> document \<Rightarrow> mutation list) \<Rightarrow> browser \<Rightarrow> browser" where
  "leave d l b =
     \<lparr>current = fresh_page d l, window = [], history = history b @ [actions (current b)]\<rparr>"

fun exec :: "step \<Rightarrow> browser \<Rightarrow> browser completion" where
  "exec (Load d l) b = Normal (leave d l b)"
| "exec Inject b = Normal (load_script b)"
| "exec (Invoke name) b = invoke name b"
| "exec (Change ms) b = Normal (b\<lparr>current := run_task (PageChange ms) (current b)\<rparr>)"

definition after :: "step \<Rightarrow> browser \<Rightarrow> browser" where
  "after x b = state_of (exec x b)"

definition session :: "step list \<Rightarrow> browser \<Rightarrow> browser" where
  "session xs b = fold after xs b"

text \<open>A visit of the driver to a page: load it, inject the script, call one name.\<close>

definition visiting :: "document \<Rightarrow> (action \<Rightarrow> document \<Rightarrow> mutation list) \<Rightarrow> string \<Rightarrow> step list" where
  "visiting d l name = [Load d l, Inject, Invoke name]"

definition start :: browser where
  "start = \<lparr>current = fresh_page [] quiet, window = [], history = []\<rparr>"

text \<open>The same steps as a relation, one rule for each way a step can go.\<close>

inductive transition :: "browser \<Rightarrow> step \<Rightarrow> browser \<Rightarrow> bool" where
  load: "transition b (Load d l) (leave d l b)"
| inject: "transition b Inject (load_script b)"
| invoke: "map_of (window b) name = Some f \<Longrightarrow>
    transition b (Invoke name) (b\<lparr>current := run_task (Call f) (current b)\<rparr>)"
| refuse: "map_of (window b) name = None \<Longrightarrow> transition b (Invoke name) b"
| change: "transition b (Change ms) (b\<lparr>current := run_task (PageChange ms) (current b)\<rparr>)"

inductive_cases LoadE: "transition b (Load d l) b'"
inductive_cases InjectE: "transition b Inject b'"
inductive_cases InvokeE: "transition b (Invoke name) b'"
inductive_cases ChangeE: "transition b (Change ms) b'"

inductive_simps transition_simps:
  "transition b (Load d l) b'" "transition b Inject b'"
  "transition b (Invoke name) b'" "transition b (Change ms) b'"

section \<open>Well-formed browsers\<close>

text \<open>
  \<open>exported\<close> is what \<^verbatim>\<open>window\<close> holds once the script has been evaluated on a
  page. A page is in order between two tasks when its document is well formed,
  its focus is in the document, its observers are those of the script and have
  been notified, and its listeners are well behaved. A browser is in order when
  its page is, and when the script is either absent or complete; without the
  script there is no observer.
\<close>

definition exported :: "(string \<times> api) list" where
  "exported =
     [(''clickUniversityLoginButton'', ClickUniversityLoginButton),
      (''clickUserSelectionTile'', ClickUserSelectionTile),
      (''focusTextbox'', FocusTextbox)]"

definition page_ok :: "page \<Rightarrow> bool" where
  "page_ok s \<longleftrightarrow>
     wf_document (doc s) \<and> focus_in_document s \<and> list_all script_observer (observers s)
       \<and> pending s = [] \<and> well_behaved (listeners s)"

definition session_ok :: "browser \<Rightarrow> bool" where
  "session_ok b \<longleftrightarrow>
     page_ok (current b)
       \<and> (window b = [] \<and> observers (current b) = [] \<or> window b = exported)"

fun step_ok :: "step \<Rightarrow> browser \<Rightarrow> bool" where
  "step_ok (Load d l) b = (wf_document d \<and> well_behaved l)"
| "step_ok (Change ms) b = fresh_changes ms (doc (current b))"
| "step_ok x b = True"

fun steps_ok :: "step list \<Rightarrow> browser \<Rightarrow> bool" where
  "steps_ok [] b = True"
| "steps_ok (x # xs) b = (step_ok x b \<and> steps_ok xs (after x b))"

section \<open>Steps, one by one\<close>

lemma session_simps [simp]:
  "session [] b = b"
  "session (x # xs) b = session xs (after x b)"
  "session (xs @ ys) b = session ys (session xs b)"
  by (simp_all add: session_def)

lemma steps_ok_append:
  "steps_ok (xs @ ys) b \<longleftrightarrow> steps_ok xs b \<and> steps_ok ys (session xs b)"
  by (induction xs arbitrary: b) simp_all

lemma invoke_state:
  "state_of (invoke name b) =
     (case map_of (window b) name of
        None \<Rightarrow> b
      | Some f \<Rightarrow> b\<lparr>current := run_task (Call f) (current b)\<rparr>)"
  by (simp add: invoke_def run_task_def split: option.split completion.split)

lemma invoke_thrown:
  "thrown (invoke name b) =
     (case map_of (window b) name of
        None \<Rightarrow> Some TypeError
      | Some f \<Rightarrow> thrown (call f (current b)))"
  by (simp add: invoke_def split: option.split completion.split)

lemma after_simps [simp]:
  "after (Load d l) b = leave d l b"
  "after Inject b = load_script b"
  "after (Change ms) b = b\<lparr>current := run_task (PageChange ms) (current b)\<rparr>"
  "after (Invoke name) b =
     (case map_of (window b) name of
        None \<Rightarrow> b
      | Some f \<Rightarrow> b\<lparr>current := run_task (Call f) (current b)\<rparr>)"
  by (simp_all add: after_def invoke_state)

lemma transition_after: "transition b x b' \<longleftrightarrow> b' = after x b"
  by (cases x) (auto simp: transition_simps split: option.splits)

lemma transition_uniq: "transition b x b' \<Longrightarrow> transition b x b'' \<Longrightarrow> b' = b''"
  by (simp add: transition_after)

lemma leave_simps [simp]:
  "current (leave d l b) = fresh_page d l"
  "window (leave d l b) = []"
  "history (leave d l b) = history b @ [actions (current b)]"
  by (simp_all add: leave_def)

lemma fresh_page_simps [simp]:
  "doc (fresh_page d l) = d" "activeElement (fresh_page d l) = None"
  "observers (fresh_page d l) = []" "actions (fresh_page d l) = []"
  "listeners (fresh_page d l) = l"
  by (simp_all add: fresh_page_def)

lemma fresh_page_quiet: "fresh_page d quiet = page_of d"
  by (simp add: fresh_page_def page_of_def)

lemma load_script_simps [simp]:
  "current (load_script b) = current b"
  "history (load_script b) = history b"
  by (simp_all add: load_script_def assign_def)

text \<open>The script binds its three names, whatever \<^verbatim>\<open>window\<close> held before.\<close>

lemma window_after_script:
  "map_of (window (load_script b)) name =
     (if name = ''focusTextbox'' then Some FocusTextbox
      else if name = ''clickUserSelectionTile'' then Some ClickUserSelectionTile
      else if name = ''clickUniversityLoginButton'' then Some ClickUniversityLoginButton
      else map_of (window b) name)"
  by (simp add: load_script_def assign_def update_conv')

lemma load_script_fresh: "window b = [] \<Longrightarrow> window (load_script b) = exported"
  by (simp add: load_script_def assign_def exported_def)

lemma load_script_again: "window b = exported \<Longrightarrow> window (load_script b) = exported"
  by (simp add: load_script_def assign_def exported_def)

lemma map_of_exported:
  "map_of exported name = Some f \<longleftrightarrow>
     name = ''clickUniversityLoginButton'' \<and> f = ClickUniversityLoginButton
       \<or> name = ''clickUserSelectionTile'' \<and> f = ClickUserSelectionTile
       \<or> name = ''focusTextbox'' \<and> f = FocusTextbox"
  by (auto simp: exported_def)

text \<open>Every function of the script has one name, and every name one function.\<close>

lemma exported_bijection:
  "map snd exported = enum_class.enum" "distinct (map fst exported)"
  by (simp_all add: exported_def enum_api_def)

lemma every_function_exported: "\<exists>name. map_of exported name = Some f"
  by (cases f) (auto simp: map_of_exported)

section \<open>What a step leaves and what it takes\<close>

lemma load_resets:
  "transition b (Load d l) b' \<Longrightarrow> window b' = [] \<and> observers (current b') = []"
  by (erule LoadE) simp

lemma inject_keeps_page: "transition b Inject b' \<Longrightarrow> current b' = current b"
  by (erule InjectE) simp

lemma invoke_keeps_window: "transition b (Invoke name) b' \<Longrightarrow> window b' = window b"
  by (erule InvokeE) simp_all

lemma change_keeps_window: "transition b (Change ms) b' \<Longrightarrow> window b' = window b"
  by (erule ChangeE) simp

lemma history_grows: "transition b x b' \<Longrightarrow> prefix (history b) (history b')"
  by (erule transition.cases) simp_all

section \<open>Every step keeps the browser in order\<close>

lemma fresh_page_ok: "wf_document d \<Longrightarrow> well_behaved l \<Longrightarrow> page_ok (fresh_page d l)"
  by (simp add: page_ok_def focus_in_document_def pending_def)

lemma run_task_page_ok:
  assumes "page_ok s" and "\<And>ms. t = PageChange ms \<Longrightarrow> fresh_changes ms (doc s)"
  shows "page_ok (run_task t s)"
proof -
  from assms(1) have wf: "wf_document (doc s)" and closed: "doc_closed wf_document (listeners s)"
    by (simp_all add: page_ok_def well_behaved_closed)
  from wf assms(2) have "wf_document (fold apply_mutation ms (doc s))" if "t = PageChange ms" for ms
    using that by (simp add: fold_apply_mutation_wf)
  with closed wf have "wf_document (doc (run_task t s))" by (rule run_task_keeps)
  moreover from assms(1) have "list_all script_observer (observers (run_task t s))"
    using run_task_observers [OF script_observers_closed] by (simp add: page_ok_def)
  moreover have "pending (run_task t s) = []" by (simp add: run_task_def)
  ultimately show ?thesis using assms(1) by (simp add: page_ok_def run_task_focus_in)
qed

lemma call_page_ok: "page_ok s \<Longrightarrow> page_ok (run_task (Call f) s)"
  by (rule run_task_page_ok) simp_all

lemma change_page_ok:
  "page_ok s \<Longrightarrow> fresh_changes ms (doc s) \<Longrightarrow> page_ok (run_task (PageChange ms) s)"
  by (rule run_task_page_ok) simp_all

lemma unobserved_page [simp]:
  "observers s = [] \<Longrightarrow> observers (fold mutate ms s) = []"
  "observers s = [] \<Longrightarrow> observers (click e s) = []"
  by (simp_all only: length_0_conv [symmetric] fold_mutate_frame click_frame)

lemma change_without_observers:
  "observers s = [] \<Longrightarrow> observers (run_task (PageChange ms) s) = []"
  by (simp add: run_task_def notify_quiet pending_def)

lemma transition_type_safe:
  assumes "transition b x b'" and "step_ok x b" and "session_ok b"
  shows "session_ok b'"
  using assms
proof cases
  case (load d l)
  with assms(2) show ?thesis by (simp add: session_ok_def fresh_page_ok)
next
  case inject
  with assms(3) show ?thesis
    by (auto simp: session_ok_def load_script_fresh load_script_again)
next
  case (invoke name f)
  with assms(3) have "window b = exported" by (auto simp: session_ok_def)
  with invoke assms(3) show ?thesis by (simp add: session_ok_def call_page_ok)
next
  case (refuse name)
  with assms(3) show ?thesis by simp
next
  case (change ms)
  with assms(2,3) show ?thesis
    by (auto simp: session_ok_def change_page_ok change_without_observers)
qed

lemma start_ok: "session_ok start"
  by (simp add: start_def session_ok_def fresh_page_ok wf_document_def doc_elements_def)

section \<open>The browsers a driver can reach\<close>

text \<open>
  The browsers reached from the first, empty page by steps that are in order.
  All of them are well formed, and they are the ends of the sessions.
\<close>

inductive reachable :: "browser \<Rightarrow> bool" where
  reachable_start: "reachable start"
| reachable_step: "reachable b \<Longrightarrow> step_ok x b \<Longrightarrow> transition b x b' \<Longrightarrow> reachable b'"

lemma reachable_ok: "reachable b \<Longrightarrow> session_ok b"
  by (induction rule: reachable.induct) (auto intro: start_ok transition_type_safe)

lemma reachable_session: "reachable b \<Longrightarrow> steps_ok xs b \<Longrightarrow> reachable (session xs b)"
proof (induction xs arbitrary: b)
  case Nil
  then show ?case by simp
next
  case (Cons x xs)
  from Cons.prems have "reachable (after x b)"
    by (auto intro: reachable_step simp: transition_after)
  with Cons.prems show ?case by (simp add: Cons.IH)
qed

lemma reachable_iff: "reachable b \<longleftrightarrow> (\<exists>xs. steps_ok xs start \<and> b = session xs start)"
proof
  assume "reachable b"
  then show "\<exists>xs. steps_ok xs start \<and> b = session xs start"
  proof induction
    case reachable_start
    have "steps_ok [] start \<and> start = session [] start" by simp
    then show ?case ..
  next
    case (reachable_step b x b')
    then obtain xs where "steps_ok xs start" and "b = session xs start" by blast
    with reachable_step.hyps have "steps_ok (xs @ [x]) start \<and> b' = session (xs @ [x]) start"
      by (simp add: steps_ok_append transition_after)
    then show ?case ..
  qed
next
  assume "\<exists>xs. steps_ok xs start \<and> b = session xs start"
  then show "reachable b" by (auto intro: reachable_session reachable_start)
qed

section \<open>A visit: load, inject, call\<close>

lemma visit:
  assumes "map_of exported name = Some f"
  shows "session (visiting d l name) b =
     \<lparr>current = run_task (Call f) (fresh_page d l), window = exported,
      history = history b @ [actions (current b)]\<rparr>"
proof -
  have "window (load_script (leave d l b)) = exported" by (simp add: load_script_fresh)
  with assms show ?thesis by (simp add: visiting_def)
qed

lemma exported_lookup:
  "map_of exported ''clickUniversityLoginButton'' = Some ClickUniversityLoginButton"
  "map_of exported ''clickUserSelectionTile'' = Some ClickUserSelectionTile"
  "map_of exported ''focusTextbox'' = Some FocusTextbox"
  by (simp_all add: exported_def)

lemmas visits = exported_lookup [THEN visit]

lemma run_task_unobserved:
  "observers s = [] \<Longrightarrow> run_task (Call ClickUniversityLoginButton) s = clickUniversityLoginButton s"
  by (simp add: run_task_def notify_quiet pending_def clickUniversityLoginButton_def
      split: option.split)

lemma run_task_arms:
  assumes "observers s = []" and "querySelectorAll tile_selector (doc s) = t # ts"
    and "body (doc (click t s)) = Some bd"
  shows "run_task (Call ClickUserSelectionTile) s
     = click t s\<lparr>observers := [register (nid bd) watch_options idle]\<rparr>"
proof -
  from assms have "state_of (clickUserSelectionTile s)
      = click t s\<lparr>observers := [register (nid bd) watch_options idle]\<rparr>"
    by (simp add: clickUserSelectionTile_cases waitForTextboxToAppear_cases)
  then show ?thesis by (simp add: run_task_def notify_quiet pending_def register_def idle_def)
qed

lemma run_task_tile_doc:
  assumes "observers s = []" and "querySelectorAll tile_selector (doc s) = t # ts"
  shows "doc (run_task (Call ClickUserSelectionTile) s) = doc (click t s)"
proof -
  from assms have "pending (state_of (clickUserSelectionTile s)) = []"
    by (simp add: clickUserSelectionTile_cases waitForTextboxToAppear_cases pending_def
        register_def idle_def split: option.split)
  with assms(2) show ?thesis
    by (simp add: run_task_def notify_quiet clickUserSelectionTile_cases
        waitForTextboxToAppear_cases split: option.split)
qed

section \<open>Fixtures: a sign-on session\<close>

definition sign_on :: "step list" where
  "sign_on =
     visiting portal_doc quiet ''clickUniversityLoginButton''
       @ visiting picker_doc quiet ''clickUserSelectionTile''"

definition field_appears :: step where
  "field_appears = Change [InsertChild 3 0 (Text ''Password''), Relayout 6 36 True]"

lemma portal_clicked:
  "run_task (Call ClickUniversityLoginButton) (page_of portal_doc)
     = page_of portal_doc\<lparr>actions := [Click 5]\<rparr>"
  by (simp add: run_task_unobserved page_of_def clickUniversityLoginButton_def fixture_queries
      click_def run_listeners_def quiet_def disabled_control_def login_link_def getAttribute_def)

lemma sign_on_eq:
  "session sign_on start = \<lparr>current = armed_picker, window = exported, history = [[], [Click 5]]\<rparr>"
proof -
  let ?portal = "session (visiting portal_doc quiet ''clickUniversityLoginButton'') start"
  have portal: "?portal
      = \<lparr>current = page_of portal_doc\<lparr>actions := [Click 5]\<rparr>, window = exported, history = [[]]\<rparr>"
    by (simp only: visits fresh_page_quiet portal_clicked) (simp add: start_def)
  have "session sign_on start
      = session (visiting picker_doc quiet ''clickUserSelectionTile'') ?portal"
    by (simp add: sign_on_def)
  also have "\<dots> = \<lparr>current = armed_picker, window = exported, history = [[], [Click 5]]\<rparr>"
    unfolding portal by (simp only: visits fresh_page_quiet armed_picker_def) simp
  finally show ?thesis .
qed

section \<open>The sign-on flow\<close>

text \<open>
  C12. The script does what it is for. The driver loads the portal, injects the
  script and calls \<open>clickUniversityLoginButton\<close>; the browser moves to the
  account picker, where the driver injects the script again and calls
  \<open>clickUserSelectionTile\<close>; then the page makes a batch of changes, one of
  which inserts or removes a child below the body. If the portal has a sign-on
  link, the picker has a tile, and the password field has a height when the
  page has made its changes, then the portal's log is one click on the sign-on
  link, and the picker's log starts with one click on the first tile followed
  by a \<^verbatim>\<open>focus()\<close> call on the password field. If the picker's focus listeners
  leave the document alone, these two calls are the whole log, no observer is
  left, and the password field holds focus if it can take focus.
\<close>

theorem sign_on_flow:
  fixes b :: browser and portal picker :: document
    and l1 l2 :: "action \<Rightarrow> document \<Rightarrow> mutation list"
  defines "b2 \<equiv> session (visiting portal l1 ''clickUniversityLoginButton''
                            @ visiting picker l2 ''clickUserSelectionTile'') b"
  assumes link: "querySelector login_selector portal = Some a"
    and tiles: "querySelectorAll tile_selector picker = t # ts"
    and bd: "body (doc (current b2)) = Some bd"
    and seen: "noticed (nid bd) ms (doc (current b2))"
    and field: "querySelector passwd_selector (fold apply_mutation ms (doc (current b2))) = Some f"
      "0 < offsetHeight f"
  shows "history (after (Change ms) b2) = history b @ [actions (current b), [Click (nid a)]]
    \<and> (\<exists>rest. actions (current (after (Change ms) b2)) = Click (nid t) # Focus (nid f) # rest)
    \<and> (calm_focus l2 \<longrightarrow>
          actions (current (after (Change ms) b2)) = [Click (nid t), Focus (nid f)]
        \<and> observers (current (after (Change ms) b2)) = [idle]
        \<and> (focusable f \<longrightarrow> activeElement (current (after (Change ms) b2)) = Some (nid f)))"
proof -
  let ?s = "click t (fresh_page picker l2)\<lparr>observers := [register (nid bd) watch_options idle]\<rparr>"
  from link have "actions (run_task (Call ClickUniversityLoginButton) (fresh_page portal l1))
      = [Click (nid a)]"
    by (simp add: run_task_unobserved clickUniversityLoginButton_def)
  then have b2: "b2 = \<lparr>current = run_task (Call ClickUserSelectionTile) (fresh_page picker l2),
      window = exported, history = history b @ [actions (current b), [Click (nid a)]]\<rparr>"
    by (simp only: b2_def session_simps(3) visits) simp
  with tiles bd have "body (doc (click t (fresh_page picker l2))) = Some bd"
    by (simp add: run_task_tile_doc)
  with tiles have s: "current b2 = ?s" by (simp add: b2 run_task_arms)
  have "fires 0 (fold mutate ms ?s)"
    by (rule watched_change_fires [where b = "nid bd" and t = f])
      (use seen field in \<open>simp_all add: s register_def idle_def\<close>)
  from notify_fires [OF this] field(1) obtain rest
    where "actions (run_task (PageChange ms) ?s) = Click (nid t) # Focus (nid f) # rest"
    by (auto simp: run_task_def the_textbox_def s)
  moreover have "run_task (PageChange ms) ?s
    = (drain (fold mutate ms ?s))
        \<lparr>activeElement := (if focusable f then Some (nid f) else activeElement (fold mutate ms ?s)),
         observers := [idle], actions := actions ?s @ [Focus (nid f)]\<rparr>" if "calm_focus l2"
    by (rule lone_watcher_released [where b = "nid bd"])
      (use that seen field in \<open>simp_all add: s\<close>)
  ultimately show ?thesis using s by (simp add: b2)
qed

theorem sign_on_flow_witness:
  "history (session (sign_on @ [field_appears]) start) = [[], [Click 5]]
    \<and> (\<exists>rest. actions (current (session (sign_on @ [field_appears]) start))
          = Click 4 # Focus 6 # rest)
    \<and> actions (current (session (sign_on @ [field_appears]) start)) = [Click 4, Focus 6]
    \<and> observers (current (session (sign_on @ [field_appears]) start)) = [idle]
    \<and> activeElement (current (session (sign_on @ [field_appears]) start)) = Some 6"
proof -
  let ?b = "after field_appears (session sign_on start)"
  have doc: "doc (current (session sign_on start)) = picker_doc"
    by (simp add: sign_on_eq armed_picker_eq)
  have "fold apply_mutation [InsertChild 3 0 (Text ''Password''), Relayout 6 36 True] picker_doc
      = shown_doc"
    by (simp add: shown_doc_def)
  then have "history ?b = history start @ [actions (current start), [Click (nid login_link)]]
    \<and> (\<exists>rest. actions (current ?b) = Click (nid tile_a) # Focus (nid passwd_shown) # rest)
    \<and> (calm_focus quiet \<longrightarrow>
          actions (current ?b) = [Click (nid tile_a), Focus (nid passwd_shown)]
        \<and> observers (current ?b) = [idle]
        \<and> (focusable passwd_shown \<longrightarrow> activeElement (current ?b) = Some (nid passwd_shown)))"
    unfolding field_appears_def sign_on_def
    by (intro sign_on_flow [where bd = "shown 3 ''body'' [] 600" and ts = "[tile_b]"])
      (simp_all add: fixture_queries fixture_body shown_doc_textbox picker_subtree_ids
        sign_on_def [symmetric] doc, simp_all add: passwd_shown_def)
  moreover have "calm_focus quiet" by (simp add: calm_focus_def quiet_def)
  moreover have "focusable passwd_shown" by (simp add: passwd_shown_def)
  ultimately have "history ?b = history start @ [actions (current start), [Click (nid login_link)]]
    \<and> (\<exists>rest. actions (current ?b) = Click (nid tile_a) # Focus (nid passwd_shown) # rest)
    \<and> actions (current ?b) = [Click (nid tile_a), Focus (nid passwd_shown)]
    \<and> observers (current ?b) = [idle]
    \<and> activeElement (current ?b) = Some (nid passwd_shown)"
    by blast
  then show ?thesis
    by (simp add: start_def login_link_def tile_a_def passwd_shown_def)
qed

section \<open>Well-formedness of sessions\<close>

text \<open>
  C18. Sessions are type safe. A browser that is in order stays in order in
  every session in which the pages loaded are well formed with well-behaved
  listeners and the pages' own changes only insert fresh nodes: the document
  keeps distinct identities, focus is on an element of the document, every
  observer is one of the script's, all observers have been notified, and
  \<^verbatim>\<open>window\<close> holds either nothing of the script (and then there is no observer)
  or exactly its three functions under their names.
\<close>

theorem session_well_formed:
  "session_ok b \<Longrightarrow> steps_ok xs b \<Longrightarrow> session_ok (session xs b)"
proof (induction xs arbitrary: b)
  case Nil
  then show ?case by simp
next
  case (Cons x xs)
  have "transition b x (after x b)" by (simp add: transition_after)
  with Cons.prems have "session_ok (after x b)" by (simp add: transition_type_safe)
  with Cons.prems show ?case by (simp add: Cons.IH)
qed

theorem session_well_formed_witness:
  "session_ok (session (sign_on @ [Change [InsertChild 3 3 (Element (hidden 7 ''p'' []) [])]]) start)"
proof (rule session_well_formed)
  show "session_ok start" by (rule start_ok)
  have "steps_ok sign_on start"
    by (simp add: sign_on_def visiting_def fixture_wf)
  moreover have "fresh_changes [InsertChild 3 3 (Element (hidden 7 ''p'' []) [])] picker_doc"
    by (simp add: fresh_for_def picker_doc_elements fixture_defs)
  ultimately show "steps_ok (sign_on @ [Change [InsertChild 3 3 (Element (hidden 7 ''p'' []) [])]]) start"
    by (simp add: steps_ok_append sign_on_eq armed_picker_eq)
qed

section \<open>What the driver can call\<close>

text \<open>
  The three names are bound to the three functions. Once the script has
  been evaluated, whatever \<^verbatim>\<open>window\<close> held before, a call of
  \<^verbatim>\<open>window.clickUniversityLoginButton()\<close> runs \<open>clickUniversityLoginButton\<close> on
  the current page, \<^verbatim>\<open>window.clickUserSelectionTile()\<close> runs
  \<open>clickUserSelectionTile\<close> and \<^verbatim>\<open>window.focusTextbox()\<close> runs \<open>focusTextbox\<close>, each
  followed by the notification of the observers; no name is bound to another
  name's function.
\<close>

theorem exported_names_run_the_functions:
  "after (Invoke ''clickUniversityLoginButton'') (load_script b)
     = (load_script b)\<lparr>current := notify (clickUniversityLoginButton (current b))\<rparr>
   \<and> after (Invoke ''clickUserSelectionTile'') (load_script b)
     = (load_script b)\<lparr>current := notify (state_of (clickUserSelectionTile (current b)))\<rparr>
   \<and> after (Invoke ''focusTextbox'') (load_script b)
     = (load_script b)\<lparr>current := notify (focusTextbox (current b))\<rparr>"
  by (simp add: window_after_script run_task_def)

text \<open>
  The script lives as long as the page. When the browser has loaded a
  page, the observers of the page before are gone and no name of the script
  is bound: whatever the driver calls before it has injected the script again
  is a \<^verbatim>\<open>TypeError\<close> and changes nothing.
\<close>

theorem script_does_not_survive_a_load:
  assumes "transition b (Load d l) b1" and "transition b1 (Invoke name) b2"
  shows "observers (current b1) = [] \<and> thrown (exec (Invoke name) b1) = Some TypeError \<and> b2 = b1"
proof -
  from assms(1) have "window b1 = []" and "observers (current b1) = []"
    by (simp_all add: load_resets)
  moreover from this assms(2) have "b2 = b1" by (auto elim: InvokeE)
  ultimately show ?thesis by (simp add: invoke_thrown)
qed

theorem script_does_not_survive_a_load_witness:
  "observers (current (after (Load password_doc quiet) (session sign_on start))) = []
    \<and> thrown (exec (Invoke ''focusTextbox'') (after (Load password_doc quiet) (session sign_on start)))
        = Some TypeError
    \<and> after (Invoke ''focusTextbox'') (after (Load password_doc quiet) (session sign_on start))
        = after (Load password_doc quiet) (session sign_on start)"
  by (rule script_does_not_survive_a_load
      [where b = "session sign_on start" and d = password_doc and l = quiet])
    (simp_all only: transition_after)

text \<open>
  C19. What the driver can see go wrong. A call by name ends in an exception in
  two cases only, and the exception is a \<^verbatim>\<open>TypeError\<close> in both: the name is not
  bound (the script has not been injected into this page, or the name is not one
  of the three), or the name is bound to \<open>clickUserSelectionTile\<close> and the
  document has a tile and, after the click, no body.
\<close>

theorem driver_sees_error_iff:
  "thrown (exec (Invoke name) b) = Some e \<longleftrightarrow>
     e = TypeError
       \<and> (map_of (window b) name = None
           \<or> map_of (window b) name = Some ClickUserSelectionTile
               \<and> (\<exists>t ts. querySelectorAll tile_selector (doc (current b)) = t # ts
                     \<and> body (doc (click t (current b))) = None))"
proof (cases "map_of (window b) name")
  case None
  then show ?thesis by (cases e) (simp add: invoke_thrown)
next
  case (Some f)
  then show ?thesis
    by (cases f; cases e)
      (auto simp: invoke_thrown clickUserSelectionTile_cases waitForTextboxToAppear_cases
        split: list.splits option.splits)
qed

end
