(* ===== verification/Spec2Isabelle.thy ===== *)
theory Spec2Isabelle
  imports Lifecycle Session
begin

text \<open>
  \<^bold>\<open>A verification development for the sign-on helper script
  \<^verbatim>\<open>src/service/js/click_loginbutton.js\<close>.\<close>

  \<^bold>\<open>The program.\<close> The script is injected into the pages of a university
  single sign-on flow and exposes three functions on \<^verbatim>\<open>window\<close>, which an
  outside driver calls at the right moments:
  \<^item> \<^verbatim>\<open>clickUniversityLoginButton\<close> clicks the first anchor whose \<^verbatim>\<open>href\<close> contains
    \<^verbatim>\<open>auth/saml2/login.php\<close>;
  \<^item> \<^verbatim>\<open>clickUserSelectionTile\<close> clicks the first \<^verbatim>\<open>div.table[role="button"]\<close> and then
    calls \<^verbatim>\<open>waitForTextboxToAppear\<close>, which creates a \<^verbatim>\<open>MutationObserver\<close> on
    \<^verbatim>\<open>document.body\<close>; the observer's callback focuses \<^verbatim>\<open>input[name="passwd"]\<close> the
    first time it runs while that field has a non-zero height, and disconnects;
  \<^item> \<^verbatim>\<open>focusTextbox\<close> focuses the same field at once, if it exists.

  The script has no data of its own: everything it reads and writes belongs to
  the browser. The development therefore has three layers: the page that the
  script acts on, the script itself, and the runs in which the driver's calls,
  the page's own changes and the browser's deliveries to the callback
  interleave. Every theorem about the script is a theorem about what it does
  to a page. A fourth layer, the session, puts the pages of the flow one after
  the other: a page load discards the page and the script with it, the driver
  injects the script again and calls its functions by name.

  \<^bold>\<open>The theories.\<close>
  \<^item> \<open>Prelude\<close>: fact collections; \<open>first\<close> (the first element of a list, or
    nothing) with the "first match" lemmas; substrings as the library's
    \<open>sublist\<close>; whitespace-separated tokens (\<open>split_ws\<close>).
  \<^item> \<open>Dom\<close>: elements (\<open>elem\<close>), nodes, documents; document order
    (\<open>doc_elements\<close>); well-formedness (\<open>wf_document\<close>: identities are distinct);
    attributes and class tokens; \<^verbatim>\<open>document.body\<close> (\<open>body\<close>); the identities below
    an element (\<open>subtree_ids\<close>).
  \<^item> \<open>Selector\<close>: the selector fragment the script uses, \<open>matches\<close>,
    \<open>querySelectorAll\<close> and \<open>querySelector\<close>, with the lemmas that the latter is
    the first of the former and is the first match in document order.
  \<^item> \<open>Selector_Syntax\<close>: selectors as strings: \<open>parse_selector\<close>,
    \<open>print_selector\<close> and their round trip.
  \<^item> \<open>Mutation\<close>: what the page does to its document (\<open>mutation\<close>: a child is
    inserted or removed, an attribute is set, a text is replaced, layout
    changes; \<open>apply_mutation\<close>) and the mutation record each change creates
    (\<open>record_of\<close>), one of the three types the callback tests for. A change
    that is not \<open>effective\<close> (a removal where there is no child) creates no
    record and leaves a well-formed document as it is.
  \<^item> \<open>Observer\<close>: mutation observers: options, registrations, the record queue,
    and the DOM's rule for who is told about a record (\<open>interested\<close>,
    \<open>enqueue\<close>).
  \<^item> \<open>Page\<close>: the page state (\<open>page\<close>: document, focused element, observers, the
    log of the script's \<^verbatim>\<open>click()\<close> and \<^verbatim>\<open>focus()\<close> calls, the page's listeners) and
    the DOM calls of the script as state transformers: \<open>click\<close>, \<open>focus\<close>,
    \<open>new_MutationObserver\<close>, \<open>observe\<close>, \<open>disconnect\<close>. A call the browser rejects
    is a \<open>Throw\<close> that carries the state reached.
  \<^item> \<open>Fixtures\<close>: the concrete pages on which theorems are instantiated.
  \<^item> \<open>Login\<close>: the script. One definition per function of the source, under the
    source's name, and \<open>scan_mutations\<close> for the loop of the callback; \<open>api\<close> and
    \<open>call\<close> for the three exported functions (\<open>api\<close> is an instance of \<open>enum\<close>).
    Its theorems give the behaviour of every function on every branch.
  \<^item> \<open>Notify\<close>: the delivery of queued records to the callback: \<open>deliver\<close> (one
    observer), \<open>notify_round\<close> (every observer that holds records), \<open>notify\<close>
    (rounds until no records are queued), with the termination proof of
    \<open>notify\<close> and the closure principles for properties of the observers.
  \<^item> \<open>Rounds\<close>: the result of \<open>notify\<close> when the field is visible (\<open>fires\<close>),
    when it is not (\<open>drain\<close>), and as a whole when focus listeners leave the
    document alone (\<open>notify_all_fire\<close>); the bound on the number of rounds.
  \<^item> \<open>System\<close>: tasks (\<open>task\<close>: a call by the driver or a batch of changes by
    the page), \<open>run_task\<close>, \<open>run\<close> and the states a run \<open>reaches\<close>; the
    password field if it has a height (\<open>shown_field\<close>), in which the theorems
    on runs state their conditions; the observers of the script
    (\<open>script_observer\<close>); what a task may add to the focus calls (\<open>budget\<close>).
  \<^item> \<open>Watcher\<close>: the watcher in runs: which batches of changes it is told about
    (\<open>noticed\<close>), the fixtures with a watcher, the invariants of all runs, what
    the watcher notices and what it misses.
  \<^item> \<open>Batching\<close>: what the boundaries between tasks do: pages that differ in
    their queues only (\<open>alike\<close>), the merging of batches while the field is
    hidden, and the batch in which the field appears.
  \<^item> \<open>Contract\<close>: what the Appearance Waiter promises, as a function of the
    changes the page makes to its document (\<open>notices\<close>, \<open>released\<close>,
    \<open>watch_spec\<close>), the proof that a task of the page is that function, and
    what follows for a run of batches (\<open>qualifies\<close>, \<open>waiting\<close>).
  \<^item> \<open>Calls\<close>: the contract for the calls of the driver (\<open>call_spec\<close>) and for
    tasks of both kinds (\<open>task_spec\<close>); every task and every run of a page
    whose focus listeners leave the document alone is what the contract says.
  \<^item> \<open>Frame\<close>: what a run does to the document and to the focus: a property
    of documents that the page keeps is kept by every run
    (\<open>doc_closed\<close>, \<open>changes_keep\<close>); well-formedness (\<open>well_behaved\<close>,
    \<open>fresh_run\<close>); \<open>focus_in_document\<close>.
  \<^item> \<open>Lifecycle\<close>: the life of an observer as the specification describes it
    (created, watching, destroyed when it focuses), as an abstract machine
    over events (\<open>abs_run\<close>); the events of a run (\<open>trace\<close>); the refinement
    theorem and what it gives for runs.
  \<^item> \<open>Session\<close>: the browser over several pages (\<open>browser\<close>: the current page,
    the script's properties of \<^verbatim>\<open>window\<close>, the logs of the pages left); the last
    three lines of the source as \<open>load_script\<close>, three assignments (\<open>assign\<close>);
    a call by name (\<open>invoke\<close>); the steps of a session (\<open>step\<close>, \<open>exec\<close>,
    \<open>transition\<close>, \<open>session\<close>); well-formed browsers (\<open>session_ok\<close>).
  \<^item> \<open>Spec2Isabelle\<close> (this theory): the scenario of the specification, as a
    run, and the contract of the script for sessions (\<open>step_spec\<close>).

  \<^bold>\<open>How the model corresponds to the code.\<close> Only \<open>Login\<close> and the
  definitions \<open>assign\<close> and \<open>load_script\<close> of \<open>Session\<close> translate lines of the
  source. What the script calls (\<^verbatim>\<open>querySelector\<close>, \<^verbatim>\<open>querySelectorAll\<close>, \<^verbatim>\<open>click\<close>,
  \<^verbatim>\<open>focus\<close>, \<^verbatim>\<open>new MutationObserver\<close>, \<^verbatim>\<open>observe\<close>, \<^verbatim>\<open>disconnect\<close>, \<^verbatim>\<open>document.body\<close>) is
  the browser's: these definitions, and everything in \<open>Dom\<close>, \<open>Selector\<close>,
  \<open>Mutation\<close>, \<open>Observer\<close>, \<open>Page\<close>, \<open>Notify\<close> and \<open>System\<close>, model the host page
  as the specification and the DOM standard describe it.
  A JavaScript function without
  parameters that acts on the global document is a function \<open>page \<Rightarrow> page\<close>,
  or \<open>page \<Rightarrow> page completion\<close> when it can throw. Object identity of DOM
  nodes is the field \<open>nid\<close>. \<^verbatim>\<open>buttons[0]\<close> under \<^verbatim>\<open>buttons.length > 0\<close> is
  \<open>buttons ! 0\<close> under the same guard; \<^verbatim>\<open>button?.click()\<close> and the null tests are
  case distinctions on an option. A \<^verbatim>\<open>click()\<close> or \<^verbatim>\<open>focus()\<close> runs the page's
  listeners before it returns; they are the field \<open>listeners\<close>, an arbitrary
  function from the action and the document to a list of changes, so that
  every theorem holds for every page script. The callback's second argument,
  the observer itself, is the observer's position in \<open>observers\<close>. The browser
  calls the callback at the end of the task in which a record was queued;
  \<open>run_task\<close> is a task followed by \<open>notify\<close>. The assignments
  \<^verbatim>\<open>window.f = f\<close> at the end of the file are updates of an association list from
  names to functions; the driver's \<^verbatim>\<open>window.f()\<close> looks the name up, and a name
  that is not bound is the \<^verbatim>\<open>TypeError\<close> of calling \<^verbatim>\<open>undefined\<close>.

  \<^bold>\<open>What the theorems show.\<close>
  \<^item> The callback (\<open>Login\<close>): its loop equals one test; it focuses exactly when a
    child-list record arrives while the field has a height; it makes at most
    one focus call; it disconnects after it; it does nothing otherwise.
  \<^item> The watcher in a run (\<open>Watcher\<close>, \<open>Rounds\<close>, \<open>Notify\<close>): a child inserted or removed
    below the watched body, anywhere in a batch after which the field has a
    height, makes the next action a focus call on the field; while the field is
    hidden, notification only takes the queues, and the only focus calls of
    the run are those of \<^verbatim>\<open>focusTextbox\<close>; every focus call of a run is
    paid for by one call of \<^verbatim>\<open>focusTextbox\<close> or \<^verbatim>\<open>clickUserSelectionTile\<close>;
    notification ends, after at most as many rounds as there are observers
    that can still fire; an idle observer stays idle; every observer is one of
    the script's watchers; while the field stays hidden no watcher is ever
    released, and a field with a height that cannot take focus uses the
    watcher up.
  \<^item> The contract (\<open>Contract\<close>): when focus listeners leave the document
    alone, a task in which the page changes its document is \<open>watch_spec\<close>: the
    changes are made, and if the field has a height at the end, every
    observer below whose element a child was inserted or removed makes one
    focus call and is disconnected, and the field holds focus if it can;
    otherwise nothing else happens. Over a run of such tasks, with all
    watchers on the same element, the field is
    focused by the first batch that qualifies; nothing is focused before it
    and nothing after it. A call is a task like a batch (\<open>Calls\<close>): the
    changes of the click listeners are told to the watchers of earlier calls,
    and the new watcher comes after them. The hypotheses of the contract are
    kept by every task, so a run is the fold of the contract over its tasks,
    and a session over pages with such listeners is the fold of the contract
    over its steps (this theory).
  \<^item> Task boundaries (\<open>Batching\<close>): batches that all end with the field hidden
    are one batch, whatever they queue; a child inserted in one task and a
    height given in the next are not noticed, although the same changes in
    one task are.
  \<^item> The session (\<open>Session\<close>): the flow the script is written for, from the
    portal to the focused password field; every step keeps the browser well
    formed (all reachable browsers are); the three names run the three
    functions; the only exceptions a driver can see; neither the observers
    nor the bindings survive a page load.
  \<^item> Refinement (\<open>Lifecycle\<close>): the events of every run are accepted by the
    lifecycle machine and lead to the abstraction of the page the run ends
    in; hence no observer fires twice.
  \<^item> The document and the focus (\<open>Frame\<close>, \<open>Mutation\<close>): the script changes the
    document only through the page's listeners, so every property of
    documents that the page keeps holds throughout a run; fresh changes keep
    identities distinct; the focused element is always in the document.
  \<^item> The scenario of the specification (this theory), step by step.
  \<^item> The three functions (\<open>Login\<close>): the no-op cases, the first match in
    document order, the observer that is created, the \<^verbatim>\<open>TypeError\<close> when the
    document has no body, the empty queue of a new observer, the focus call
    that is made whatever the height of the field, two calls of
    \<^verbatim>\<open>focusTextbox\<close> in succession (one call and a redundant entry in the log
    when the focus listener leaves the document alone, and an example of a
    page on which they are not), and that a call adds at most one action to
    the log.
  \<^item> What the watcher misses (\<open>Watcher\<close>): a field made visible by a change of
    style or of an attribute, without a child inserted or removed, and a field
    made visible by the click itself.
  \<^item> The queries (\<open>Selector\<close>): \<open>querySelector\<close> against \<open>querySelectorAll\<close>; the
    selector strings of the source read as the selectors of the model
    (\<open>Login\<close>), and the round trip of writing and reading (\<open>Selector_Syntax\<close>).

  \<^bold>\<open>Bounds and fuel.\<close> There are none. Documents, batches of changes, runs
  and sessions are lists of any length. The only recursion that is not structural is
  \<open>notify\<close>, the loop that delivers records until none are queued (and
  \<open>notify_events\<close>, which follows it); it is a
  total function, by the lexicographic measure (\<open>n_live\<close>, \<open>n_pending\<close>): a
  round that calls a callback which focuses the field removes an observer
  from the live ones for good, and any other round empties queues without
  adding records. The same measure bounds the loop: \<open>notify\<close> makes at most
  \<open>n_live\<close> rounds.

  \<^bold>\<open>What is not modelled.\<close> What makes the browser navigate: a page load is a
  step of the session that can come at any time, and the theorems do not
  assume that it follows the click on the login link; the network, and pages
  that fail to load; the isolation of an extension's content script from the
  page's own \<^verbatim>\<open>window\<close>; style and layout, of which only
  \<open>offsetHeight\<close> and \<open>focusable\<close> appear, as fields the browser sets and
  \<open>Relayout\<close> changes; selectors beyond the fragment the script uses
  (combinators, lists, pseudo-classes, escapes); attribute filters and old
  values in mutation records; changes to nodes that are no longer in the
  document (an observer registered on a body that the page has removed is
  still told about changes below it; the model knows the document only);
  the order of callbacks among observers registered on different elements
  (the model calls them in the order of creation, which is the browser's
  order for observers on one element); observers created by other scripts
  (an observer of the model does not carry a callback of its own: every
  observer of a page is called with the callback of the script, and the
  theorems on runs assume that the observers are the script's); listeners of
  the page that call the script's functions themselves or move the focus
  (a listener is a function to changes of the document); exceptions in runs
  (a call that throws ends its task with the state reached, and only the
  session shows the exception to the driver); focus moved by the user; timers and the
  order of tasks, which is left to the run; the driver's program: it appears
  as the sequence of steps of a session, of which the development assumes
  nothing.
\<close>

section \<open>The scenario of the specification\<close>

text \<open>
  The account picker has a password field of height zero. The driver calls
  \<^verbatim>\<open>clickUserSelectionTile\<close>; the page then inserts a sibling of the field, later
  gives the field a height and inserts a label in the same batch, and later
  still inserts another node.
\<close>

definition sibling_inserted :: task where
  "sibling_inserted = PageChange [InsertChild 3 3 (Element (hidden 7 ''p'' []) [])]"

definition field_shown :: task where
  "field_shown = PageChange [Relayout 6 36 True, InsertChild 3 0 (Text ''Password'')]"

definition later_change :: task where
  "later_change = PageChange [InsertChild 3 0 (Text ''Signing in'')]"

definition waiting_picker :: page where
  "waiting_picker = run_task sibling_inserted armed_picker"

definition waiting_doc :: document where
  "waiting_doc = apply_mutation (InsertChild 3 3 (Element (hidden 7 ''p'' []) [])) picker_doc"

lemma waiting_doc_eq:
  "waiting_doc =
     [Element (shown 1 ''html'' [] 600)
        [Element (hidden 2 ''head'' []) [],
         Element (shown 3 ''body'' [] 600)
           [Element tile_a [Text ''alice@example.ac.jp''],
            Element tile_b [Text ''Use another account''],
            Element passwd_hidden [],
            Element (hidden 7 ''p'' []) []]]]"
  by (simp add: waiting_doc_def apply_mutation_def insert_at_def fixture_defs)

lemma waiting_picker_eq:
  "waiting_picker =
     \<lparr>doc = waiting_doc, activeElement = None,
      observers = [\<lparr>registered = [(3, watch_options)], queue = []\<rparr>],
      actions = [Click 4], listeners = quiet\<rparr>"
proof -
  have "querySelector passwd_selector waiting_doc = Some passwd_hidden"
    by (simp add: waiting_doc_eq querySelector_def sel_defs fixture_defs getAttribute_def)
  then show ?thesis
    by (simp add: waiting_picker_def sibling_inserted_def armed_picker_eq waiting_doc_def
        run_eval picker_subtree_ids picker_lookup_body passwd_hidden_def)
qed

lemma waiting_facts:
  "subtree_ids waiting_doc 3 = [3, 4, 5, 6, 7]"
  "lookup waiting_doc 3 = Some (shown 3 ''body'' [] 600)"
  "lookup waiting_doc 6 = Some passwd_hidden"
  by (simp_all add: waiting_doc_eq subtree_ids_def has_id_def lookup_def fixture_defs)

definition revealed_doc :: document where
  "revealed_doc =
     [Element (shown 1 ''html'' [] 600)
        [Element (hidden 2 ''head'' []) [],
         Element (shown 3 ''body'' [] 600)
           [Text ''Password'',
            Element tile_a [Text ''alice@example.ac.jp''],
            Element tile_b [Text ''Use another account''],
            Element passwd_shown [],
            Element (hidden 7 ''p'' []) []]]]"

lemma field_shown_queued:
  "perform field_shown waiting_picker =
     \<lparr>doc = revealed_doc, activeElement = None,
      observers = [\<lparr>registered = [(3, watch_options)], queue = [\<lparr>mtype = ChildList, target = 3\<rparr>]\<rparr>],
      actions = [Click 4], listeners = quiet\<rparr>"
  by (simp add: field_shown_def waiting_picker_eq waiting_doc_eq revealed_doc_def mutate_eval
      keep_focus_def record_of_def watching_interested apply_mutation_def insert_at_def
      subtree_ids_def has_id_def lookup_def fixture_defs)

lemma revealed_doc_textbox: "querySelector passwd_selector revealed_doc = Some passwd_shown"
  by (simp add: revealed_doc_def querySelector_def sel_defs fixture_defs getAttribute_def)

lemma field_shown_focused:
  "run_task field_shown waiting_picker =
     \<lparr>doc = revealed_doc, activeElement = Some 6, observers = [idle],
      actions = [Click 4, Focus 6], listeners = quiet\<rparr>"
  unfolding run_task_def field_shown_queued
  by (simp add: run_eval revealed_doc_textbox passwd_shown_def)

lemma later_change_ignored:
  "run_task later_change (run_task field_shown waiting_picker) =
     (run_task field_shown waiting_picker)
       \<lparr>doc := apply_mutation (InsertChild 3 0 (Text ''Signing in'')) revealed_doc\<rparr>"
  unfolding field_shown_focused
  by (simp add: later_change_def run_eval revealed_doc_def lookup_def subtree_ids_def has_id_def
      fixture_defs apply_mutation_def insert_at_def idle_def interested_def)

text \<open>
  The scenario in terms of the contract: the first batch does not qualify (a
  child is inserted below the body, but the field has no height), the second
  does.
\<close>

lemma scenario_batches:
  "waiting 3 [[InsertChild 3 3 (Element (hidden 7 ''p'' []) [])]] picker_doc"
  "qualifies 3 [Relayout 6 36 True, InsertChild 3 0 (Text ''Password'')] waiting_doc"
proof -
  have "querySelector passwd_selector waiting_doc = Some passwd_hidden"
    by (simp add: waiting_doc_eq querySelector_def sel_defs fixture_defs getAttribute_def)
  then show "waiting 3 [[InsertChild 3 3 (Element (hidden 7 ''p'' []) [])]] picker_doc"
    by (simp add: qualifies_eq waiting_doc_def [symmetric] passwd_hidden_def)
  have "fold apply_mutation [Relayout 6 36 True, InsertChild 3 0 (Text ''Password'')] waiting_doc
      = revealed_doc"
    by (simp add: waiting_doc_eq revealed_doc_def apply_mutation_def insert_at_def fixture_defs)
  moreover have "subtree_ids (apply_mutation (Relayout 6 36 True) waiting_doc) 3 = [3, 4, 5, 6, 7]"
    by (simp add: waiting_doc_eq apply_mutation_def subtree_ids_def has_id_def fixture_defs)
  ultimately show "qualifies 3 [Relayout 6 36 True, InsertChild 3 0 (Text ''Password'')] waiting_doc"
    by (simp add: qualifies_eq revealed_doc_textbox passwd_shown_def)
qed

text \<open>
  The scenario of the specification. After \<^verbatim>\<open>clickUserSelectionTile\<close> on the
  account picker, inserting a sibling of the hidden field does not focus
  anything and leaves the watcher connected. The batch in which the field
  gets a height and a node is inserted makes the watcher focus the field and
  disconnect. A later qualifying change neither focuses again nor revives the
  observer.
\<close>

theorem zero_height_scenario:
  "let s1 = run_task (Call ClickUserSelectionTile) (page_of picker_doc);
       s2 = run_task sibling_inserted s1;
       s3 = run_task field_shown s2;
       s4 = run_task later_change s3
   in actions s1 = [Click 4] \<and> map connected (observers s1) = [True]
      \<and> actions s2 = [Click 4] \<and> map connected (observers s2) = [True] \<and> activeElement s2 = None
      \<and> actions s3 = [Click 4, Focus 6] \<and> activeElement s3 = Some 6 \<and> observers s3 = [idle]
      \<and> actions s4 = [Click 4, Focus 6] \<and> activeElement s4 = Some 6 \<and> observers s4 = [idle]"
  unfolding Let_def armed_picker_def [symmetric] waiting_picker_def [symmetric] later_change_ignored
  unfolding field_shown_focused
  by (simp add: armed_picker_eq waiting_picker_eq connected_def)

section \<open>The contract in a session\<close>

text \<open>
  What a step of a session leads to, by the contract: page loads and
  injections as they are, calls by name and batches of changes as the contract
  of the script says. A session is calm when the pages it loads have focus
  listeners that leave the document alone.
\<close>

fun step_spec :: "step \<Rightarrow> browser \<Rightarrow> browser" where
  "step_spec (Load d l) b = leave d l b"
| "step_spec Inject b = load_script b"
| "step_spec (Invoke name) b =
     (case map_of (window b) name of
        None \<Rightarrow> b
      | Some f \<Rightarrow> b\<lparr>current := call_spec f (current b)\<rparr>)"
| "step_spec (Change ms) b = b\<lparr>current := watch_spec ms (current b)\<rparr>"

fun calm_step :: "step \<Rightarrow> bool" where
  "calm_step (Load d l) \<longleftrightarrow> calm_focus l"
| "calm_step x \<longleftrightarrow> True"

lemma settled_fresh: "calm_focus l \<Longrightarrow> settled (fresh_page d l)"
  by (simp add: settled_def pending_def)

lemma after_step_spec:
  assumes "settled (current b)" and "calm_step x"
  shows "after x b = step_spec x b" and "settled (current (after x b))"
proof -
  show "after x b = step_spec x b"
    using assms by (cases x) (simp_all add: run_task_task_spec split: option.split)
  show "settled (current (after x b))"
    using assms
    by (cases x) (simp_all add: settled_run_task leave_def settled_fresh split: option.split)
qed

text \<open>
  C13. The contract holds in every calm session. From a browser whose page has
  only observers of the script, none of which holds a record, and focus
  listeners that leave the document alone (the start is such a browser), every
  session whose pages have such focus listeners ends in the browser that the
  contract gives, step by step: the pages loaded, the script injected, and for
  every call by name and every batch of changes what the contract of the
  script says. In such sessions the script is its contract.
\<close>

theorem session_meets_contract:
  "settled (current b) \<Longrightarrow> list_all calm_step xs \<Longrightarrow> session xs b = fold step_spec xs b"
proof (induction xs arbitrary: b)
  case Nil
  show ?case by simp
next
  case (Cons x xs)
  from Cons.prems have "settled (current b)" and "calm_step x" by simp_all
  note x = after_step_spec [OF this]
  from x(2) Cons.prems(2) have "session xs (after x b) = fold step_spec xs (after x b)"
    by (intro Cons.IH) simp_all
  then show ?case by (simp add: x(1))
qed

theorem session_meets_contract_witness:
  "session (sign_on @ [field_appears]) start = fold step_spec (sign_on @ [field_appears]) start"
  by (rule session_meets_contract)
    (simp_all add: start_def settled_fresh sign_on_def visiting_def field_appears_def
      calm_focus_def quiet_def)

end
